theory Spec2Isabelle
  imports Complex_Main "HOL-Library.Signed_Division" "HOL-Library.AList"
begin

section \<open>Constants and block identifiers\<close>

text \<open>
  The world constants of the constants module. Coordinates are JavaScript numbers that the
  simulation core only ever uses at integer values, so they are modelled as \<open>int\<close>.
\<close>

definition CHUNK_SIZE :: int where "CHUNK_SIZE = 16"
definition CHUNK_HEIGHT :: int where "CHUNK_HEIGHT = 80"
definition SEA_LEVEL :: int where "SEA_LEVEL = 30"
definition BEDROCK_LEVEL :: int where "BEDROCK_LEVEL = 0"
definition WATER_LEVEL :: int where "WATER_LEVEL = 28"
definition GRAVITY :: rat where "GRAVITY = 20"
definition JUMP_FORCE :: rat where "JUMP_FORCE = 8"
definition PLAYER_SPEED :: rat where "PLAYER_SPEED = 5"
definition PLAYER_HEIGHT :: rat where "PLAYER_HEIGHT = 17 / 10"
definition PLAYER_WIDTH :: rat where "PLAYER_WIDTH = 6 / 10"

text \<open>
  \<open>BlockType\<close> is a numeric TypeScript enum and a chunk stores its values in a
  \<open>Uint8Array\<close>, so a block identifier is the number the enum assigns.
\<close>

type_synonym BlockType = nat

definition AIR :: BlockType where "AIR = 0"
definition GRASS :: BlockType where "GRASS = 1"
definition DIRT :: BlockType where "DIRT = 2"
definition STONE :: BlockType where "STONE = 3"
definition BEDROCK :: BlockType where "BEDROCK = 4"
definition WOOD :: BlockType where "WOOD = 5"
definition LEAVES :: BlockType where "LEAVES = 6"
definition SAND :: BlockType where "SAND = 7"
definition WATER :: BlockType where "WATER = 8"
definition FLOWER_RED :: BlockType where "FLOWER_RED = 9"
definition FLOWER_YELLOW :: BlockType where "FLOWER_YELLOW = 10"
definition TALL_GRASS :: BlockType where "TALL_GRASS = 11"
definition MUSHROOM_RED :: BlockType where "MUSHROOM_RED = 12"
definition MUSHROOM_BROWN :: BlockType where "MUSHROOM_BROWN = 13"
definition COBBLESTONE :: BlockType where "COBBLESTONE = 14"
definition PLANKS :: BlockType where "PLANKS = 15"
definition GLASS :: BlockType where "GLASS = 16"
definition BRICK :: BlockType where "BRICK = 17"
definition REDSTONE_DUST :: BlockType where "REDSTONE_DUST = 18"
definition REDSTONE_TORCH :: BlockType where "REDSTONE_TORCH = 19"
definition REDSTONE_BLOCK :: BlockType where "REDSTONE_BLOCK = 20"
definition REDSTONE_LAMP :: BlockType where "REDSTONE_LAMP = 21"
definition REDSTONE_REPEATER :: BlockType where "REDSTONE_REPEATER = 22"
definition LEVER :: BlockType where "LEVER = 23"
definition BUTTON :: BlockType where "BUTTON = 24"
definition PISTON :: BlockType where "PISTON = 25"
definition TNT :: BlockType where "TNT = 26"
definition OBSERVER :: BlockType where "OBSERVER = 27"
definition COMPARATOR :: BlockType where "COMPARATOR = 28"
definition NOTE_BLOCK :: BlockType where "NOTE_BLOCK = 29"
definition IRON_BLOCK :: BlockType where "IRON_BLOCK = 30"
definition GOLD_BLOCK :: BlockType where "GOLD_BLOCK = 31"
definition DIAMOND_BLOCK :: BlockType where "DIAMOND_BLOCK = 32"
definition CRAFTING_TABLE :: BlockType where "CRAFTING_TABLE = 33"
definition FURNACE :: BlockType where "FURNACE = 34"
definition TORCH :: BlockType where "TORCH = 35"
definition WOOL_WHITE :: BlockType where "WOOL_WHITE = 36"
definition WOOL_RED :: BlockType where "WOOL_RED = 37"
definition WOOL_BLUE :: BlockType where "WOOL_BLUE = 38"
definition WOOL_GREEN :: BlockType where "WOOL_GREEN = 39"
definition WOOL_YELLOW :: BlockType where "WOOL_YELLOW = 40"
definition LOG_BIRCH :: BlockType where "LOG_BIRCH = 41"
definition SNOW :: BlockType where "SNOW = 42"
definition ICE :: BlockType where "ICE = 43"
definition OBSIDIAN :: BlockType where "OBSIDIAN = 44"
definition GLOWSTONE :: BlockType where "GLOWSTONE = 45"
definition BOOKSHELF :: BlockType where "BOOKSHELF = 46"
definition MOSSY_COBBLE :: BlockType where "MOSSY_COBBLE = 47"
definition FERN :: BlockType where "FERN = 48"
definition SUGAR_CANE :: BlockType where "SUGAR_CANE = 49"
definition CACTUS :: BlockType where "CACTUS = 50"
definition SUNFLOWER :: BlockType where "SUNFLOWER = 51"
definition ROSE_BUSH :: BlockType where "ROSE_BUSH = 52"
definition LILAC :: BlockType where "LILAC = 53"
definition LILY_PAD :: BlockType where "LILY_PAD = 54"
definition DOOR_OAK :: BlockType where "DOOR_OAK = 55"
definition FENCE_OAK :: BlockType where "FENCE_OAK = 56"
definition GRAVEL :: BlockType where "GRAVEL = 57"
definition CLAY :: BlockType where "CLAY = 58"
definition LEAVES_BIRCH :: BlockType where "LEAVES_BIRCH = 59"
definition STICK :: BlockType where "STICK = 60"
definition LAPIS_BLOCK :: BlockType where "LAPIS_BLOCK = 61"
definition COMMAND_BLOCK :: BlockType where "COMMAND_BLOCK = 62"
definition PORTAL :: BlockType where "PORTAL = 63"
definition PORTAL_FRAME :: BlockType where "PORTAL_FRAME = 64"
definition LOG_SPRUCE :: BlockType where "LOG_SPRUCE = 65"
definition LOG_JUNGLE :: BlockType where "LOG_JUNGLE = 66"
definition LOG_ACACIA :: BlockType where "LOG_ACACIA = 67"
definition LOG_DARK_OAK :: BlockType where "LOG_DARK_OAK = 68"
definition LOG_CHERRY :: BlockType where "LOG_CHERRY = 69"
definition PLANKS_SPRUCE :: BlockType where "PLANKS_SPRUCE = 70"
definition PLANKS_BIRCH :: BlockType where "PLANKS_BIRCH = 71"
definition PLANKS_JUNGLE :: BlockType where "PLANKS_JUNGLE = 72"
definition PLANKS_ACACIA :: BlockType where "PLANKS_ACACIA = 73"
definition PLANKS_DARK_OAK :: BlockType where "PLANKS_DARK_OAK = 74"
definition PLANKS_CHERRY :: BlockType where "PLANKS_CHERRY = 75"
definition LEAVES_SPRUCE :: BlockType where "LEAVES_SPRUCE = 76"
definition LEAVES_JUNGLE :: BlockType where "LEAVES_JUNGLE = 77"
definition LEAVES_ACACIA :: BlockType where "LEAVES_ACACIA = 78"
definition LEAVES_DARK_OAK :: BlockType where "LEAVES_DARK_OAK = 79"
definition LEAVES_CHERRY :: BlockType where "LEAVES_CHERRY = 80"
definition SANDSTONE :: BlockType where "SANDSTONE = 81"
definition RED_SANDSTONE :: BlockType where "RED_SANDSTONE = 82"
definition QUARTZ_BLOCK :: BlockType where "QUARTZ_BLOCK = 83"
definition QUARTZ_PILLAR :: BlockType where "QUARTZ_PILLAR = 84"
definition MELON :: BlockType where "MELON = 85"
definition PUMPKIN :: BlockType where "PUMPKIN = 86"
definition HAY_BLOCK :: BlockType where "HAY_BLOCK = 87"
definition BONE_BLOCK :: BlockType where "BONE_BLOCK = 88"
definition MYCELIUM :: BlockType where "MYCELIUM = 89"
definition PODZOL :: BlockType where "PODZOL = 90"
definition BASALT :: BlockType where "BASALT = 91"
definition POLISHED_BASALT :: BlockType where "POLISHED_BASALT = 92"
definition DEEPSLATE :: BlockType where "DEEPSLATE = 93"
definition ANCIENT_DEBRIS :: BlockType where "ANCIENT_DEBRIS = 94"
definition LODESTONE :: BlockType where "LODESTONE = 95"
definition TARGET :: BlockType where "TARGET = 96"
definition JUKEBOX :: BlockType where "JUKEBOX = 97"
definition ENCHANTING_TABLE :: BlockType where "ENCHANTING_TABLE = 98"
definition ANVIL :: BlockType where "ANVIL = 99"
definition HOPPER :: BlockType where "HOPPER = 100"
definition CAULDRON :: BlockType where "CAULDRON = 101"
definition CAKE :: BlockType where "CAKE = 102"
lemmas BlockType_defs = AIR_def GRASS_def DIRT_def STONE_def BEDROCK_def WOOD_def LEAVES_def
   SAND_def WATER_def FLOWER_RED_def FLOWER_YELLOW_def TALL_GRASS_def MUSHROOM_RED_def
   MUSHROOM_BROWN_def COBBLESTONE_def PLANKS_def GLASS_def BRICK_def REDSTONE_DUST_def
   REDSTONE_TORCH_def REDSTONE_BLOCK_def REDSTONE_LAMP_def REDSTONE_REPEATER_def LEVER_def
   BUTTON_def PISTON_def TNT_def OBSERVER_def COMPARATOR_def NOTE_BLOCK_def IRON_BLOCK_def
   GOLD_BLOCK_def DIAMOND_BLOCK_def CRAFTING_TABLE_def FURNACE_def TORCH_def WOOL_WHITE_def
   WOOL_RED_def WOOL_BLUE_def WOOL_GREEN_def WOOL_YELLOW_def LOG_BIRCH_def SNOW_def ICE_def
   OBSIDIAN_def GLOWSTONE_def BOOKSHELF_def MOSSY_COBBLE_def FERN_def SUGAR_CANE_def
   CACTUS_def SUNFLOWER_def ROSE_BUSH_def LILAC_def LILY_PAD_def DOOR_OAK_def FENCE_OAK_def
   GRAVEL_def CLAY_def LEAVES_BIRCH_def STICK_def LAPIS_BLOCK_def COMMAND_BLOCK_def PORTAL_def
   PORTAL_FRAME_def LOG_SPRUCE_def LOG_JUNGLE_def LOG_ACACIA_def LOG_DARK_OAK_def
   LOG_CHERRY_def PLANKS_SPRUCE_def PLANKS_BIRCH_def PLANKS_JUNGLE_def PLANKS_ACACIA_def
   PLANKS_DARK_OAK_def PLANKS_CHERRY_def LEAVES_SPRUCE_def LEAVES_JUNGLE_def LEAVES_ACACIA_def
   LEAVES_DARK_OAK_def LEAVES_CHERRY_def SANDSTONE_def RED_SANDSTONE_def QUARTZ_BLOCK_def
   QUARTZ_PILLAR_def MELON_def PUMPKIN_def HAY_BLOCK_def BONE_BLOCK_def MYCELIUM_def
   PODZOL_def BASALT_def POLISHED_BASALT_def DEEPSLATE_def ANCIENT_DEBRIS_def LODESTONE_def
   TARGET_def JUKEBOX_def ENCHANTING_TABLE_def ANVIL_def HOPPER_def CAULDRON_def CAKE_def

section \<open>Chunk store and addressing\<close>

text \<open>
  JavaScript's \<open>%\<close> truncates towards zero (the result has the sign of the dividend):
  on integers it is \<open>smod\<close>. \<open>Math.floor(n / 16)\<close> on an integer is \<open>n div 16\<close>.
  \<open>wrapLocal\<close> is the expression \<open>((n % CHUNK_SIZE) + CHUNK_SIZE) % CHUNK_SIZE\<close> that every
  world-coordinate access uses for the local coordinate.
\<close>

definition wrapLocal :: "int \<Rightarrow> int" where
  "wrapLocal n = ((n smod CHUNK_SIZE) + CHUNK_SIZE) smod CHUNK_SIZE"

record ChunkData =
  blocks :: "nat list"
  cx :: int
  cz :: int

definition getIndex :: "int \<Rightarrow> int \<Rightarrow> int \<Rightarrow> int" where
  "getIndex x y z = x + z * CHUNK_SIZE + y * CHUNK_SIZE * CHUNK_SIZE"

definition getBlock :: "ChunkData \<Rightarrow> int \<Rightarrow> int \<Rightarrow> int \<Rightarrow> BlockType" where
  "getBlock chunk x y z =
     (if x < 0 \<or> x \<ge> CHUNK_SIZE \<or> y < 0 \<or> y \<ge> CHUNK_HEIGHT \<or> z < 0 \<or> z \<ge> CHUNK_SIZE then AIR
      else blocks chunk ! nat (getIndex x y z))"

text \<open>
  A store into a \<open>Uint8Array\<close> keeps the value modulo 256 and a store past the end is
  ignored, which is what \<open>list_update\<close> does out of range.
\<close>

definition setBlock :: "ChunkData \<Rightarrow> int \<Rightarrow> int \<Rightarrow> int \<Rightarrow> BlockType \<Rightarrow> ChunkData" where
  "setBlock chunk x y z type =
     (if x < 0 \<or> x \<ge> CHUNK_SIZE \<or> y < 0 \<or> y \<ge> CHUNK_HEIGHT \<or> z < 0 \<or> z \<ge> CHUNK_SIZE then chunk
      else chunk\<lparr>blocks := (blocks chunk)[nat (getIndex x y z) := type mod 256]\<rparr>)"

text \<open>
  \<open>chunkKey\<close> formats the pair of chunk coordinates as the string \<open>cx,cz\<close>; the string is
  only ever used as a key, and the pair itself serves as the key here. The chunk table is a
  JavaScript \<open>Map\<close>, which iterates in insertion order: an association list, read with
  \<open>map_of\<close> and written with \<open>AList.update\<close>.
\<close>

definition chunkKey :: "int \<Rightarrow> int \<Rightarrow> int \<times> int" where
  "chunkKey kx kz = (kx, kz)"

type_synonym ChunkMap = "((int \<times> int) \<times> ChunkData) list"

definition getBlockAt :: "ChunkMap \<Rightarrow> int \<Rightarrow> int \<Rightarrow> int \<Rightarrow> BlockType" where
  "getBlockAt chunks bx by bz =
     (if by < 0 \<or> by \<ge> CHUNK_HEIGHT then AIR
      else case map_of chunks (chunkKey (bx div CHUNK_SIZE) (bz div CHUNK_SIZE)) of
             None \<Rightarrow> STONE
           | Some chunk \<Rightarrow> getBlock chunk (wrapLocal bx) by (wrapLocal bz))"

definition getBlockAtLoaded :: "ChunkMap \<Rightarrow> int \<Rightarrow> int \<Rightarrow> int \<Rightarrow> BlockType" where
  "getBlockAtLoaded chunks bx by bz =
     (if by < 0 \<or> by \<ge> CHUNK_HEIGHT then AIR
      else case map_of chunks (chunkKey (bx div CHUNK_SIZE) (bz div CHUNK_SIZE)) of
             None \<Rightarrow> AIR
           | Some chunk \<Rightarrow> getBlock chunk (wrapLocal bx) by (wrapLocal bz))"

text \<open>
  Every chunk in the table comes from \<open>generateChunk\<close>, which allocates
  \<open>CHUNK_SIZE * CHUNK_SIZE * CHUNK_HEIGHT\<close> bytes and files the chunk under its own coordinates.
\<close>

definition wf_chunk :: "ChunkData \<Rightarrow> bool" where
  "wf_chunk c \<longleftrightarrow> length (blocks c) = nat (CHUNK_SIZE * CHUNK_SIZE * CHUNK_HEIGHT)"

definition wf_chunks :: "ChunkMap \<Rightarrow> bool" where
  "wf_chunks cs \<longleftrightarrow>
     distinct (map fst cs) \<and> (\<forall>(k, c) \<in> set cs. wf_chunk c \<and> k = chunkKey (cx c) (cz c))"

definition loaded :: "ChunkMap \<Rightarrow> int \<Rightarrow> int \<Rightarrow> bool" where
  "loaded cs x z \<longleftrightarrow> map_of cs (chunkKey (x div CHUNK_SIZE) (z div CHUNK_SIZE)) \<noteq> None"

section \<open>World state and the edit protocol\<close>

text \<open>
  The part of the renderer object that the simulation core reads and writes. Meshes, particles
  and the scene graph belong to the rendering layer and are left out; so are the sets of chunk
  keys that only select which meshes to rebuild. The two key/value tables of the signal engine
  and the fluid work queue are keyed in the source by the string \<open>x,y,z\<close>; the triple stands
  for it. A JavaScript \<open>Set\<close> keeps insertion order and ignores a second insertion.
  \<open>blockChanged\<close> collects the change events handed to the persistence and multiplayer
  callback, \<open>commandBlocksFired\<close> the command blocks whose rising edge hands their stored
  text to the command system.
\<close>

type_synonym Pos = "int \<times> int \<times> int"

record FallingBlock =
  fbPosition :: "rat \<times> rat \<times> rat"
  fbVelocity :: "rat \<times> rat \<times> rat"
  fbBlockType :: BlockType
  fbLifetime :: rat

record MultiplayerBlockEvent =
  evx :: int
  evy :: int
  evz :: int
  evtype :: nat

datatype GameMode = Creative | Survival

datatype ToolType = NONE | SWORD | AXE | PICKAXE | SHOVEL

record ActiveBreakState =
  abx :: int
  aby :: int
  abz :: int
  abBlock :: BlockType
  progress :: rat
  lastHit :: rat

text \<open>
  The fields of the renderer that player movement reads and writes. Positions, velocities and
  time steps are JavaScript numbers; they are modelled as exact rationals.
\<close>

record PlayerBody =
  playerPos :: "rat \<times> rat \<times> rat"
  playerVelocity :: "rat \<times> rat \<times> rat"
  onGround :: bool
  jumping :: bool
  health :: int
  lastGroundY :: rat
  wasFalling :: bool

record GameRenderer =
  chunks :: ChunkMap
  player :: PlayerBody
  crosshairTarget :: "Pos option"
  gameMode :: GameMode
  selectedTool :: ToolType
  activeBreak :: "ActiveBreakState option"
  lowEndDevice :: bool
  waterFlowActive :: "Pos list"
  redstonePower :: "Pos \<Rightarrow> nat option"
  redstoneActive :: "Pos \<Rightarrow> bool option"
  rsPoweredState :: "Pos \<Rightarrow> bool option"
  redstoneDirty :: bool
  fallingBlocks :: "FallingBlock list"
  blockChanged :: "MultiplayerBlockEvent list"
  commandBlocksFired :: "Pos list"

text \<open>The renderer as its field initialisers leave it, before any chunk is loaded.\<close>

definition newGameRenderer :: GameRenderer where
  "newGameRenderer =
     \<lparr>chunks = [],
      player = \<lparr>playerPos = (8, 50, 8), playerVelocity = (0, 0, 0), onGround = False,
                jumping = False, health = 20, lastGroundY = 0, wasFalling = False\<rparr>,
      crosshairTarget = None, gameMode = Creative, selectedTool = NONE,
      activeBreak = None, lowEndDevice = False, waterFlowActive = [], redstonePower = Map.empty,
      redstoneActive = Map.empty, rsPoweredState = Map.empty, redstoneDirty = True,
      fallingBlocks = [], blockChanged = [], commandBlocksFired = []\<rparr>"

definition setAdd :: "'a \<Rightarrow> 'a list \<Rightarrow> 'a list" where
  "setAdd k s = (if k \<in> set s then s else s @ [k])"

definition waterKey :: "int \<Rightarrow> int \<Rightarrow> int \<Rightarrow> Pos" where
  "waterKey x y z = (x, y, z)"

definition queueWaterAt :: "GameRenderer \<Rightarrow> int \<Rightarrow> int \<Rightarrow> int \<Rightarrow> GameRenderer" where
  "queueWaterAt g x y z =
     (if y < 0 \<or> y \<ge> CHUNK_HEIGHT then g
      else if getBlockAtLoaded (chunks g) x y z \<noteq> WATER then g
      else g\<lparr>waterFlowActive := setAdd (waterKey x y z) (waterFlowActive g)\<rparr>)"

definition queueWaterAround :: "GameRenderer \<Rightarrow> int \<Rightarrow> int \<Rightarrow> int \<Rightarrow> GameRenderer" where
  "queueWaterAround g x y z =
     (let g = queueWaterAt g x y z;
          g = queueWaterAt g (x + 1) y z;
          g = queueWaterAt g (x - 1) y z;
          g = queueWaterAt g x y (z + 1);
          g = queueWaterAt g x y (z - 1);
          g = queueWaterAt g x (y + 1) z
      in queueWaterAt g x (y - 1) z)"

text \<open>
  \<open>setLoadedBlockFast\<close> returns the previous block, or \<open>null\<close> (here \<open>None\<close>) when the
  coordinate is outside the vertical range or its chunk is not loaded. The chunk object is
  mutated in place, so the table keeps it under the same key at the same position.
\<close>

definition setLoadedBlockFast ::
  "ChunkMap \<Rightarrow> int \<Rightarrow> int \<Rightarrow> int \<Rightarrow> BlockType \<Rightarrow> BlockType option \<times> ChunkMap" where
  "setLoadedBlockFast cs x y z blockType =
     (if y < 0 \<or> y \<ge> CHUNK_HEIGHT then (None, cs)
      else let key = chunkKey (x div CHUNK_SIZE) (z div CHUNK_SIZE) in
        case map_of cs key of
          None \<Rightarrow> (None, cs)
        | Some chunk \<Rightarrow>
            let lx = wrapLocal x; lz = wrapLocal z; prev = getBlock chunk lx y lz in
            if prev = blockType then (Some prev, cs)
            else (Some prev, AList.update key (setBlock chunk lx y lz blockType) cs))"

text \<open>
  \<open>checkRS\<close> asks for a debounced signal refresh, which only raises the dirty flag.
\<close>

definition checkRS :: "GameRenderer \<Rightarrow> BlockType \<Rightarrow> GameRenderer" where
  "checkRS g b =
     (if b \<in> set [REDSTONE_DUST, REDSTONE_TORCH, REDSTONE_BLOCK, REDSTONE_LAMP, LEVER, BUTTON,
                   REDSTONE_REPEATER, COMPARATOR, COMMAND_BLOCK, TNT, NOTE_BLOCK]
      then g\<lparr>redstoneDirty := True\<rparr> else g)"

definition shouldBlockFall :: "BlockType \<Rightarrow> bool" where
  "shouldBlockFall blockType \<longleftrightarrow> blockType \<in> set [SAND, GRAVEL, ANVIL]"

text \<open>
  \<open>setBlockAt\<close> and the physics engine's \<open>makeFallingBlock\<close> call each other: a
  gravity-affected block becomes a falling-block entity, and the entity's creation removes
  the block from the world through \<open>setBlockAt\<close> again.
\<close>

function setBlockAt :: "GameRenderer \<Rightarrow> int \<Rightarrow> int \<Rightarrow> int \<Rightarrow> BlockType \<Rightarrow> GameRenderer"
  and makeFallingBlock :: "GameRenderer \<Rightarrow> int \<Rightarrow> int \<Rightarrow> int \<Rightarrow> BlockType \<Rightarrow> GameRenderer"
where
  "setBlockAt g x y z blockType =
     (case setLoadedBlockFast (chunks g) x y z blockType of
        (None, cs) \<Rightarrow> g
      | (Some prev, cs) \<Rightarrow>
          if prev = blockType then g
          else
            let g1 = checkRS (checkRS (g\<lparr>chunks := cs\<rparr>) prev) blockType;
                g2 = (if shouldBlockFall blockType then makeFallingBlock g1 x y z blockType else g1);
                g3 = queueWaterAround g2 x y z;
                g4 = (if blockType = WATER then queueWaterAt g3 x y z else g3)
            in g4\<lparr>blockChanged := blockChanged g4 @ [\<lparr>evx = x, evy = y, evz = z, evtype = blockType\<rparr>]\<rparr>)"
| "makeFallingBlock g x y z blockType =
     setBlockAt
       (g\<lparr>fallingBlocks := fallingBlocks g @
            [\<lparr>fbPosition = (of_int x + 1 / 2, of_int y + 1 / 2, of_int z + 1 / 2),
              fbVelocity = (0, 0, 0), fbBlockType = blockType, fbLifetime = 0\<rparr>]\<rparr>)
       x y z AIR"
  by pat_completeness auto
termination
  by (relation "measure (\<lambda>v. case v of
                   Inl (g, x, y, z, t) \<Rightarrow> (if shouldBlockFall t then 2 else 0)
                 | Inr (g, x, y, z, t) \<Rightarrow> 1)")
     (auto simp add: shouldBlockFall_def AIR_def SAND_def GRAVEL_def ANVIL_def)

declare setBlockAt.simps [simp del] makeFallingBlock.simps [simp del]

text \<open>
  A batch of remote edits. Each event is stored straight into the owning chunk; events for an
  unloaded chunk or outside the vertical range are skipped.
\<close>

definition applyBlockEvent :: "GameRenderer \<Rightarrow> MultiplayerBlockEvent \<Rightarrow> GameRenderer" where
  "applyBlockEvent g ev =
     (let key = chunkKey (evx ev div CHUNK_SIZE) (evz ev div CHUNK_SIZE) in
      case map_of (chunks g) key of
        None \<Rightarrow> g
      | Some chunk \<Rightarrow>
          if evy ev < 0 \<or> evy ev \<ge> CHUNK_HEIGHT then g
          else
            let lx = wrapLocal (evx ev); lz = wrapLocal (evz ev);
                prev = getBlock chunk lx (evy ev) lz;
                nextType = evtype ev;
                g = g\<lparr>chunks := AList.update key (setBlock chunk lx (evy ev) lz nextType) (chunks g)\<rparr>;
                g = checkRS g prev;
                g = checkRS g nextType;
                g = queueWaterAround g (evx ev) (evy ev) (evz ev)
            in if nextType = WATER then queueWaterAt g (evx ev) (evy ev) (evz ev) else g)"

definition applyMultiplayerBlockEvents ::
  "GameRenderer \<Rightarrow> MultiplayerBlockEvent list \<Rightarrow> GameRenderer" where
  "applyMultiplayerBlockEvents g events = foldl applyBlockEvent g events"


section \<open>Destruction: breaking, tree collapse and explosions\<close>

text \<open>
  \<open>collapseTree\<close> floods from a position through logs and leaves. The loop stops when the
  queue is empty or 200 positions have been visited; the positions found are cleared
  afterwards.
\<close>

definition isTreeBlock :: "BlockType \<Rightarrow> bool" where
  "isTreeBlock b \<longleftrightarrow> b = WOOD \<or> b = LOG_BIRCH \<or> b = LEAVES \<or> b = LEAVES_BIRCH"

definition neighbours6 :: "Pos \<Rightarrow> Pos list" where
  "neighbours6 p = (case p of (x, y, z) \<Rightarrow>
     [(x, y + 1, z), (x, y - 1, z), (x + 1, y, z), (x - 1, y, z), (x, y, z + 1), (x, y, z - 1)])"

function collapseScan :: "ChunkMap \<Rightarrow> Pos list \<Rightarrow> Pos list \<Rightarrow> Pos list \<Rightarrow> Pos list" where
  "collapseScan cs queue visited toRemove =
     (if queue \<noteq> [] \<and> length visited < 200 then
        let cur = hd queue; queue = tl queue in
        if cur \<in> set visited then collapseScan cs queue visited toRemove
        else
          let visited = visited @ [cur];
              b = (case cur of (x, y, z) \<Rightarrow> getBlockAtLoaded cs x y z) in
          if isTreeBlock b then collapseScan cs (queue @ neighbours6 cur) visited (toRemove @ [cur])
          else collapseScan cs queue visited toRemove
      else toRemove)"
  by pat_completeness auto
termination
  by (relation "measures [\<lambda>(cs, q, v, r). 200 - length v, \<lambda>(cs, q, v, r). length q]") auto

declare collapseScan.simps [simp del]

definition clearCell :: "ChunkMap \<Rightarrow> Pos \<Rightarrow> ChunkMap" where
  "clearCell cs p = (case p of (x, y, z) \<Rightarrow>
     let key = chunkKey (x div CHUNK_SIZE) (z div CHUNK_SIZE) in
     case map_of cs key of
       None \<Rightarrow> cs
     | Some chunk \<Rightarrow> AList.update key (setBlock chunk (wrapLocal x) y (wrapLocal z) AIR) cs)"

definition collapseTree :: "GameRenderer \<Rightarrow> int \<Rightarrow> int \<Rightarrow> int \<Rightarrow> GameRenderer" where
  "collapseTree g wx wy wz =
     (let toRemove = collapseScan (chunks g) [(wx, wy, wz)] [] []
      in g\<lparr>chunks := foldl clearCell (chunks g) toRemove\<rparr>)"

definition clearBreakState :: "GameRenderer \<Rightarrow> GameRenderer" where
  "clearBreakState g = g\<lparr>activeBreak := None\<rparr>"

definition isBreakingTargetSame :: "GameRenderer \<Rightarrow> int \<Rightarrow> int \<Rightarrow> int \<Rightarrow> BlockType \<Rightarrow> bool" where
  "isBreakingTargetSame g x y z block =
     (case activeBreak g of
        None \<Rightarrow> False
      | Some a \<Rightarrow> abx a = x \<and> aby a = y \<and> abz a = z \<and> abBlock a = block)"

definition finishBreakingBlock ::
  "GameRenderer \<Rightarrow> int \<Rightarrow> int \<Rightarrow> int \<Rightarrow> ChunkData \<Rightarrow> int \<Rightarrow> int \<Rightarrow> BlockType \<Rightarrow> GameRenderer" where
  "finishBreakingBlock g px py pz chunk lx lz existing =
     (let isLog = (existing = WOOD \<or> existing = LOG_BIRCH);
          blockBelow = getBlockAtLoaded (chunks g) px (py - 1) pz;
          blockAbove = getBlockAtLoaded (chunks g) px (py + 1) pz;
          isTreeBase = (isLog \<and> (blockBelow = GRASS \<or> blockBelow = DIRT)
                          \<and> (blockAbove = WOOD \<or> blockAbove = LOG_BIRCH));
          g = g\<lparr>chunks := AList.update (chunkKey (px div CHUNK_SIZE) (pz div CHUNK_SIZE))
                             (setBlock chunk lx py lz AIR) (chunks g)\<rparr>;
          g = checkRS g existing;
          g = g\<lparr>blockChanged := blockChanged g @ [\<lparr>evx = px, evy = py, evz = pz, evtype = AIR\<rparr>]\<rparr>;
          g = (if isTreeBase then collapseTree g px (py + 1) pz else g)
      in clearBreakState g)"

text \<open>
  \<open>breakBlock\<close> acts on the block under the crosshair. The time stamp \<open>now\<close> and the
  per-hit progress \<open>getBreakIncrement\<close> (which depends on the tool and the customisation
  tables) are parameters; the sword's damage to animals touches no block and is left out.
\<close>

definition breakBlock :: "rat \<Rightarrow> (BlockType \<Rightarrow> rat) \<Rightarrow> GameRenderer \<Rightarrow> GameRenderer" where
  "breakBlock now getBreakIncrement g =
     (case crosshairTarget g of
        None \<Rightarrow> g
      | Some (px, py, pz) \<Rightarrow>
          (case map_of (chunks g) (chunkKey (px div CHUNK_SIZE) (pz div CHUNK_SIZE)) of
             None \<Rightarrow> g
           | Some chunk \<Rightarrow>
               let lx = wrapLocal px; lz = wrapLocal pz; existing = getBlock chunk lx py lz in
               if existing = AIR then clearBreakState g
               else if existing = BEDROCK then g
               else if gameMode g = Creative then finishBreakingBlock g px py pz chunk lx lz existing
               else
                 let a = (if \<not> isBreakingTargetSame g px py pz existing
                          then \<lparr>abx = px, aby = py, abz = pz, abBlock = existing,
                                  progress = 0, lastHit = now\<rparr>
                          else (the (activeBreak g))\<lparr>lastHit := now\<rparr>);
                     a = a\<lparr>progress := min 1 (progress a + getBreakIncrement existing), lastHit := now\<rparr>;
                     g = g\<lparr>activeBreak := Some a\<rparr>
                 in if progress a < 1 then g
                    else finishBreakingBlock g px py pz chunk lx lz existing))"

text \<open>
  The TNT explosion visits the offsets of a cube of radius 4 in the order of its three nested
  loops and clears every cell inside the sphere that is neither AIR nor BEDROCK.
\<close>

definition cubeOffsets :: "int \<Rightarrow> (int \<times> int \<times> int) list" where
  "cubeOffsets r = concat (map (\<lambda>dx. concat (map (\<lambda>dy. map (\<lambda>dz. (dx, dy, dz)) [- r..r]) [- r..r])) [- r..r])"

definition explodeCell :: "int \<Rightarrow> int \<Rightarrow> int \<Rightarrow> GameRenderer \<Rightarrow> int \<times> int \<times> int \<Rightarrow> GameRenderer" where
  "explodeCell x y z g d = (case d of (dx, dy, dz) \<Rightarrow>
     if dx * dx + dy * dy + dz * dz > 4 * 4 then g
     else
       let bx = x + dx; by = y + dy; bz = z + dz;
           b = getBlockAtLoaded (chunks g) bx by bz in
       if b \<noteq> AIR \<and> b \<noteq> BEDROCK then
         let key = chunkKey (bx div CHUNK_SIZE) (bz div CHUNK_SIZE) in
         (case map_of (chunks g) key of
            None \<Rightarrow> g
          | Some chunk \<Rightarrow>
              queueWaterAround
                (g\<lparr>chunks := AList.update key (setBlock chunk (wrapLocal bx) by (wrapLocal bz) AIR) (chunks g)\<rparr>)
                bx by bz)
       else g)"

definition explodeTNT :: "GameRenderer \<Rightarrow> int \<Rightarrow> int \<Rightarrow> int \<Rightarrow> GameRenderer" where
  "explodeTNT g x y z = foldl (explodeCell x y z) g (cubeOffsets 4)"

text \<open>
  The physics engine's explosion. Its particles and the items it drops with probability 0.3
  are entities outside this model. The test \<open>sqrt (dx*dx + dy*dy + dz*dz) \<le> power\<close> is written
  without the square root; \<open>pwr\<close> is the explosion's power.
\<close>

definition blastCell :: "int \<Rightarrow> int \<Rightarrow> int \<Rightarrow> rat \<Rightarrow> GameRenderer \<Rightarrow> int \<times> int \<times> int \<Rightarrow> GameRenderer" where
  "blastCell x y z pwr g d = (case d of (dx, dy, dz) \<Rightarrow>
     if 0 \<le> pwr \<and> of_int (dx * dx + dy * dy + dz * dz) \<le> pwr * pwr then
       let bx = x + dx; by = y + dy; bz = z + dz;
           blockType = getBlockAt (chunks g) bx by bz in
       if blockType \<noteq> AIR \<and> blockType \<noteq> BEDROCK then setBlockAt g bx by bz AIR else g
     else g)"

definition createExplosion :: "GameRenderer \<Rightarrow> int \<Rightarrow> int \<Rightarrow> int \<Rightarrow> rat \<Rightarrow> GameRenderer" where
  "createExplosion g x y z pwr = foldl (blastCell x y z pwr) g (cubeOffsets \<lceil>pwr\<rceil>)"

section \<open>Signal propagation\<close>

text \<open>
  A refresh recomputes the power table from scratch: it scans every cell of every loaded chunk
  for sources, seeds them with 15, relaxes breadth-first (at most 5000 dequeues), and then
  updates lamps and edge-triggered blocks. The cells of a chunk are scanned in the order of
  the three nested loops over x, y and z.
\<close>

definition getRedstonePower :: "(Pos \<Rightarrow> nat option) \<Rightarrow> Pos \<Rightarrow> nat" where
  "getRedstonePower pw p = (case pw p of None \<Rightarrow> 0 | Some v \<Rightarrow> v)"

definition setRSPower :: "(Pos \<Rightarrow> nat option) \<Rightarrow> Pos \<Rightarrow> nat \<Rightarrow> (Pos \<Rightarrow> nat option)" where
  "setRSPower pw p v = (if v > 0 then pw(p \<mapsto> v) else pw(p := None))"

definition dirs6 :: "(int \<times> int \<times> int) list" where
  "dirs6 = [(1, 0, 0), (- 1, 0, 0), (0, 0, 1), (0, 0, - 1), (0, 1, 0), (0, - 1, 0)]"

definition chunkCells :: "(int \<times> int \<times> int) list" where
  "chunkCells =
     concat (map (\<lambda>x. concat (map (\<lambda>y. map (\<lambda>z. (x, y, z)) [0..CHUNK_SIZE - 1])
                                    [0..CHUNK_HEIGHT - 1]))
                 [0..CHUNK_SIZE - 1])"

definition scanSourceCell ::
  "(Pos \<Rightarrow> bool option) \<Rightarrow> ChunkData \<Rightarrow> Pos list \<times> (Pos \<Rightarrow> bool option) \<Rightarrow> int \<times> int \<times> int
   \<Rightarrow> Pos list \<times> (Pos \<Rightarrow> bool option)" where
  "scanSourceCell oldActive chunk st c = (case st of (sources, active) \<Rightarrow> (case c of (x, y, z) \<Rightarrow>
     let b = getBlock chunk x y z;
         wx = cx chunk * CHUNK_SIZE + x;
         wz = cz chunk * CHUNK_SIZE + z in
     if b = REDSTONE_BLOCK \<or> b = REDSTONE_TORCH then (sources @ [(wx, y, wz)], active)
     else if b = LEVER \<or> b = BUTTON then
       (if oldActive (wx, y, wz) = Some True
        then (sources @ [(wx, y, wz)], active((wx, y, wz) \<mapsto> True))
        else st)
     else st))"

definition scanSources ::
  "ChunkMap \<Rightarrow> (Pos \<Rightarrow> bool option) \<Rightarrow> Pos list \<times> (Pos \<Rightarrow> bool option)" where
  "scanSources cs oldActive =
     foldl (\<lambda>st kc. foldl (scanSourceCell oldActive (snd kc)) st chunkCells) ([], Map.empty) cs"

definition relax ::
  "ChunkMap \<Rightarrow> Pos \<Rightarrow> nat \<Rightarrow> (Pos \<Rightarrow> nat option) \<times> Pos list \<Rightarrow> int \<times> int \<times> int
   \<Rightarrow> (Pos \<Rightarrow> nat option) \<times> Pos list" where
  "relax cs cur cp st d = (case st of (pw, queue) \<Rightarrow> (case cur of (x, y, z) \<Rightarrow> (case d of (d0, d1, d2) \<Rightarrow>
     let nx = x + d0; ny = y + d1; nz = z + d2;
         nb = getBlockAtLoaded cs nx ny nz;
         st1 = (if nb = REDSTONE_DUST \<and> cp - 1 > getRedstonePower pw (nx, ny, nz)
                then (setRSPower pw (nx, ny, nz) (cp - 1), queue @ [(nx, ny, nz)])
                else (pw, queue))
     in if nb = REDSTONE_REPEATER \<and> 15 > getRedstonePower (fst st1) (nx, ny, nz)
        then (setRSPower (fst st1) (nx, ny, nz) 15, snd st1 @ [(nx, ny, nz)])
        else st1)))"

text \<open>
  The relaxation loop, with its iteration counter. It returns the power table and the number
  of iterations it ran.
\<close>

function rsLoop ::
  "ChunkMap \<Rightarrow> (Pos \<Rightarrow> nat option) \<Rightarrow> Pos list \<Rightarrow> nat \<Rightarrow> (Pos \<Rightarrow> nat option) \<times> nat" where
  "rsLoop cs pw queue iter =
     (if queue \<noteq> [] \<and> iter < 5000 then
        let iter = iter + 1; cur = hd queue; queue = tl queue;
            cp = getRedstonePower pw cur in
        if cp \<le> 1 then rsLoop cs pw queue iter
        else (case foldl (relax cs cur cp) (pw, queue) dirs6 of
                (pw, queue) \<Rightarrow> rsLoop cs pw queue iter)
      else (pw, iter))"
  by pat_completeness auto
termination
  by (relation "measure (\<lambda>(cs, pw, queue, iter). 5000 - iter)") auto

declare rsLoop.simps [simp del]

definition neighbourPowered :: "(Pos \<Rightarrow> nat option) \<Rightarrow> Pos \<Rightarrow> bool" where
  "neighbourPowered pw p = (case p of (x, y, z) \<Rightarrow>
     \<exists>d \<in> set dirs6. getRedstonePower pw (x + fst d, y + fst (snd d), z + snd (snd d)) > 0)"

definition lampCell ::
  "(Pos \<Rightarrow> nat option) \<Rightarrow> ChunkData \<Rightarrow> (Pos \<Rightarrow> bool option) \<Rightarrow> int \<times> int \<times> int \<Rightarrow> (Pos \<Rightarrow> bool option)" where
  "lampCell pw chunk active c = (case c of (x, y, z) \<Rightarrow>
     let w = (cx chunk * CHUNK_SIZE + x, y, cz chunk * CHUNK_SIZE + z) in
     if getBlock chunk x y z = REDSTONE_LAMP \<and> neighbourPowered pw w then active(w \<mapsto> True)
     else active)"

text \<open>
  The edge-triggered blocks. A TNT block explodes inside the scan, so the scan reads each
  chunk as the explosions so far have left it.
\<close>

definition triggerCell ::
  "int \<times> int \<Rightarrow> GameRenderer \<times> (Pos \<Rightarrow> bool option) \<Rightarrow> int \<times> int \<times> int
   \<Rightarrow> GameRenderer \<times> (Pos \<Rightarrow> bool option)" where
  "triggerCell key st c = (case st of (g, nextPoweredState) \<Rightarrow> (case c of (x, y, z) \<Rightarrow>
     (case map_of (chunks g) key of
        None \<Rightarrow> st
      | Some chunk \<Rightarrow>
          let b = getBlock chunk x y z in
          if b \<noteq> COMMAND_BLOCK \<and> b \<noteq> TNT \<and> b \<noteq> NOTE_BLOCK then st
          else
            let wx = cx chunk * CHUNK_SIZE + x; wz = cz chunk * CHUNK_SIZE + z;
                powered = neighbourPowered (redstonePower g) (wx, y, wz);
                wasPowered = (rsPoweredState g (wx, y, wz) = Some True);
                g = (if powered \<and> \<not> wasPowered then
                       (if b = COMMAND_BLOCK
                        then g\<lparr>commandBlocksFired := commandBlocksFired g @ [(wx, y, wz)]\<rparr>
                        else if b = TNT then explodeTNT g wx y wz
                        else g)
                     else g)
            in (g, nextPoweredState((wx, y, wz) \<mapsto> powered)))))"

definition updateRedstone :: "GameRenderer \<Rightarrow> GameRenderer" where
  "updateRedstone g =
     (let oldActive = redstoneActive g;
          (sources, active) = scanSources (chunks g) oldActive;
          pw0 = foldl (\<lambda>pw s. setRSPower pw s 15) Map.empty sources;
          pw = fst (rsLoop (chunks g) pw0 sources 0);
          active = foldl (\<lambda>a kc. foldl (lampCell pw (snd kc)) a chunkCells) active (chunks g);
          g = g\<lparr>redstonePower := pw, redstoneActive := active\<rparr>;
          (g, nextPoweredState) =
             foldl (\<lambda>st key. foldl (triggerCell key) st chunkCells) (g, Map.empty) (map fst (chunks g))
      in g\<lparr>rsPoweredState := nextPoweredState\<rparr>)"

definition redstoneIterations :: "GameRenderer \<Rightarrow> nat" where
  "redstoneIterations g =
     (let sources = fst (scanSources (chunks g) (redstoneActive g));
          pw0 = foldl (\<lambda>pw s. setRSPower pw s 15) Map.empty sources
      in snd (rsLoop (chunks g) pw0 sources 0))"

text \<open>
  The vocabulary for a straight dust line: the block at a position, the k-th position from
  \<open>s\<close> in direction \<open>d\<close>, and the blocks that emit or conduct a signal.
\<close>

definition blockAtPos :: "ChunkMap \<Rightarrow> Pos \<Rightarrow> BlockType" where
  "blockAtPos cs p = (case p of (x, y, z) \<Rightarrow> getBlockAtLoaded cs x y z)"

definition linePos :: "Pos \<Rightarrow> int \<times> int \<times> int \<Rightarrow> nat \<Rightarrow> Pos" where
  "linePos s d k = (case s of (x, y, z) \<Rightarrow> (case d of (d0, d1, d2) \<Rightarrow>
     (x + int k * d0, y + int k * d1, z + int k * d2)))"

definition signalBlocks :: "BlockType set" where
  "signalBlocks = {REDSTONE_BLOCK, REDSTONE_TORCH, LEVER, BUTTON, REDSTONE_DUST, REDSTONE_REPEATER}"

text \<open>
  For the source scan: the world position of a chunk-local cell, the block a chunk holds at a
  local cell, and the blocks the scan treats as possible sources.
\<close>

definition toWorld :: "ChunkData \<Rightarrow> int \<times> int \<times> int \<Rightarrow> Pos" where
  "toWorld c cell = (case cell of (x, y, z) \<Rightarrow> (cx c * CHUNK_SIZE + x, y, cz c * CHUNK_SIZE + z))"

definition cellBlock :: "ChunkData \<Rightarrow> int \<times> int \<times> int \<Rightarrow> BlockType" where
  "cellBlock c cell = (case cell of (x, y, z) \<Rightarrow> getBlock c x y z)"

definition emitters :: "BlockType set" where
  "emitters = {REDSTONE_BLOCK, REDSTONE_TORCH, LEVER, BUTTON}"

text \<open>The power table along a dust line once the signal has reached its k-th cell.\<close>

primrec linePower :: "Pos \<Rightarrow> int \<times> int \<times> int \<Rightarrow> nat \<Rightarrow> (Pos \<Rightarrow> nat option)" where
  "linePower s d 0 = [linePos s d 0 \<mapsto> 15]"
| "linePower s d (Suc k) = (linePower s d k)(linePos s d (Suc k) \<mapsto> 14 - k)"

section \<open>Player collision\<close>

definition DECORATIVE_BLOCKS :: "BlockType set" where
  "DECORATIVE_BLOCKS =
     {FLOWER_RED, FLOWER_YELLOW, TALL_GRASS, MUSHROOM_RED, MUSHROOM_BROWN, TORCH, REDSTONE_DUST,
      REDSTONE_TORCH, LEVER, BUTTON, FERN, SUGAR_CANE, SUNFLOWER, ROSE_BUSH, LILAC, LILY_PAD}"

definition isCollidable :: "BlockType \<Rightarrow> bool" where
  "isCollidable b \<longleftrightarrow> b \<noteq> AIR \<and> b \<notin> DECORATIVE_BLOCKS \<and> b \<noteq> WATER"

definition isBlockSolid :: "ChunkMap \<Rightarrow> int \<Rightarrow> int \<Rightarrow> int \<Rightarrow> bool" where
  "isBlockSolid cs wx wy wz = isCollidable (getBlockAt cs wx wy wz)"

datatype Axis = AxisX | AxisY | AxisZ

text \<open>
  \<open>collideAxis\<close> moves the player's box along one axis by \<open>velocity * dt\<close>. It visits the
  integer cells that the box overlaps at the candidate position, in the order of its three
  nested loops, and reacts to the first solid one; without a solid cell the candidate
  position is taken. The result carries the boolean the source returns.

  Positions, velocities and the frame time are exact rationals here, where the source
  computes in double-precision floating point. The two agree on every value that is a
  dyadic fraction of moderate size, such as the heights and vertical velocities of a fall
  sampled at 16 frames per second; they can select different columns when a horizontal
  coordinate minus the half width lies within rounding of an integer. The results about this
  model are stated so that they do not depend on which column is selected there.
\<close>

definition overlappedCells :: "rat \<times> rat \<times> rat \<Rightarrow> (int \<times> int \<times> int) list" where
  "overlappedCells tp = (case tp of (tx, ty, tz) \<Rightarrow>
     let hw = PLAYER_WIDTH / 2;
         mnX = tx - hw; mxX = tx + hw - 1 / 1000;
         mnY = ty; mxY = ty + PLAYER_HEIGHT - 1 / 1000;
         mnZ = tz - hw; mxZ = tz + hw - 1 / 1000
     in concat (map (\<lambda>bx. concat (map (\<lambda>by. map (\<lambda>bz. (bx, by, bz)) [\<lfloor>mnZ\<rfloor>..\<lfloor>mxZ\<rfloor>])
                                        [\<lfloor>mnY\<rfloor>..\<lfloor>mxY\<rfloor>]))
                    [\<lfloor>mnX\<rfloor>..\<lfloor>mxX\<rfloor>]))"

definition collideAxis :: "ChunkMap \<Rightarrow> PlayerBody \<Rightarrow> Axis \<Rightarrow> rat \<Rightarrow> PlayerBody \<times> bool" where
  "collideAxis cs p axis dt =
     (case playerPos p of (px, py, pz) \<Rightarrow> (case playerVelocity p of (vx, vy, vz) \<Rightarrow>
        let hw = PLAYER_WIDTH / 2;
            tp = (case axis of
                    AxisX \<Rightarrow> (px + vx * dt, py, pz)
                  | AxisY \<Rightarrow> (px, py + vy * dt, pz)
                  | AxisZ \<Rightarrow> (px, py, pz + vz * dt))
        in (case find (\<lambda>c. case c of (bx, by, bz) \<Rightarrow> isBlockSolid cs bx by bz) (overlappedCells tp) of
              None \<Rightarrow> (p\<lparr>playerPos := tp\<rparr>, False)
            | Some (bx, by, bz) \<Rightarrow>
                (case axis of
                   AxisY \<Rightarrow>
                     (if vy < 0
                      then p\<lparr>playerPos := (px, of_int by + 1, pz), playerVelocity := (vx, 0, vz),
                             onGround := True\<rparr>
                      else p\<lparr>playerPos := (px, of_int by - PLAYER_HEIGHT, pz),
                             playerVelocity := (vx, 0, vz)\<rparr>)
                 | AxisX \<Rightarrow>
                     p\<lparr>playerPos := ((if vx > 0 then of_int bx - hw else of_int bx + 1 + hw), py, pz),
                       playerVelocity := (0, vy, vz)\<rparr>
                 | AxisZ \<Rightarrow>
                     p\<lparr>playerPos := (px, py, (if vz > 0 then of_int bz - hw else of_int bz + 1 + hw)),
                       playerVelocity := (vx, vy, 0)\<rparr>,
                 True))))"

text \<open>
  The player-movement part of \<open>update\<close>. \<open>mv\<close> is the movement vector that the input and the
  view direction give, after the scaling of the branch: a displacement when flying, a
  horizontal velocity on foot. On foot the three axes are resolved in the order Y, X, Z.
\<close>

definition updatePlayer :: "GameRenderer \<Rightarrow> rat \<times> rat \<times> rat \<Rightarrow> rat \<Rightarrow> GameRenderer" where
  "updatePlayer g mv dt = (case mv of (mx, my, mz) \<Rightarrow>
     let p = player g in
     if gameMode g = Creative then
       (case playerPos p of (px, py, pz) \<Rightarrow>
          g\<lparr>player := p\<lparr>playerPos := (px + mx, max 1 (min (of_int CHUNK_HEIGHT + 30) (py + my)), pz + mz)\<rparr>\<rparr>)
     else
       (case playerVelocity p of (vx, vy, vz) \<Rightarrow>
          let p = p\<lparr>playerVelocity := (mx, vy - GRAVITY * dt, mz)\<rparr>;
              p = (if jumping p \<and> onGround p
                   then p\<lparr>playerVelocity := (mx, JUMP_FORCE, mz), onGround := False\<rparr> else p);
              p = p\<lparr>onGround := False\<rparr>;
              p = fst (collideAxis (chunks g) p AxisY dt);
              p = fst (collideAxis (chunks g) p AxisX dt);
              p = fst (collideAxis (chunks g) p AxisZ dt);
              p = (if onGround p then
                     (let fall = lastGroundY p - fst (snd (playerPos p));
                          p = (if wasFalling p \<and> fall > 3
                               then p\<lparr>health := max 0 (health p - \<lfloor>fall - 3\<rfloor>)\<rparr> else p)
                      in p\<lparr>lastGroundY := fst (snd (playerPos p)), wasFalling := False\<rparr>)
                   else p\<lparr>wasFalling := True\<rparr>)
          in (case playerPos p of (px, py, pz) \<Rightarrow> g\<lparr>player := p\<lparr>playerPos := (px, max 0 py, pz)\<rparr>\<rparr>)))"

section \<open>Fluid flow\<close>










text \<open>
  \<open>pour\<close> is the store of WATER that the automaton performs through
  \<open>setLoadedBlockFast\<close>; \<open>wf_loaded\<close> is the part of the chunk-table invariant that reads need.
\<close>

definition pour :: "ChunkMap \<Rightarrow> Pos \<Rightarrow> ChunkMap" where
  "pour cs p = (case p of (x, y, z) \<Rightarrow> snd (setLoadedBlockFast cs x y z WATER))"


text \<open>A chunk whose bottom layer is BEDROCK under solid STONE.\<close>

definition bedrockFloor :: ChunkData where
  "bedrockFloor = \<lparr>blocks = replicate 256 BEDROCK @ replicate 20224 STONE, cx = 0, cz = 0\<rparr>"

text \<open>A chunk whose bottom layer is solid STONE under open air.\<close>

definition stoneFloor :: ChunkData where
  "stoneFloor = \<lparr>blocks = replicate 256 STONE @ replicate 20224 AIR, cx = 0, cz = 0\<rparr>"



text \<open>
  A world with a dust line: a REDSTONE_BLOCK at the origin of chunk (0,0), REDSTONE_DUST on the
  fifteen cells east of it, and a sixteenth dust cell in the first cell of chunk (1,0).
\<close>

definition dustLineChunk :: ChunkData where
  "dustLineChunk =
     \<lparr>blocks = map (\<lambda>i. if i = 0 then REDSTONE_BLOCK else if i \<le> 15 then REDSTONE_DUST else AIR)
                   [0..<20480],
      cx = 0, cz = 0\<rparr>"

definition dustTailChunk :: ChunkData where
  "dustTailChunk =
     \<lparr>blocks = map (\<lambda>i. if i = 0 then REDSTONE_DUST else AIR) [0..<20480], cx = 1, cz = 0\<rparr>"

definition dustLineWorld :: GameRenderer where
  "dustLineWorld = newGameRenderer\<lparr>chunks := [((0, 0), dustLineChunk), ((1, 0), dustTailChunk)]\<rparr>"

text \<open>
  The chunk a flat world generates at every coordinate: BEDROCK at the bottom, STONE up to
  y = 25, DIRT up to y = 29 and GRASS at y = 30, whose top face is at height 31. A player in
  survival mode hangs at rest above it, 9.5 blocks over the surface.
\<close>

definition flatChunk :: ChunkData where
  "flatChunk =
     \<lparr>blocks = replicate 256 BEDROCK @ replicate 6400 STONE @ replicate 1024 DIRT
                @ replicate 256 GRASS @ replicate 12544 AIR,
      cx = 0, cz = 0\<rparr>"

definition dropWorld :: GameRenderer where
  "dropWorld =
     newGameRenderer\<lparr>chunks := [((0, 0), flatChunk)], gameMode := Survival,
                      player := (player newGameRenderer)\<lparr>playerPos := (17 / 2, 81 / 2, 17 / 2)\<rparr>\<rparr>"

text \<open>
  One frame of \<open>update\<close> without any input, at 16 frames per second: the frame time
  \<open>dt = 1 / 16\<close> is below the \<open>0.1\<close> at which the render loop caps it.
\<close>

definition idleFrame :: "GameRenderer \<Rightarrow> GameRenderer" where
  "idleFrame g = updatePlayer g (0, 0, 0) (1 / 16)"

definition dropFrames :: "nat \<Rightarrow> GameRenderer" where
  "dropFrames n = (idleFrame ^^ n) dropWorld"

section \<open>Seeded noise\<close>

unbundle bit_operations_syntax

text \<open>
  The constructor of \<open>SimplexNoise\<close> shuffles the array \<open>p = [0, ..., 255]\<close> with a
  multiplicative congruential generator and stores \<open>p[i & 255]\<close> for \<open>i\<close> from 0 to 511 in
  \<open>perm\<close>. With a negative seed the index \<open>j\<close> of a swap is negative: reading \<open>p[j]\<close> then
  gives \<open>undefined\<close> and writing it creates a property that leaves the array elements alone.
  The array is therefore a table from integer keys to values, \<open>None\<close> standing for
  \<open>undefined\<close>. The products of the generator stay below \<open>2^53\<close> for a seed of 32 bits, so
  the arithmetic of the shuffle is exact.
\<close>

type_synonym JSArray = "(int \<times> int option) list"

definition elemAt :: "JSArray \<Rightarrow> int \<Rightarrow> int option" where
  "elemAt p i = (case map_of p i of None \<Rightarrow> None | Some v \<Rightarrow> v)"

definition shuffleStep :: "int \<times> JSArray \<Rightarrow> int \<Rightarrow> int \<times> JSArray" where
  "shuffleStep st i = (case st of (s, p) \<Rightarrow>
     let s = (s * 16807 + 0) smod 2147483647;
         j = s smod (i + 1)
     in (s, AList.update j (elemAt p i) (AList.update i (elemAt p j) p)))"

type_synonym SimplexNoise = "int option list"

definition newSimplexNoise :: "int \<Rightarrow> SimplexNoise" where
  "newSimplexNoise sd =
     (let p = map (\<lambda>i. (i, Some i)) [0..255];
          p = snd (foldl shuffleStep (sd, p) (rev [1..255]))
      in map (\<lambda>i. elemAt p (i AND 255)) [0..511])"

text \<open>
  Noise values are JavaScript numbers; they are exact rationals here. An index into \<open>perm\<close>
  that was computed from \<open>undefined\<close> is \<open>NaN\<close> (\<open>None\<close>), reads \<open>undefined\<close>, and
  \<open>undefined & 3\<close> is 0.
\<close>

definition permAt :: "SimplexNoise \<Rightarrow> int option \<Rightarrow> int option" where
  "permAt p a = (case a of None \<Rightarrow> None
                 | Some k \<Rightarrow> if 0 \<le> k \<and> k < int (length p) then p ! nat k else None)"

definition fade :: "rat \<Rightarrow> rat" where
  "fade t = t * t * t * (t * (t * 6 - 15) + 10)"

definition lerp :: "rat \<Rightarrow> rat \<Rightarrow> rat \<Rightarrow> rat" where
  "lerp a b t = a + t * (b - a)"

definition grad :: "int option \<Rightarrow> rat \<Rightarrow> rat \<Rightarrow> rat" where
  "grad hash x y =
     (let h = (case hash of None \<Rightarrow> 0 | Some k \<Rightarrow> k) AND 3;
          u = (if h < 2 then x else y);
          v = (if h < 2 then y else x)
      in (if h AND 1 = 0 then u else - u) + (if h AND 2 = 0 then v else - v))"

definition noise2D :: "SimplexNoise \<Rightarrow> rat \<Rightarrow> rat \<Rightarrow> rat" where
  "noise2D p x y =
     (let X = \<lfloor>x\<rfloor> AND 255;
          Y = \<lfloor>y\<rfloor> AND 255;
          x = x - of_int \<lfloor>x\<rfloor>;
          y = y - of_int \<lfloor>y\<rfloor>;
          u = fade x;
          v = fade y;
          a = map_option (\<lambda>k. k + Y) (permAt p (Some X));
          b = map_option (\<lambda>k. k + Y) (permAt p (Some (X + 1)))
      in lerp (lerp (grad (permAt p a) x y) (grad (permAt p b) (x - 1) y) u)
              (lerp (grad (permAt p (map_option (\<lambda>k. k + 1) a)) x (y - 1))
                    (grad (permAt p (map_option (\<lambda>k. k + 1) b)) (x - 1) (y - 1)) u)
              v)"

fun fbmLoop ::
  "SimplexNoise \<Rightarrow> rat \<Rightarrow> rat \<Rightarrow> rat \<Rightarrow> rat \<Rightarrow> nat \<Rightarrow> rat \<times> rat \<times> rat \<times> rat
   \<Rightarrow> rat \<times> rat \<times> rat \<times> rat" where
  "fbmLoop p x y lacunarity gain 0 st = st"
| "fbmLoop p x y lacunarity gain (Suc n) (acc, amp, freq, mx) =
     fbmLoop p x y lacunarity gain n
       (acc + noise2D p (x * freq) (y * freq) * amp, amp * gain, freq * lacunarity, mx + amp)"

definition fbm :: "SimplexNoise \<Rightarrow> rat \<Rightarrow> rat \<Rightarrow> nat \<Rightarrow> rat \<Rightarrow> rat \<Rightarrow> rat" where
  "fbm p x y octaves lacunarity gain =
     (case fbmLoop p x y lacunarity gain octaves (0, 1, 1, 0) of (acc, amp, freq, mx) \<Rightarrow> acc / mx)"


section \<open>World generation\<close>

text \<open>
  The generator's module state: the configuration and the seven noise instances. A seed
  that is not finite is replaced by 12345 and a fractional one by its floor before it gets
  here, so the seed is an integer.
\<close>

datatype WorldType = Normal | Flat

record WorldGenConfig =
  seed :: int
  worldType :: WorldType

record WorldGen =
  worldGenConfig :: WorldGenConfig
  noise :: SimplexNoise
  treeNoise :: SimplexNoise
  flowerNoise :: SimplexNoise
  biomeNoise :: SimplexNoise
  houseNoise :: SimplexNoise
  plantNoise :: SimplexNoise
  caveNoise :: SimplexNoise

definition initialWorldGen :: WorldGen where
  "initialWorldGen =
     \<lparr>worldGenConfig = \<lparr>seed = 12345, worldType = Normal\<rparr>,
      noise = newSimplexNoise 12345, treeNoise = newSimplexNoise 67890,
      flowerNoise = newSimplexNoise 11111, biomeNoise = newSimplexNoise 22222,
      houseNoise = newSimplexNoise 33333, plantNoise = newSimplexNoise 44444,
      caveNoise = newSimplexNoise 55555\<rparr>"

definition configureWorldGeneration :: "WorldGenConfig \<Rightarrow> WorldGen" where
  "configureWorldGeneration config =
     (let base = (if seed config = 0 then 12345 else seed config)
      in \<lparr>worldGenConfig = config,
          noise = newSimplexNoise (base + 11), treeNoise = newSimplexNoise (base + 29),
          flowerNoise = newSimplexNoise (base + 47), biomeNoise = newSimplexNoise (base + 71),
          houseNoise = newSimplexNoise (base + 89), plantNoise = newSimplexNoise (base + 113),
          caveNoise = newSimplexNoise (base + 137)\<rparr>)"

definition biomeAt :: "WorldGen \<Rightarrow> int \<Rightarrow> int \<Rightarrow> rat" where
  "biomeAt gen worldX worldZ =
     fbm (biomeNoise gen) (of_int worldX * (3 / 1000)) (of_int worldZ * (3 / 1000)) 3 2 (1 / 2)"

definition getTerrainHeight :: "WorldGen \<Rightarrow> int \<Rightarrow> int \<Rightarrow> int" where
  "getTerrainHeight gen worldX worldZ =
     (if worldType (worldGenConfig gen) = Flat then max (BEDROCK_LEVEL + 4) (WATER_LEVEL + 2)
      else
        let scale = 8 / 1000;
            detailScale = 3 / 100;
            microScale = 8 / 100;
            base = fbm (noise gen) (of_int worldX * scale) (of_int worldZ * scale) 6 2 (1 / 2);
            detail = fbm (noise gen) (of_int worldX * detailScale) (of_int worldZ * detailScale) 3 2 (1 / 2);
            micro = noise2D (noise gen) (of_int worldX * microScale) (of_int worldZ * microScale);
            biome = biomeAt gen worldX worldZ;
            height = (if biome > 2 / 10 then of_int SEA_LEVEL + base * 20 + detail * 8 + micro * 2
                      else if biome > - (1 / 10) then of_int SEA_LEVEL + base * 10 + detail * 4 + micro
                      else of_int SEA_LEVEL + base * 5 + detail * 2 + micro * (1 / 2))
        in \<lfloor>max (of_int (BEDROCK_LEVEL + 3)) (min (of_int (CHUNK_HEIGHT - 2)) height)\<rfloor>)"

text \<open>
  \<open>Math.random\<close> is the one input of the generator that is neither an argument nor part of the
  module state. A run of the generator is given the sequence \<open>rnd\<close> of the values that
  \<open>Math.random\<close> returns to it, and every function that draws from it threads the number \<open>k\<close>
  of values drawn so far.
\<close>

definition leafPut :: "ChunkData \<Rightarrow> int \<Rightarrow> int \<Rightarrow> int \<Rightarrow> BlockType \<Rightarrow> ChunkData" where
  "leafPut chunk lx y lz leaf =
     (if lx \<ge> 0 \<and> lx < CHUNK_SIZE \<and> lz \<ge> 0 \<and> lz < CHUNK_SIZE \<and> y < CHUNK_HEIGHT
      then (if getBlock chunk lx y lz = AIR then setBlock chunk lx y lz leaf else chunk)
      else chunk)"

definition leafCell ::
  "(nat \<Rightarrow> rat) \<Rightarrow> rat \<Rightarrow> BlockType \<Rightarrow> int \<Rightarrow> int \<Rightarrow> int \<Rightarrow> int \<Rightarrow> int \<Rightarrow> int
   \<Rightarrow> ChunkData \<times> nat \<Rightarrow> int \<Rightarrow> ChunkData \<times> nat" where
  "leafCell rnd skip leaf tx tz leafEnd y radius dx st dz = (case st of (chunk, k) \<Rightarrow>
     if dx = 0 \<and> dz = 0 \<and> y < leafEnd then st
     else if \<bar>dx\<bar> = radius \<and> \<bar>dz\<bar> = radius
     then (if rnd k > skip then (chunk, k + 1)
           else (leafPut chunk (tx + dx) y (tz + dz) leaf, k + 1))
     else (leafPut chunk (tx + dx) y (tz + dz) leaf, k))"

definition leafLayer ::
  "(nat \<Rightarrow> rat) \<Rightarrow> rat \<Rightarrow> BlockType \<Rightarrow> int \<Rightarrow> int \<Rightarrow> int \<Rightarrow> int \<Rightarrow> ChunkData \<times> nat \<Rightarrow> int
   \<Rightarrow> ChunkData \<times> nat" where
  "leafLayer rnd skip leaf tx tz leafEnd wide st y =
     (let radius = (if y < wide then 2 else 1)
      in foldl (\<lambda>st dx. foldl (leafCell rnd skip leaf tx tz leafEnd y radius dx) st [- radius..radius])
           st [- radius..radius])"

definition placeBirchTree ::
  "(nat \<Rightarrow> rat) \<Rightarrow> ChunkData \<times> nat \<Rightarrow> int \<Rightarrow> int \<Rightarrow> int \<Rightarrow> ChunkData \<times> nat" where
  "placeBirchTree rnd st tx ty tz = (case st of (chunk, k) \<Rightarrow>
     let trunkHeight = 5 + \<lfloor>rnd k * 2\<rfloor>;
         chunk = foldl (\<lambda>c y. setBlock c tx (ty + y) tz LOG_BIRCH) chunk [0..trunkHeight - 1];
         leafStart = ty + trunkHeight - 2;
         leafEnd = ty + trunkHeight + 1
     in foldl (leafLayer rnd (4 / 10) LEAVES_BIRCH tx tz leafEnd leafEnd) (chunk, k + 1)
          [leafStart..leafEnd])"

definition placeTree ::
  "(nat \<Rightarrow> rat) \<Rightarrow> ChunkData \<times> nat \<Rightarrow> int \<Rightarrow> int \<Rightarrow> int \<Rightarrow> ChunkData \<times> nat" where
  "placeTree rnd st tx ty tz = (case st of (chunk, k) \<Rightarrow>
     let trunkHeight = 4 + \<lfloor>rnd k * 3\<rfloor>;
         chunk = foldl (\<lambda>c y. setBlock c tx (ty + y) tz WOOD) chunk [0..trunkHeight - 1];
         leafStart = ty + trunkHeight - 2;
         leafEnd = ty + trunkHeight + 2
     in foldl (leafLayer rnd (5 / 10) LEAVES tx tz leafEnd (leafEnd - 1)) (chunk, k + 1)
          [leafStart..leafEnd])"

definition wallCell :: "int \<Rightarrow> int \<Rightarrow> int \<Rightarrow> int \<Rightarrow> int \<Rightarrow> int \<Rightarrow> int \<Rightarrow> ChunkData \<Rightarrow> int \<Rightarrow> ChunkData" where
  "wallCell hx hy hz w d y x chunk z =
     (let isWall = (x = 0 \<or> x = w - 1 \<or> z = 0 \<or> z = d - 1) in
      if isWall then
        (let isWindow = (y = 2 \<and> ((x = 0 \<and> z = 2) \<or> (x = 0 \<and> z = 3)
                                   \<or> (x = w - 1 \<and> z = 2) \<or> (x = w - 1 \<and> z = 3)));
             isDoor = (z = 0 \<and> x = 2 \<and> (y = 1 \<or> y = 2))
         in if isDoor then chunk
            else if isWindow then setBlock chunk (hx + x) (hy + y) (hz + z) GLASS
            else setBlock chunk (hx + x) (hy + y) (hz + z) (if y \<le> 1 then COBBLESTONE else PLANKS))
      else chunk)"

definition roofCell :: "int \<Rightarrow> int \<Rightarrow> int \<Rightarrow> BlockType \<Rightarrow> int \<Rightarrow> ChunkData \<Rightarrow> int \<Rightarrow> ChunkData" where
  "roofCell hx ry hz block z chunk x =
     (let rx = hx + x; rz = hz + z in
      if rx < 0 \<or> rx \<ge> CHUNK_SIZE \<or> rz < 0 \<or> rz \<ge> CHUNK_SIZE then chunk
      else setBlock chunk rx ry rz block)"

definition placeHouse :: "ChunkData \<Rightarrow> int \<Rightarrow> int \<Rightarrow> int \<Rightarrow> ChunkData" where
  "placeHouse chunk hx hy hz =
     (let w = 5; d = 6; h = 4 in
      if hx + w \<ge> CHUNK_SIZE \<or> hz + d \<ge> CHUNK_SIZE \<or> hx < 1 \<or> hz < 1 then chunk
      else
        let chunk = foldl (\<lambda>c x. foldl (\<lambda>c z. setBlock c (hx + x) hy (hz + z) PLANKS) c [0..d - 1])
                      chunk [0..w - 1];
            chunk = foldl (\<lambda>c y. foldl (\<lambda>c x. foldl (wallCell hx hy hz w d y x) c [0..d - 1]) c [0..w - 1])
                      chunk [1..h];
            chunk = foldl (\<lambda>c z. foldl (roofCell hx (hy + h + 1) hz PLANKS z) c [- 1..w]) chunk [- 1..d];
            chunk = foldl (\<lambda>c z. foldl (roofCell hx (hy + h + 2) hz BRICK z) c [1..w - 2]) chunk [0..d - 1];
            chunk = setBlock chunk (hx + 2) (hy + 3) (hz + 3) TORCH;
            chunk = setBlock chunk (hx + 1) (hy + 1) (hz + d - 2) CRAFTING_TABLE;
            chunk = setBlock chunk (hx + 3) (hy + 1) (hz + d - 2) FURNACE
        in chunk)"

definition caveValueAt :: "WorldGen \<Rightarrow> int \<Rightarrow> int \<Rightarrow> int \<Rightarrow> rat" where
  "caveValueAt gen worldX worldZ y =
     (let shapeA = noise2D (caveNoise gen) (of_int worldX * (55 / 1000) + of_int y * (11 / 100))
                     (of_int worldZ * (55 / 1000) - of_int y * (9 / 100));
          shapeB = noise2D (caveNoise gen) (of_int worldX * (95 / 1000) - of_int y * (7 / 100))
                     (of_int worldZ * (95 / 1000) + of_int y * (6 / 100));
          tunnels = noise2D (caveNoise gen) (of_int worldX * (18 / 100) + 300)
                      (of_int worldZ * (18 / 100) + of_int y * (14 / 100))
      in shapeA * (58 / 100) + shapeB * (32 / 100) + tunnels * (1 / 10))"

definition caveCell ::
  "WorldGen \<Rightarrow> int \<Rightarrow> int \<Rightarrow> int \<Rightarrow> int \<Rightarrow> int \<Rightarrow> ChunkData \<Rightarrow> int \<Rightarrow> ChunkData" where
  "caveCell gen worldX worldZ caveTop x z chunk y =
     (let block = getBlock chunk x y z in
      if block \<noteq> STONE \<and> block \<noteq> DIRT \<and> block \<noteq> GRAVEL \<and> block \<noteq> CLAY then chunk
      else
        let caveValue = caveValueAt gen worldX worldZ y
        in if caveValue > 34 / 100 \<and> y < WATER_LEVEL - 1 then
             (let chunk = setBlock chunk x y z AIR;
                  chunk = (if caveValue > 44 / 100 \<and> y + 1 < caveTop
                           then setBlock chunk x (y + 1) z AIR else chunk);
                  chunk = (if caveValue > 48 / 100 \<and> y - 1 > BEDROCK_LEVEL + 1
                           then setBlock chunk x (y - 1) z AIR else chunk);
                  chunk = (if caveValue > 52 / 100 \<and> x + 1 < CHUNK_SIZE
                           then setBlock chunk (x + 1) y z AIR else chunk);
                  chunk = (if caveValue > 52 / 100 \<and> x - 1 \<ge> 0
                           then setBlock chunk (x - 1) y z AIR else chunk);
                  chunk = (if caveValue > 52 / 100 \<and> z + 1 < CHUNK_SIZE
                           then setBlock chunk x y (z + 1) AIR else chunk);
                  chunk = (if caveValue > 52 / 100 \<and> z - 1 \<ge> 0
                           then setBlock chunk x y (z - 1) AIR else chunk)
              in chunk)
           else chunk)"

definition caveColumn :: "WorldGen \<Rightarrow> int \<Rightarrow> int \<Rightarrow> ChunkData \<Rightarrow> int \<times> int \<Rightarrow> ChunkData" where
  "caveColumn gen worldOffsetX worldOffsetZ chunk xz = (case xz of (x, z) \<Rightarrow>
     let worldX = worldOffsetX + x;
         worldZ = worldOffsetZ + z;
         surfaceY = getTerrainHeight gen worldX worldZ;
         caveTop = max (BEDROCK_LEVEL + 3) (surfaceY - 4)
     in foldl (caveCell gen worldX worldZ caveTop x z) chunk [BEDROCK_LEVEL + 2..caveTop - 1])"

definition expandCell :: "int \<Rightarrow> int \<Rightarrow> ChunkData \<Rightarrow> int \<Rightarrow> ChunkData" where
  "expandCell x z chunk y =
     (let current = getBlock chunk x y z in
      if current = AIR \<or> current = BEDROCK \<or> y \<ge> WATER_LEVEL - 1 then chunk
      else
        let airNeighbors =
              length (filter (\<lambda>b. b = AIR)
                [getBlock chunk (x + 1) y z, getBlock chunk (x - 1) y z, getBlock chunk x (y + 1) z,
                 getBlock chunk x (y - 1) z, getBlock chunk x y (z + 1), getBlock chunk x y (z - 1)])
        in if airNeighbors \<ge> 3 then setBlock chunk x y z AIR else chunk)"

definition expandColumn :: "WorldGen \<Rightarrow> int \<Rightarrow> int \<Rightarrow> ChunkData \<Rightarrow> int \<times> int \<Rightarrow> ChunkData" where
  "expandColumn gen worldOffsetX worldOffsetZ chunk xz = (case xz of (x, z) \<Rightarrow>
     let worldX = worldOffsetX + x;
         worldZ = worldOffsetZ + z;
         caveTop = getTerrainHeight gen worldX worldZ - 5
     in foldl (expandCell x z) chunk [BEDROCK_LEVEL + 2..caveTop - 1])"

definition carveCaves :: "WorldGen \<Rightarrow> ChunkData \<Rightarrow> int \<Rightarrow> int \<Rightarrow> ChunkData" where
  "carveCaves gen chunk worldOffsetX worldOffsetZ =
     (if worldType (worldGenConfig gen) = Flat then chunk
      else
        let chunk = foldl (caveColumn gen worldOffsetX worldOffsetZ) chunk
                      (List.product [0..CHUNK_SIZE - 1] [0..CHUNK_SIZE - 1]);
            chunk = foldl (expandColumn gen worldOffsetX worldOffsetZ) chunk
                      (List.product [1..CHUNK_SIZE - 2] [1..CHUNK_SIZE - 2])
        in chunk)"

definition terrainCell ::
  "WorldGen \<Rightarrow> int \<Rightarrow> int \<Rightarrow> int \<Rightarrow> int \<Rightarrow> int \<Rightarrow> ChunkData \<Rightarrow> int \<Rightarrow> ChunkData" where
  "terrainCell gen worldX worldZ height x z chunk y =
     (if y > height \<and> y \<le> WATER_LEVEL then setBlock chunk x y z WATER
      else if y \<le> height then
        (if y = BEDROCK_LEVEL then setBlock chunk x y z BEDROCK
         else if y < height - 4 then setBlock chunk x y z STONE
         else if y < height then setBlock chunk x y z DIRT
         else
           let biome = biomeAt gen worldX worldZ in
           if height \<le> WATER_LEVEL + 1 then
             (let chunk = setBlock chunk x y z SAND in
              if noise2D (plantNoise gen) (of_int worldX * (1 / 10)) (of_int worldZ * (1 / 10)) > 5 / 10
              then setBlock chunk x y z GRAVEL else chunk)
           else if biome < - (3 / 10) then setBlock chunk x y z SAND
           else setBlock chunk x y z GRASS)
      else chunk)"

definition terrainColumn :: "WorldGen \<Rightarrow> int \<Rightarrow> int \<Rightarrow> ChunkData \<Rightarrow> int \<times> int \<Rightarrow> ChunkData" where
  "terrainColumn gen worldOffsetX worldOffsetZ chunk xz = (case xz of (x, z) \<Rightarrow>
     let worldX = worldOffsetX + x;
         worldZ = worldOffsetZ + z;
         height = getTerrainHeight gen worldX worldZ;
         chunk = foldl (terrainCell gen worldX worldZ height x z) chunk [0..max height WATER_LEVEL]
     in if height < WATER_LEVEL - 2
           \<and> noise2D (plantNoise gen) (of_int worldX * (15 / 100)) (of_int worldZ * (15 / 100)) > 4 / 10
        then setBlock chunk x height z CLAY else chunk)"

definition treeSite ::
  "WorldGen \<Rightarrow> (nat \<Rightarrow> rat) \<Rightarrow> int \<Rightarrow> int \<Rightarrow> ChunkData \<times> nat \<Rightarrow> int \<times> int \<Rightarrow> ChunkData \<times> nat" where
  "treeSite gen rnd worldOffsetX worldOffsetZ st xz = (case xz of (x, z) \<Rightarrow>
     let worldX = worldOffsetX + x;
         worldZ = worldOffsetZ + z;
         height = getTerrainHeight gen worldX worldZ
     in if height \<le> WATER_LEVEL + 1 then st
        else if getBlock (fst st) x height z = GRASS
                \<and> noise2D (treeNoise gen) (of_int worldX * (5 / 10)) (of_int worldZ * (5 / 10)) > 6 / 10
        then (if noise2D (treeNoise gen) (of_int worldX * (2 / 10) + 500) (of_int worldZ * (2 / 10) + 500)
                   > 3 / 10
              then placeBirchTree rnd st x (height + 1) z
              else placeTree rnd st x (height + 1) z)
        else st)"

definition flowerAt :: "WorldGen \<Rightarrow> ChunkData \<Rightarrow> int \<Rightarrow> int \<Rightarrow> int \<Rightarrow> int \<Rightarrow> int \<Rightarrow> ChunkData" where
  "flowerAt gen chunk worldX worldZ x height z =
     (let fVal = noise2D (flowerNoise gen) (of_int worldX * (3 / 10)) (of_int worldZ * (3 / 10));
          fVal2 = noise2D (flowerNoise gen) (of_int worldX * (7 / 10) + 100) (of_int worldZ * (7 / 10) + 100);
          pVal = noise2D (plantNoise gen) (of_int worldX * (5 / 10) + 400) (of_int worldZ * (5 / 10) + 400)
      in if fVal > 65 / 100 then setBlock chunk x (height + 1) z FLOWER_RED
         else if fVal < - (65 / 100) then setBlock chunk x (height + 1) z FLOWER_YELLOW
         else if pVal > 7 / 10 then setBlock chunk x (height + 1) z SUNFLOWER
         else if pVal < - (7 / 10) then setBlock chunk x (height + 1) z LILAC
         else if pVal > 55 / 100 \<and> pVal < 6 / 10 then setBlock chunk x (height + 1) z ROSE_BUSH
         else if fVal2 > 3 / 10 \<and> fVal2 < 5 / 10 then setBlock chunk x (height + 1) z TALL_GRASS
         else if fVal2 > 5 / 10 \<and> fVal2 < 6 / 10 then setBlock chunk x (height + 1) z FERN
         else if fVal2 > 7 / 10 then
           (let hasCanopy = (getBlock chunk x (height + 3) z = LEAVES
                             \<or> getBlock chunk x (height + 3) z = LEAVES_BIRCH)
            in if hasCanopy
               then setBlock chunk x (height + 1) z (if fVal > 0 then MUSHROOM_RED else MUSHROOM_BROWN)
               else chunk)
         else chunk)"

definition vegetationColumn ::
  "WorldGen \<Rightarrow> (nat \<Rightarrow> rat) \<Rightarrow> int \<Rightarrow> int \<Rightarrow> ChunkData \<times> nat \<Rightarrow> int \<times> int \<Rightarrow> ChunkData \<times> nat" where
  "vegetationColumn gen rnd worldOffsetX worldOffsetZ st xz = (case st of (chunk, k) \<Rightarrow> (case xz of (x, z) \<Rightarrow>
     let worldX = worldOffsetX + x;
         worldZ = worldOffsetZ + z;
         height = getTerrainHeight gen worldX worldZ;
         surfaceBlock = getBlock chunk x height z;
         aboveBlock = getBlock chunk x (height + 1) z;
         chunk = (if (surfaceBlock = WATER \<or> getBlock chunk x WATER_LEVEL z = WATER)
                     \<and> height \<le> WATER_LEVEL
                     \<and> noise2D (plantNoise gen) (of_int worldX * (8 / 10)) (of_int worldZ * (8 / 10)) > 7 / 10
                  then setBlock chunk x (WATER_LEVEL + 1) z LILY_PAD else chunk)
     in if (surfaceBlock = GRASS \<or> surfaceBlock = SAND)
           \<and> (height = WATER_LEVEL + 1 \<or> height = WATER_LEVEL + 2)
           \<and> noise2D (plantNoise gen) (of_int worldX * (6 / 10) + 200) (of_int worldZ * (6 / 10) + 200) > 55 / 100
           \<and> aboveBlock = AIR
        then (let caneH = 1 + \<lfloor>rnd k * 3\<rfloor>
              in (foldl (\<lambda>c cy. setBlock c x (height + cy) z SUGAR_CANE) chunk [1..caneH], k + 1))
        else if surfaceBlock = SAND \<and> height > WATER_LEVEL + 2 \<and> aboveBlock = AIR
                \<and> noise2D (plantNoise gen) (of_int worldX * (4 / 10) + 300) (of_int worldZ * (4 / 10) + 300) > 7 / 10
        then (let cactH = 1 + \<lfloor>rnd k * 3\<rfloor>
              in (foldl (\<lambda>c cy. setBlock c x (height + cy) z CACTUS) chunk [1..cactH], k + 1))
        else if surfaceBlock = GRASS \<and> aboveBlock = AIR
        then (flowerAt gen chunk worldX worldZ x height z, k)
        else (chunk, k)))"

definition houseAt :: "WorldGen \<Rightarrow> ChunkData \<Rightarrow> int \<Rightarrow> int \<Rightarrow> ChunkData" where
  "houseAt gen chunk chunkX chunkZ =
     (let hVal = noise2D (houseNoise gen) (of_int chunkX * (3 / 10)) (of_int chunkZ * (3 / 10)) in
      if hVal > 55 / 100 then
        (let hx = 3 + \<lfloor>\<bar>noise2D (houseNoise gen) (of_int chunkX * (17 / 10)) (of_int chunkZ * (17 / 10))\<bar> * 5\<rfloor>;
             hz = 3 + \<lfloor>\<bar>noise2D (houseNoise gen) (of_int chunkX * (23 / 10)) (of_int chunkZ * (23 / 10))\<bar> * 5\<rfloor>;
             worldHX = chunkX * CHUNK_SIZE + hx;
             worldHZ = chunkZ * CHUNK_SIZE + hz;
             hy = getTerrainHeight gen worldHX worldHZ
         in if hy > WATER_LEVEL + 2 \<and> getBlock chunk hx hy hz = GRASS
            then placeHouse chunk hx hy hz else chunk)
      else chunk)"

text \<open>
  \<open>generateChunk\<close>: terrain and water, caves, and, in a normal world, trees, vegetation and
  a house. The loops over the columns run with \<open>x\<close> outside and \<open>z\<close> inside, the order of
  \<open>List.product\<close>.
\<close>

definition generateChunk :: "WorldGen \<Rightarrow> (nat \<Rightarrow> rat) \<Rightarrow> int \<Rightarrow> int \<Rightarrow> ChunkData" where
  "generateChunk gen rnd chunkX chunkZ =
     (let chunk = \<lparr>blocks = replicate (nat (CHUNK_SIZE * CHUNK_SIZE * CHUNK_HEIGHT)) 0,
                   cx = chunkX, cz = chunkZ\<rparr>;
          worldOffsetX = chunkX * CHUNK_SIZE;
          worldOffsetZ = chunkZ * CHUNK_SIZE;
          chunk = foldl (terrainColumn gen worldOffsetX worldOffsetZ) chunk
                    (List.product [0..CHUNK_SIZE - 1] [0..CHUNK_SIZE - 1]);
          chunk = carveCaves gen chunk worldOffsetX worldOffsetZ
      in if worldType (worldGenConfig gen) = Flat then chunk
         else
           let st = foldl (treeSite gen rnd worldOffsetX worldOffsetZ) (chunk, 0)
                      (List.product [2..CHUNK_SIZE - 3] [2..CHUNK_SIZE - 3]);
               st = foldl (vegetationColumn gen rnd worldOffsetX worldOffsetZ) st
                      (List.product [0..CHUNK_SIZE - 1] [0..CHUNK_SIZE - 1])
           in houseAt gen (fst st) chunkX chunkZ)"

text \<open>
  The vocabulary of the frame properties of the decoration passes: a cell \<open>keeps\<close> its value
  \<open>v\<close> through a pass when it still holds \<open>v\<close>, or held AIR and now holds the leaf block
  \<open>l\<close> of the pass.
\<close>

definition keeps :: "BlockType \<Rightarrow> BlockType \<Rightarrow> int \<Rightarrow> int \<Rightarrow> int \<Rightarrow> ChunkData \<Rightarrow> bool" where
  "keeps v l qx qy qz c \<longleftrightarrow>
     wf_chunk c \<and> (getBlock c qx qy qz = v \<or> (v = AIR \<and> getBlock c qx qy qz = l))"

text \<open>
  A column of a chunk at which the tree pass plants an oak whatever \<open>Math.random\<close> returns:
  it lies in the range of the tree loops, its surface is above the beach and not desert, so
  that the terrain pass puts GRASS there, the tree noise exceeds the planting threshold, and
  the birch noise does not exceed its own. The height bound keeps the cell five above the
  surface inside the chunk. \<open>noHouse\<close> is a chunk for which the house noise stays at or below
  the building threshold.
\<close>

definition oakSite :: "WorldGen \<Rightarrow> int \<Rightarrow> int \<Rightarrow> int \<Rightarrow> int \<Rightarrow> bool" where
  "oakSite gen chunkX chunkZ x z =
     (let worldX = chunkX * CHUNK_SIZE + x;
          worldZ = chunkZ * CHUNK_SIZE + z;
          height = getTerrainHeight gen worldX worldZ
      in worldType (worldGenConfig gen) = Normal
         \<and> 2 \<le> x \<and> x < CHUNK_SIZE - 2 \<and> 2 \<le> z \<and> z < CHUNK_SIZE - 2
         \<and> height > WATER_LEVEL + 1 \<and> height + 5 < CHUNK_HEIGHT
         \<and> \<not> biomeAt gen worldX worldZ < - (3 / 10)
         \<and> noise2D (treeNoise gen) (of_int worldX * (5 / 10)) (of_int worldZ * (5 / 10)) > 6 / 10
         \<and> \<not> noise2D (treeNoise gen) (of_int worldX * (2 / 10) + 500) (of_int worldZ * (2 / 10) + 500)
               > 3 / 10)"

definition noHouse :: "WorldGen \<Rightarrow> int \<Rightarrow> int \<Rightarrow> bool" where
  "noHouse gen chunkX chunkZ \<longleftrightarrow>
     \<not> noise2D (houseNoise gen) (of_int chunkX * (3 / 10)) (of_int chunkZ * (3 / 10)) > 55 / 100"

text \<open>
  The generator state of a normal world with seed 12345. Each noise instance holds the table
  that the shuffle of its constructor yields for its seed, \<open>12345 + 11\<close> for the terrain
  noise up to \<open>12345 + 137\<close> for the cave noise; \<open>perm\<close> holds the 256 shuffled values twice.
\<close>

definition shuffled12356 :: "int option list" where
  "shuffled12356 =
     [Some 53, Some 32, Some 99, Some 169, Some 43, Some 72, Some 38, Some 56, Some 101,
      Some 208, Some 210, Some 183, Some 104, Some 167, Some 190, Some 159, Some 232, Some 13,
      Some 103, Some 126, Some 135, Some 0, Some 87, Some 107, Some 79, Some 240, Some 171,
      Some 100, Some 161, Some 21, Some 62, Some 198, Some 174, Some 222, Some 73, Some 165,
      Some 57, Some 14, Some 45, Some 37, Some 238, Some 40, Some 35, Some 133, Some 229,
      Some 80, Some 24, Some 236, Some 230, Some 227, Some 251, Some 162, Some 226, Some 201,
      Some 3, Some 239, Some 44, Some 217, Some 248, Some 223, Some 123, Some 9, Some 184,
      Some 76, Some 179, Some 26, Some 23, Some 166, Some 214, Some 145, Some 228, Some 47,
      Some 5, Some 112, Some 116, Some 185, Some 85, Some 124, Some 77, Some 78, Some 109,
      Some 93, Some 196, Some 70, Some 68, Some 153, Some 33, Some 67, Some 59, Some 142,
      Some 148, Some 132, Some 176, Some 129, Some 211, Some 195, Some 178, Some 173, Some 49,
      Some 220, Some 197, Some 10, Some 147, Some 219, Some 88, Some 111, Some 48, Some 199,
      Some 60, Some 245, Some 209, Some 215, Some 1, Some 117, Some 191, Some 164, Some 118,
      Some 81, Some 90, Some 187, Some 30, Some 140, Some 119, Some 89, Some 250, Some 113,
      Some 158, Some 51, Some 41, Some 12, Some 55, Some 134, Some 18, Some 154, Some 108,
      Some 4, Some 64, Some 149, Some 20, Some 182, Some 31, Some 98, Some 17, Some 136,
      Some 225, Some 144, Some 42, Some 231, Some 188, Some 54, Some 94, Some 181, Some 69,
      Some 252, Some 25, Some 212, Some 234, Some 243, Some 121, Some 19, Some 152, Some 143,
      Some 97, Some 125, Some 75, Some 213, Some 203, Some 65, Some 138, Some 168, Some 155,
      Some 192, Some 163, Some 2, Some 36, Some 96, Some 16, Some 29, Some 106, Some 6, Some 15,
      Some 186, Some 235, Some 91, Some 39, Some 50, Some 63, Some 205, Some 139, Some 241,
      Some 120, Some 66, Some 200, Some 175, Some 242, Some 189, Some 22, Some 130, Some 122,
      Some 247, Some 8, Some 131, Some 249, Some 221, Some 254, Some 146, Some 233, Some 177,
      Some 46, Some 180, Some 216, Some 194, Some 58, Some 244, Some 255, Some 160, Some 253,
      Some 115, Some 52, Some 172, Some 224, Some 137, Some 151, Some 202, Some 157, Some 71,
      Some 28, Some 204, Some 206, Some 102, Some 150, Some 127, Some 218, Some 193, Some 34,
      Some 114, Some 246, Some 27, Some 170, Some 128, Some 141, Some 156, Some 105, Some 207,
      Some 11, Some 86, Some 95, Some 237, Some 61, Some 7, Some 83, Some 74, Some 82, Some 110,
      Some 84, Some 92]"

definition shuffled12374 :: "int option list" where
  "shuffled12374 =
     [Some 23, Some 50, Some 204, Some 244, Some 184, Some 43, Some 52, Some 35, Some 115,
      Some 181, Some 41, Some 72, Some 129, Some 209, Some 205, Some 245, Some 154, Some 87,
      Some 161, Some 106, Some 183, Some 226, Some 243, Some 131, Some 96, Some 60, Some 130,
      Some 182, Some 247, Some 160, Some 236, Some 249, Some 62, Some 188, Some 25, Some 13,
      Some 174, Some 203, Some 189, Some 139, Some 19, Some 24, Some 242, Some 65, Some 206,
      Some 123, Some 126, Some 246, Some 88, Some 164, Some 162, Some 56, Some 214, Some 80,
      Some 105, Some 135, Some 202, Some 192, Some 38, Some 133, Some 252, Some 94, Some 165,
      Some 241, Some 71, Some 85, Some 169, Some 248, Some 159, Some 171, Some 191, Some 167,
      Some 103, Some 116, Some 46, Some 100, Some 27, Some 239, Some 74, Some 240, Some 18,
      Some 142, Some 69, Some 124, Some 92, Some 222, Some 234, Some 104, Some 16, Some 81,
      Some 216, Some 39, Some 153, Some 21, Some 232, Some 151, Some 84, Some 58, Some 64,
      Some 128, Some 200, Some 4, Some 73, Some 163, Some 176, Some 208, Some 47, Some 185,
      Some 255, Some 213, Some 10, Some 7, Some 95, Some 53, Some 218, Some 177, Some 11, Some 3,
      Some 221, Some 9, Some 68, Some 90, Some 230, Some 136, Some 173, Some 179, Some 132,
      Some 149, Some 37, Some 67, Some 113, Some 207, Some 168, Some 125, Some 49, Some 29,
      Some 48, Some 228, Some 111, Some 143, Some 144, Some 59, Some 219, Some 199, Some 31,
      Some 97, Some 99, Some 1, Some 101, Some 166, Some 147, Some 12, Some 156, Some 121,
      Some 250, Some 215, Some 194, Some 178, Some 118, Some 51, Some 146, Some 114, Some 76,
      Some 145, Some 57, Some 190, Some 82, Some 217, Some 134, Some 20, Some 108, Some 89,
      Some 225, Some 14, Some 109, Some 201, Some 8, Some 66, Some 32, Some 61, Some 102,
      Some 137, Some 197, Some 110, Some 93, Some 210, Some 98, Some 227, Some 233, Some 107,
      Some 253, Some 54, Some 34, Some 180, Some 120, Some 122, Some 220, Some 186, Some 119,
      Some 36, Some 155, Some 117, Some 195, Some 198, Some 55, Some 238, Some 140, Some 42,
      Some 112, Some 229, Some 212, Some 187, Some 77, Some 2, Some 231, Some 138, Some 78,
      Some 224, Some 0, Some 150, Some 44, Some 28, Some 141, Some 127, Some 17, Some 196,
      Some 91, Some 83, Some 211, Some 157, Some 5, Some 22, Some 251, Some 235, Some 70,
      Some 75, Some 15, Some 148, Some 40, Some 170, Some 63, Some 79, Some 6, Some 30, Some 86,
      Some 193, Some 45, Some 175, Some 223, Some 152, Some 158, Some 254, Some 237, Some 33,
      Some 172, Some 26]"

definition shuffled12392 :: "int option list" where
  "shuffled12392 =
     [Some 93, Some 145, Some 56, Some 3, Some 110, Some 108, Some 206, Some 22, Some 217,
      Some 157, Some 142, Some 153, Some 172, Some 81, Some 170, Some 74, Some 158, Some 53,
      Some 32, Some 14, Some 184, Some 84, Some 222, Some 132, Some 67, Some 177, Some 11,
      Some 12, Some 76, Some 155, Some 245, Some 73, Some 253, Some 46, Some 171, Some 197,
      Some 119, Some 109, Some 186, Some 241, Some 82, Some 103, Some 224, Some 61, Some 160,
      Some 4, Some 221, Some 69, Some 34, Some 148, Some 6, Some 68, Some 114, Some 107,
      Some 193, Some 17, Some 75, Some 220, Some 249, Some 94, Some 89, Some 188, Some 65,
      Some 168, Some 28, Some 120, Some 196, Some 214, Some 183, Some 127, Some 77, Some 243,
      Some 236, Some 176, Some 234, Some 23, Some 205, Some 200, Some 47, Some 15, Some 187,
      Some 199, Some 29, Some 191, Some 228, Some 43, Some 121, Some 37, Some 39, Some 95,
      Some 90, Some 19, Some 72, Some 30, Some 21, Some 162, Some 240, Some 179, Some 218,
      Some 219, Some 192, Some 100, Some 231, Some 134, Some 128, Some 117, Some 242, Some 36,
      Some 167, Some 71, Some 135, Some 57, Some 83, Some 25, Some 150, Some 239, Some 59,
      Some 48, Some 161, Some 151, Some 164, Some 166, Some 189, Some 124, Some 201, Some 146,
      Some 252, Some 247, Some 33, Some 122, Some 40, Some 235, Some 144, Some 91, Some 125,
      Some 175, Some 181, Some 112, Some 63, Some 111, Some 237, Some 123, Some 202, Some 80,
      Some 143, Some 159, Some 9, Some 118, Some 223, Some 13, Some 49, Some 96, Some 251,
      Some 5, Some 88, Some 62, Some 16, Some 35, Some 213, Some 246, Some 99, Some 85, Some 165,
      Some 211, Some 106, Some 55, Some 27, Some 208, Some 130, Some 169, Some 78, Some 163,
      Some 51, Some 204, Some 209, Some 138, Some 0, Some 126, Some 190, Some 198, Some 105,
      Some 156, Some 24, Some 232, Some 147, Some 104, Some 215, Some 20, Some 248, Some 58,
      Some 137, Some 42, Some 60, Some 185, Some 244, Some 98, Some 66, Some 210, Some 116,
      Some 230, Some 101, Some 70, Some 180, Some 182, Some 26, Some 140, Some 87, Some 229,
      Some 178, Some 7, Some 44, Some 1, Some 250, Some 227, Some 174, Some 254, Some 45,
      Some 10, Some 79, Some 195, Some 152, Some 141, Some 131, Some 52, Some 225, Some 102,
      Some 154, Some 207, Some 255, Some 115, Some 92, Some 238, Some 129, Some 64, Some 173,
      Some 41, Some 38, Some 31, Some 149, Some 212, Some 226, Some 2, Some 86, Some 97, Some 8,
      Some 54, Some 50, Some 113, Some 136, Some 194, Some 233, Some 18, Some 139, Some 203,
      Some 133, Some 216]"

definition shuffled12416 :: "int option list" where
  "shuffled12416 =
     [Some 107, Some 85, Some 96, Some 118, Some 199, Some 236, Some 175, Some 229, Some 165,
      Some 69, Some 219, Some 65, Some 215, Some 99, Some 150, Some 134, Some 202, Some 138,
      Some 5, Some 189, Some 102, Some 187, Some 80, Some 143, Some 240, Some 24, Some 81,
      Some 185, Some 153, Some 77, Some 188, Some 120, Some 110, Some 210, Some 167, Some 154,
      Some 183, Some 13, Some 117, Some 160, Some 245, Some 68, Some 34, Some 73, Some 201,
      Some 152, Some 60, Some 156, Some 101, Some 22, Some 112, Some 88, Some 254, Some 155,
      Some 49, Some 74, Some 214, Some 40, Some 14, Some 249, Some 178, Some 192, Some 193,
      Some 30, Some 172, Some 162, Some 56, Some 217, Some 237, Some 238, Some 109, Some 84,
      Some 226, Some 106, Some 42, Some 19, Some 63, Some 253, Some 136, Some 100, Some 230,
      Some 32, Some 194, Some 242, Some 231, Some 48, Some 221, Some 3, Some 131, Some 176,
      Some 114, Some 205, Some 16, Some 33, Some 51, Some 37, Some 234, Some 182, Some 67,
      Some 93, Some 53, Some 126, Some 29, Some 241, Some 94, Some 23, Some 145, Some 116,
      Some 196, Some 10, Some 95, Some 204, Some 129, Some 113, Some 82, Some 149, Some 6,
      Some 26, Some 247, Some 12, Some 132, Some 64, Some 111, Some 98, Some 0, Some 255,
      Some 15, Some 169, Some 251, Some 20, Some 142, Some 41, Some 25, Some 1, Some 79,
      Some 244, Some 35, Some 164, Some 220, Some 235, Some 125, Some 200, Some 233, Some 133,
      Some 46, Some 147, Some 36, Some 225, Some 174, Some 18, Some 119, Some 239, Some 61,
      Some 108, Some 161, Some 157, Some 227, Some 55, Some 91, Some 124, Some 191, Some 207,
      Some 27, Some 58, Some 180, Some 179, Some 38, Some 17, Some 181, Some 228, Some 190,
      Some 92, Some 123, Some 151, Some 218, Some 166, Some 45, Some 72, Some 59, Some 87,
      Some 137, Some 115, Some 250, Some 195, Some 78, Some 140, Some 213, Some 39, Some 203,
      Some 197, Some 21, Some 90, Some 159, Some 62, Some 158, Some 168, Some 44, Some 184,
      Some 31, Some 104, Some 163, Some 223, Some 148, Some 8, Some 121, Some 122, Some 173,
      Some 89, Some 83, Some 4, Some 54, Some 177, Some 139, Some 216, Some 9, Some 43, Some 146,
      Some 170, Some 97, Some 86, Some 246, Some 224, Some 7, Some 248, Some 243, Some 198,
      Some 127, Some 209, Some 70, Some 47, Some 130, Some 2, Some 222, Some 212, Some 232,
      Some 71, Some 103, Some 76, Some 135, Some 28, Some 211, Some 171, Some 52, Some 105,
      Some 57, Some 141, Some 75, Some 50, Some 186, Some 252, Some 144, Some 66, Some 206,
      Some 11, Some 208, Some 128]"

definition shuffled12434 :: "int option list" where
  "shuffled12434 =
     [Some 122, Some 4, Some 26, Some 10, Some 175, Some 74, Some 153, Some 157, Some 86,
      Some 116, Some 148, Some 155, Some 31, Some 237, Some 81, Some 0, Some 212, Some 105,
      Some 103, Some 146, Some 255, Some 119, Some 52, Some 77, Some 209, Some 84, Some 203,
      Some 17, Some 95, Some 76, Some 87, Some 39, Some 128, Some 225, Some 98, Some 177,
      Some 18, Some 8, Some 89, Some 102, Some 230, Some 180, Some 59, Some 110, Some 73,
      Some 65, Some 165, Some 194, Some 143, Some 131, Some 179, Some 117, Some 60, Some 233,
      Some 169, Some 30, Some 138, Some 188, Some 96, Some 100, Some 46, Some 34, Some 83,
      Some 7, Some 66, Some 61, Some 151, Some 36, Some 29, Some 24, Some 216, Some 189, Some 50,
      Some 186, Some 22, Some 35, Some 68, Some 192, Some 32, Some 38, Some 118, Some 166,
      Some 241, Some 80, Some 12, Some 246, Some 193, Some 252, Some 250, Some 136, Some 222,
      Some 44, Some 156, Some 42, Some 185, Some 15, Some 160, Some 47, Some 82, Some 152,
      Some 229, Some 115, Some 51, Some 199, Some 97, Some 49, Some 126, Some 124, Some 127,
      Some 79, Some 221, Some 245, Some 174, Some 85, Some 205, Some 9, Some 54, Some 71,
      Some 107, Some 208, Some 63, Some 171, Some 207, Some 57, Some 56, Some 14, Some 182,
      Some 202, Some 55, Some 75, Some 121, Some 228, Some 168, Some 101, Some 249, Some 91,
      Some 141, Some 198, Some 214, Some 195, Some 244, Some 19, Some 159, Some 234, Some 6,
      Some 243, Some 93, Some 53, Some 48, Some 99, Some 178, Some 231, Some 112, Some 147,
      Some 27, Some 106, Some 90, Some 58, Some 227, Some 123, Some 161, Some 43, Some 206,
      Some 78, Some 210, Some 200, Some 150, Some 213, Some 223, Some 204, Some 145, Some 1,
      Some 130, Some 163, Some 211, Some 11, Some 235, Some 184, Some 187, Some 142, Some 140,
      Some 134, Some 70, Some 3, Some 132, Some 167, Some 253, Some 251, Some 69, Some 135,
      Some 125, Some 13, Some 45, Some 67, Some 173, Some 144, Some 247, Some 254, Some 28,
      Some 113, Some 109, Some 139, Some 240, Some 242, Some 92, Some 16, Some 120, Some 162,
      Some 149, Some 191, Some 215, Some 170, Some 158, Some 137, Some 154, Some 21, Some 114,
      Some 72, Some 232, Some 64, Some 239, Some 218, Some 220, Some 111, Some 226, Some 104,
      Some 190, Some 88, Some 40, Some 238, Some 217, Some 129, Some 176, Some 201, Some 33,
      Some 37, Some 23, Some 197, Some 5, Some 183, Some 133, Some 94, Some 196, Some 172,
      Some 224, Some 2, Some 25, Some 236, Some 20, Some 248, Some 219, Some 164, Some 108,
      Some 181, Some 41, Some 62]"

definition shuffled12458 :: "int option list" where
  "shuffled12458 =
     [Some 101, Some 179, Some 186, Some 2, Some 172, Some 105, Some 122, Some 156, Some 3,
      Some 46, Some 68, Some 229, Some 83, Some 249, Some 65, Some 5, Some 119, Some 32, Some 43,
      Some 233, Some 143, Some 36, Some 33, Some 212, Some 16, Some 209, Some 73, Some 146,
      Some 84, Some 100, Some 168, Some 164, Some 47, Some 155, Some 131, Some 189, Some 81,
      Some 0, Some 254, Some 127, Some 218, Some 35, Some 192, Some 190, Some 41, Some 135,
      Some 203, Some 113, Some 8, Some 98, Some 77, Some 170, Some 149, Some 216, Some 19,
      Some 55, Some 13, Some 138, Some 44, Some 12, Some 225, Some 109, Some 27, Some 151,
      Some 154, Some 62, Some 25, Some 169, Some 242, Some 197, Some 159, Some 237, Some 219,
      Some 51, Some 173, Some 48, Some 23, Some 74, Some 160, Some 213, Some 107, Some 145,
      Some 227, Some 6, Some 157, Some 30, Some 176, Some 184, Some 66, Some 224, Some 178,
      Some 124, Some 97, Some 118, Some 112, Some 148, Some 59, Some 34, Some 110, Some 165,
      Some 210, Some 205, Some 235, Some 166, Some 158, Some 228, Some 82, Some 26, Some 80,
      Some 195, Some 69, Some 152, Some 58, Some 42, Some 117, Some 79, Some 126, Some 49,
      Some 72, Some 15, Some 198, Some 136, Some 94, Some 238, Some 245, Some 248, Some 108,
      Some 57, Some 95, Some 139, Some 223, Some 40, Some 56, Some 214, Some 140, Some 241,
      Some 38, Some 201, Some 240, Some 220, Some 11, Some 153, Some 217, Some 103, Some 208,
      Some 111, Some 244, Some 114, Some 181, Some 104, Some 91, Some 191, Some 129, Some 222,
      Some 28, Some 99, Some 45, Some 133, Some 202, Some 37, Some 253, Some 64, Some 234,
      Some 246, Some 52, Some 141, Some 161, Some 185, Some 199, Some 163, Some 247, Some 102,
      Some 29, Some 121, Some 251, Some 150, Some 87, Some 78, Some 86, Some 60, Some 75,
      Some 93, Some 132, Some 196, Some 63, Some 17, Some 7, Some 183, Some 250, Some 71,
      Some 177, Some 61, Some 144, Some 207, Some 128, Some 18, Some 1, Some 231, Some 142,
      Some 125, Some 171, Some 53, Some 137, Some 22, Some 187, Some 204, Some 206, Some 9,
      Some 54, Some 188, Some 31, Some 134, Some 20, Some 226, Some 211, Some 147, Some 215,
      Some 14, Some 194, Some 252, Some 106, Some 182, Some 96, Some 21, Some 193, Some 200,
      Some 76, Some 90, Some 123, Some 167, Some 24, Some 221, Some 39, Some 115, Some 92,
      Some 67, Some 88, Some 4, Some 255, Some 239, Some 232, Some 174, Some 162, Some 180,
      Some 120, Some 89, Some 50, Some 236, Some 70, Some 10, Some 130, Some 85, Some 175,
      Some 243, Some 116, Some 230]"

definition shuffled12482 :: "int option list" where
  "shuffled12482 =
     [Some 144, Some 141, Some 210, Some 137, Some 37, Some 237, Some 139, Some 7, Some 60,
      Some 103, Some 222, Some 211, Some 8, Some 186, Some 76, Some 157, Some 182, Some 122,
      Some 71, Some 48, Some 5, Some 163, Some 234, Some 216, Some 22, Some 192, Some 28,
      Some 225, Some 149, Some 250, Some 187, Some 87, Some 104, Some 221, Some 126, Some 193,
      Some 232, Some 30, Some 129, Some 69, Some 85, Some 14, Some 183, Some 73, Some 17,
      Some 165, Some 115, Some 67, Some 38, Some 36, Some 185, Some 118, Some 78, Some 159,
      Some 177, Some 56, Some 161, Some 3, Some 88, Some 145, Some 74, Some 175, Some 167,
      Some 123, Some 235, Some 230, Some 114, Some 213, Some 39, Some 208, Some 209, Some 197,
      Some 26, Some 190, Some 248, Some 44, Some 116, Some 255, Some 63, Some 34, Some 77,
      Some 94, Some 15, Some 16, Some 164, Some 35, Some 112, Some 251, Some 45, Some 89,
      Some 23, Some 42, Some 173, Some 218, Some 90, Some 96, Some 121, Some 21, Some 134,
      Some 91, Some 201, Some 18, Some 194, Some 43, Some 9, Some 200, Some 117, Some 127,
      Some 59, Some 152, Some 241, Some 178, Some 108, Some 113, Some 82, Some 156, Some 133,
      Some 147, Some 154, Some 148, Some 172, Some 75, Some 24, Some 130, Some 19, Some 224,
      Some 143, Some 13, Some 151, Some 4, Some 181, Some 140, Some 205, Some 239, Some 226,
      Some 198, Some 228, Some 119, Some 253, Some 160, Some 202, Some 170, Some 25, Some 12,
      Some 102, Some 223, Some 240, Some 158, Some 138, Some 207, Some 10, Some 252, Some 146,
      Some 214, Some 220, Some 227, Some 33, Some 153, Some 27, Some 111, Some 219, Some 68,
      Some 64, Some 244, Some 150, Some 166, Some 86, Some 65, Some 110, Some 180, Some 171,
      Some 199, Some 54, Some 72, Some 0, Some 243, Some 132, Some 47, Some 125, Some 31,
      Some 107, Some 52, Some 11, Some 40, Some 203, Some 53, Some 246, Some 231, Some 2,
      Some 100, Some 61, Some 109, Some 247, Some 204, Some 83, Some 131, Some 245, Some 124,
      Some 79, Some 184, Some 32, Some 136, Some 105, Some 179, Some 80, Some 1, Some 215,
      Some 254, Some 168, Some 58, Some 41, Some 98, Some 95, Some 238, Some 46, Some 57,
      Some 229, Some 174, Some 212, Some 66, Some 233, Some 93, Some 195, Some 155, Some 196,
      Some 70, Some 189, Some 92, Some 206, Some 99, Some 62, Some 81, Some 135, Some 29,
      Some 84, Some 97, Some 50, Some 49, Some 162, Some 55, Some 217, Some 101, Some 128,
      Some 188, Some 249, Some 176, Some 20, Some 236, Some 120, Some 169, Some 106, Some 6,
      Some 242, Some 51, Some 191, Some 142]"

definition world12345 :: WorldGen where
  "world12345 =
     \<lparr>worldGenConfig = \<lparr>seed = 12345, worldType = Normal\<rparr>,
      noise = shuffled12356 @ shuffled12356, treeNoise = shuffled12374 @ shuffled12374,
      flowerNoise = shuffled12392 @ shuffled12392, biomeNoise = shuffled12416 @ shuffled12416,
      houseNoise = shuffled12434 @ shuffled12434, plantNoise = shuffled12458 @ shuffled12458,
      caveNoise = shuffled12482 @ shuffled12482\<rparr>"

section \<open>Addressing lemmas\<close>

lemma smod16: "(n::int) smod 16 = (if 0 \<le> n then n mod 16 else - ((- n) mod 16))"
  by (simp add: smod_int_alt_def sgn_if abs_if)

lemma smod16_nonneg: "0 \<le> (k::int) \<Longrightarrow> k smod 16 = k mod 16"
  by (simp add: smod16)

lemma neg_mod16: "(n::int) mod 16 = (if (- n) mod 16 = 0 then 0 else 16 - (- n) mod 16)"
  using zmod_zminus1_eq_if [of "- n" 16] by simp

lemma wrapLocal_mod: "wrapLocal n = n mod 16"
proof (cases "0 \<le> n")
  case True
  then have "n smod 16 = n mod 16" by (rule smod16_nonneg)
  moreover have "0 \<le> n mod 16 + 16" by simp
  then have "(n mod 16 + 16) smod 16 = (n mod 16 + 16) mod 16" by (rule smod16_nonneg)
  ultimately show ?thesis by (simp add: wrapLocal_def CHUNK_SIZE_def)
next
  case False
  define m where "m = (- n) mod 16"
  have m: "0 \<le> m" "m < 16" by (simp_all add: m_def)
  from False have s: "n smod 16 = - m" by (simp add: smod16 m_def)
  have "0 \<le> - m + 16" using m by simp
  then have "(- m + 16) smod 16 = (- m + 16) mod 16" by (rule smod16_nonneg)
  also have "\<dots> = (if m = 0 then 0 else 16 - m)"
  proof (cases "m = 0")
    case True
    then show ?thesis by simp
  next
    case False
    with m have "0 \<le> - m + 16" "- m + 16 < 16" by simp_all
    then have "(- m + 16) mod 16 = - m + 16" by (rule mod_pos_pos_trivial)
    with False show ?thesis by simp
  qed
  also have "\<dots> = n mod 16" using neg_mod16 [of n] by (simp add: m_def)
  finally show ?thesis by (simp add: wrapLocal_def CHUNK_SIZE_def s)
qed

lemma wrapLocal_range: "0 \<le> wrapLocal n \<and> wrapLocal n < 16"
  by (simp add: wrapLocal_mod)

lemma getIndex_bounds:
  assumes "0 \<le> x" "x < 16" "0 \<le> y" "y < 80" "0 \<le> z" "z < 16"
  shows "0 \<le> getIndex x y z \<and> getIndex x y z < 20480"
  using assms by (simp add: getIndex_def CHUNK_SIZE_def)

lemma low_digit: "0 \<le> a \<Longrightarrow> a < 16 \<Longrightarrow> (a + 16 * k) mod 16 = (a::int)"
  by simp

lemma getIndex_inj:
  assumes "0 \<le> x" "x < 16" "0 \<le> z" "z < 16" "0 \<le> x'" "x' < 16" "0 \<le> z'" "z' < 16"
    and "getIndex x y z = getIndex x' y' z'"
  shows "x = x' \<and> y = y' \<and> z = z'"
proof -
  define k where "k = z + 16 * y"
  define k' where "k' = z' + 16 * y'"
  from assms(9) have e: "x + 16 * k = x' + 16 * k'"
    by (simp add: getIndex_def CHUNK_SIZE_def k_def k'_def)
  have "(x + 16 * k) mod 16 = x" using assms(1,2) by (rule low_digit)
  moreover have "(x' + 16 * k') mod 16 = x'" using assms(5,6) by (rule low_digit)
  ultimately have x: "x = x'" using e by simp
  with e have e2: "z + 16 * y = z' + 16 * y'" by (simp add: k_def k'_def)
  have "(z + 16 * y) mod 16 = z" using assms(3,4) by (rule low_digit)
  moreover have "(z' + 16 * y') mod 16 = z'" using assms(7,8) by (rule low_digit)
  ultimately have z: "z = z'" using e2 by simp
  with e2 x show ?thesis by simp
qed

text \<open>
  C9. For all integers x, z and every y with \<open>0 \<le> y < 80\<close>, the index the wrapped local
  coordinates give, \<open>lx + lz * 16 + y * 256\<close>, lies in \<open>[0, 16 * 16 * 80)\<close>: every chunk access
  through the wrap is in bounds.
\<close>

theorem wrapped_index_in_bounds:
  assumes "0 \<le> y" and "y < CHUNK_HEIGHT"
  shows "0 \<le> getIndex (wrapLocal x) y (wrapLocal z)
       \<and> getIndex (wrapLocal x) y (wrapLocal z) < CHUNK_SIZE * CHUNK_SIZE * CHUNK_HEIGHT"
proof -
  have "0 \<le> wrapLocal x" "wrapLocal x < 16" "0 \<le> wrapLocal z" "wrapLocal z < 16"
    using wrapLocal_range by simp_all
  moreover have "0 \<le> y" "y < 80" using assms by (simp_all add: CHUNK_HEIGHT_def)
  ultimately show ?thesis
    using getIndex_bounds [of "wrapLocal x" y "wrapLocal z"]
    by (simp add: CHUNK_SIZE_def CHUNK_HEIGHT_def)
qed

theorem wrapped_index_in_bounds_witness:
  "(0::int) \<le> 79 \<and> 79 < CHUNK_HEIGHT
   \<and> getIndex (wrapLocal (- 17)) 79 (wrapLocal (- 1)) = 20479
   \<and> 0 \<le> getIndex (wrapLocal (- 17)) 79 (wrapLocal (- 1))
   \<and> getIndex (wrapLocal (- 17)) 79 (wrapLocal (- 1)) < CHUNK_SIZE * CHUNK_SIZE * CHUNK_HEIGHT"
proof -
  have h: "(0::int) \<le> 79" "(79::int) < CHUNK_HEIGHT" by (simp_all add: CHUNK_HEIGHT_def)
  have v: "getIndex (wrapLocal (- 17)) 79 (wrapLocal (- 1)) = 20479"
    by (simp add: getIndex_def wrapLocal_def CHUNK_SIZE_def smod_int_alt_def)
  show ?thesis
    using h v wrapped_index_in_bounds [OF h, of "- 17" "- 1"] by simp
qed


text \<open>
  C3. For every integer world coordinate, \<open>getBlockAt\<close> returns a block identifier and never
  fails: it is AIR whenever \<open>y < 0\<close> or \<open>y \<ge> 80\<close>, STONE whenever y is in range and the owning
  chunk \<open>(floor (x / 16), floor (z / 16))\<close> is not loaded, and otherwise a byte read inside the
  chunk's array.
\<close>

theorem getBlockAt_never_fails:
  "(y < 0 \<or> y \<ge> CHUNK_HEIGHT \<longrightarrow> getBlockAt cs x y z = AIR)
   \<and> (0 \<le> y \<and> y < CHUNK_HEIGHT \<and> map_of cs (chunkKey (x div 16) (z div 16)) = None
        \<longrightarrow> getBlockAt cs x y z = STONE)
   \<and> (0 \<le> y \<and> y < CHUNK_HEIGHT \<and> map_of cs (chunkKey (x div 16) (z div 16)) = Some c \<and> wf_chunk c
        \<longrightarrow> (\<exists>i < length (blocks c). getBlockAt cs x y z = blocks c ! i))"
proof (intro conjI impI)
  assume "y < 0 \<or> y \<ge> CHUNK_HEIGHT"
  then show "getBlockAt cs x y z = AIR" by (auto simp add: getBlockAt_def)
next
  assume "0 \<le> y \<and> y < CHUNK_HEIGHT \<and> map_of cs (chunkKey (x div 16) (z div 16)) = None"
  then show "getBlockAt cs x y z = STONE" by (simp add: getBlockAt_def CHUNK_SIZE_def)
next
  assume a: "0 \<le> y \<and> y < CHUNK_HEIGHT \<and> map_of cs (chunkKey (x div 16) (z div 16)) = Some c
             \<and> wf_chunk c"
  then have y: "0 \<le> y" "y < CHUNK_HEIGHT" by simp_all
  have r: "0 \<le> wrapLocal x" "wrapLocal x < 16" "0 \<le> wrapLocal z" "wrapLocal z < 16"
    using wrapLocal_range by simp_all
  have i: "0 \<le> getIndex (wrapLocal x) y (wrapLocal z)"
          "getIndex (wrapLocal x) y (wrapLocal z) < 20480"
    using getIndex_bounds [of "wrapLocal x" y "wrapLocal z"] r y by (simp_all add: CHUNK_HEIGHT_def)
  have l: "length (blocks c) = 20480"
    using a by (simp add: wf_chunk_def CHUNK_SIZE_def CHUNK_HEIGHT_def)
  have "getBlockAt cs x y z = blocks c ! nat (getIndex (wrapLocal x) y (wrapLocal z))"
    using a r by (simp add: getBlockAt_def getBlock_def CHUNK_SIZE_def)
  moreover have "nat (getIndex (wrapLocal x) y (wrapLocal z)) < length (blocks c)"
    using i l by simp
  ultimately show "\<exists>i < length (blocks c). getBlockAt cs x y z = blocks c ! i" by blast
qed

theorem getBlockAt_never_fails_witness:
  "getBlockAt [] 3 (- 1) 7 = AIR \<and> getBlockAt [] 3 80 7 = AIR \<and> getBlockAt [] (- 3) 5 7 = STONE
   \<and> (\<exists>i < 20480. getBlockAt [((- 1, 0), \<lparr>blocks = replicate 20480 BEDROCK, cx = - 1, cz = 0\<rparr>)] (- 3) 5 7
          = replicate 20480 BEDROCK ! i)"
proof -
  let ?c = "\<lparr>blocks = replicate 20480 BEDROCK, cx = - 1, cz = 0\<rparr>"
  have w: "wf_chunk ?c" by (simp add: wf_chunk_def CHUNK_SIZE_def CHUNK_HEIGHT_def)
  have k: "map_of [((- 1, 0), ?c)] (chunkKey ((- 3) div 16) (7 div 16)) = Some ?c"
    by (simp add: chunkKey_def)
  have n: "map_of ([] :: ChunkMap) (chunkKey ((- 3) div 16) (7 div 16)) = None" by simp
  show ?thesis
    using getBlockAt_never_fails [of "- 1" "[]" 3 7]
      getBlockAt_never_fails [of 80 "[]" 3 7]
      getBlockAt_never_fails [of 5 "[]" "- 3" 7] n
      getBlockAt_never_fails [of 5 "[((- 1, 0), ?c)]" "- 3" 7 ?c] w k
    by (simp add: CHUNK_HEIGHT_def)
qed


section \<open>Remote edits\<close>

lemma setBlock_idem: "setBlock (setBlock c x y z t) x y z t = setBlock c x y z t"
  by (simp add: setBlock_def)

lemma chunks_queueWaterAt [simp]: "chunks (queueWaterAt g x y z) = chunks g"
  by (simp add: queueWaterAt_def)

lemma chunks_queueWaterAround [simp]: "chunks (queueWaterAround g x y z) = chunks g"
  by (simp add: queueWaterAround_def Let_def)

lemma chunks_checkRS [simp]: "chunks (checkRS g b) = chunks g"
  by (simp add: checkRS_def)

lemma applyBlockEvent_chunks:
  "chunks (applyBlockEvent g ev) =
     (case map_of (chunks g) (chunkKey (evx ev div CHUNK_SIZE) (evz ev div CHUNK_SIZE)) of
        None \<Rightarrow> chunks g
      | Some chunk \<Rightarrow>
          if evy ev < 0 \<or> evy ev \<ge> CHUNK_HEIGHT then chunks g
          else AList.update (chunkKey (evx ev div CHUNK_SIZE) (evz ev div CHUNK_SIZE))
                 (setBlock chunk (wrapLocal (evx ev)) (evy ev) (wrapLocal (evz ev)) (evtype ev)) (chunks g))"
  by (simp add: applyBlockEvent_def Let_def split: option.splits)

text \<open>
  C7. Applying the same remote block-edit event twice through \<open>applyMultiplayerBlockEvents\<close>
  is idempotent: the second application leaves the chunk table, and so every voxel of every
  loaded chunk, exactly as it was after the first application.
\<close>

theorem remote_edit_idempotent:
  "chunks (applyMultiplayerBlockEvents (applyMultiplayerBlockEvents g [ev]) [ev])
     = chunks (applyMultiplayerBlockEvents g [ev])"
proof (cases "map_of (chunks g) (chunkKey (evx ev div CHUNK_SIZE) (evz ev div CHUNK_SIZE))")
  case None
  then show ?thesis by (simp add: applyMultiplayerBlockEvents_def applyBlockEvent_chunks)
next
  case (Some c)
  then show ?thesis
    by (simp add: applyMultiplayerBlockEvents_def applyBlockEvent_chunks setBlock_idem
          AList.update_conv')
qed


section \<open>Reading after writing\<close>

lemma getBlock_setBlock:
  assumes "wf_chunk c" and "0 \<le> x" "x < 16" "0 \<le> z" "z < 16" and "0 \<le> x'" "x' < 16" "0 \<le> z'" "z' < 16"
    and "0 \<le> y" "y < 80"
  shows "getBlock (setBlock c x y z t) x' y' z'
         = (if x' = x \<and> y' = y \<and> z' = z then t mod 256 else getBlock c x' y' z')"
proof (cases "0 \<le> y' \<and> y' < 80")
  case False
  then have "y' \<noteq> y" using assms by auto
  with False show ?thesis
    using assms by (auto simp add: getBlock_def setBlock_def CHUNK_SIZE_def CHUNK_HEIGHT_def)
next
  case True
  have l: "length (blocks c) = 20480"
    using assms(1) by (simp add: wf_chunk_def CHUNK_SIZE_def CHUNK_HEIGHT_def)
  have i: "0 \<le> getIndex x y z" "getIndex x y z < 20480"
    using getIndex_bounds [of x y z] assms by simp_all
  have i': "0 \<le> getIndex x' y' z'" "getIndex x' y' z' < 20480"
    using getIndex_bounds [of x' y' z'] assms True by simp_all
  show ?thesis
  proof (cases "x' = x \<and> y' = y \<and> z' = z")
    case True
    then show ?thesis
      using assms l i by (simp add: getBlock_def setBlock_def CHUNK_SIZE_def CHUNK_HEIGHT_def)
  next
    case False
    then have "getIndex x y z \<noteq> getIndex x' y' z'"
      using getIndex_inj [of x z x' z' y y'] assms by blast
    then have "nat (getIndex x y z) \<noteq> nat (getIndex x' y' z')" using i i' by simp
    then show ?thesis
      using False assms True
      by (auto simp add: getBlock_def setBlock_def CHUNK_SIZE_def CHUNK_HEIGHT_def)
  qed
qed

lemma same_cell:
  assumes "x div 16 = x' div 16" and "wrapLocal x = wrapLocal x'"
  shows "x = x'"
proof -
  have "x = 16 * (x div 16) + x mod 16" by simp
  also have "\<dots> = 16 * (x' div 16) + x' mod 16" using assms by (simp add: wrapLocal_mod)
  also have "\<dots> = x'" by simp
  finally show ?thesis .
qed

lemma getBlockAtLoaded_update_same:
  assumes "map_of cs (chunkKey (x div CHUNK_SIZE) (z div CHUNK_SIZE)) = Some c" and "wf_chunk c"
    and "0 \<le> y" "y < CHUNK_HEIGHT"
  shows "getBlockAtLoaded
           (AList.update (chunkKey (x div CHUNK_SIZE) (z div CHUNK_SIZE))
              (setBlock c (wrapLocal x) y (wrapLocal z) t) cs) x y z = t mod 256"
proof -
  have r: "0 \<le> wrapLocal x" "wrapLocal x < 16" "0 \<le> wrapLocal z" "wrapLocal z < 16"
    using wrapLocal_range by simp_all
  have y: "0 \<le> y" "y < 80" using assms by (simp_all add: CHUNK_HEIGHT_def)
  have "getBlock (setBlock c (wrapLocal x) y (wrapLocal z) t) (wrapLocal x) y (wrapLocal z) = t mod 256"
    using getBlock_setBlock [OF assms(2) r r y, of t y] by simp
  then show ?thesis
    using assms y by (simp add: getBlockAtLoaded_def AList.update_conv' CHUNK_HEIGHT_def)
qed

lemma getBlock_setBlock_other:
  assumes "0 \<le> x" "x < 16" "0 \<le> z" "z < 16" and "0 \<le> x'" "x' < 16" "0 \<le> z'" "z' < 16"
    and "\<not> (x' = x \<and> y' = y \<and> z' = z)"
  shows "getBlock (setBlock c x y z t) x' y' z' = getBlock c x' y' z'"
proof (cases "0 \<le> y \<and> y < 80 \<and> 0 \<le> y' \<and> y' < 80")
  case False
  then show ?thesis
    by (auto simp add: getBlock_def setBlock_def CHUNK_SIZE_def CHUNK_HEIGHT_def)
next
  case True
  have i: "0 \<le> getIndex x y z" using getIndex_bounds [of x y z] assms True by simp
  have i': "0 \<le> getIndex x' y' z'" using getIndex_bounds [of x' y' z'] assms True by simp
  have "getIndex x y z \<noteq> getIndex x' y' z'"
    using getIndex_inj [of x z x' z' y y'] assms by blast
  then have "nat (getIndex x y z) \<noteq> nat (getIndex x' y' z')" using i i' by simp
  then show ?thesis
    by (simp add: getBlock_def setBlock_def)
qed

lemma getBlockAtLoaded_update_other:
  assumes "map_of cs (chunkKey (x div CHUNK_SIZE) (z div CHUNK_SIZE)) = Some c"
    and "\<not> (x' = x \<and> y' = y \<and> z' = z)"
  shows "getBlockAtLoaded
           (AList.update (chunkKey (x div CHUNK_SIZE) (z div CHUNK_SIZE))
              (setBlock c (wrapLocal x) y (wrapLocal z) t) cs) x' y' z'
         = getBlockAtLoaded cs x' y' z'"
proof (cases "chunkKey (x' div CHUNK_SIZE) (z' div CHUNK_SIZE) = chunkKey (x div CHUNK_SIZE) (z div CHUNK_SIZE)")
  case False
  then show ?thesis
    by (simp add: getBlockAtLoaded_def AList.update_conv')
next
  case True
  then have d: "x' div 16 = x div 16" "z' div 16 = z div 16"
    by (simp_all add: chunkKey_def CHUNK_SIZE_def)
  have r: "0 \<le> wrapLocal x" "wrapLocal x < 16" "0 \<le> wrapLocal z" "wrapLocal z < 16"
          "0 \<le> wrapLocal x'" "wrapLocal x' < 16" "0 \<le> wrapLocal z'" "wrapLocal z' < 16"
    using wrapLocal_range by simp_all
  have e: "\<not> (wrapLocal x' = wrapLocal x \<and> y' = y \<and> wrapLocal z' = wrapLocal z)"
    using d same_cell [of x' x] same_cell [of z' z] assms(2) by auto
  have "getBlock (setBlock c (wrapLocal x) y (wrapLocal z) t) (wrapLocal x') y' (wrapLocal z')
        = getBlock c (wrapLocal x') y' (wrapLocal z')"
    using r e by (rule getBlock_setBlock_other)
  then show ?thesis
    using True assms(1) by (simp add: getBlockAtLoaded_def AList.update_conv')
qed

lemma getBlockAt_update_other:
  assumes "map_of cs (chunkKey (x div CHUNK_SIZE) (z div CHUNK_SIZE)) = Some c"
    and "\<not> (x' = x \<and> y' = y \<and> z' = z)"
  shows "getBlockAt
           (AList.update (chunkKey (x div CHUNK_SIZE) (z div CHUNK_SIZE))
              (setBlock c (wrapLocal x) y (wrapLocal z) t) cs) x' y' z'
         = getBlockAt cs x' y' z'"
proof (cases "chunkKey (x' div CHUNK_SIZE) (z' div CHUNK_SIZE) = chunkKey (x div CHUNK_SIZE) (z div CHUNK_SIZE)")
  case False
  then show ?thesis
    by (simp add: getBlockAt_def AList.update_conv')
next
  case True
  then have d: "x' div 16 = x div 16" "z' div 16 = z div 16"
    by (simp_all add: chunkKey_def CHUNK_SIZE_def)
  have r: "0 \<le> wrapLocal x" "wrapLocal x < 16" "0 \<le> wrapLocal z" "wrapLocal z < 16"
          "0 \<le> wrapLocal x'" "wrapLocal x' < 16" "0 \<le> wrapLocal z'" "wrapLocal z' < 16"
    using wrapLocal_range by simp_all
  have e: "\<not> (wrapLocal x' = wrapLocal x \<and> y' = y \<and> wrapLocal z' = wrapLocal z)"
    using d same_cell [of x' x] same_cell [of z' z] assms(2) by auto
  have "getBlock (setBlock c (wrapLocal x) y (wrapLocal z) t) (wrapLocal x') y' (wrapLocal z')
        = getBlock c (wrapLocal x') y' (wrapLocal z')"
    using r e by (rule getBlock_setBlock_other)
  then show ?thesis
    using True assms(1) by (simp add: getBlockAt_def AList.update_conv')
qed

lemma getBlockAt_update_same:
  assumes "map_of cs (chunkKey (x div CHUNK_SIZE) (z div CHUNK_SIZE)) = Some c" and "wf_chunk c"
    and "0 \<le> y" "y < CHUNK_HEIGHT"
  shows "getBlockAt
           (AList.update (chunkKey (x div CHUNK_SIZE) (z div CHUNK_SIZE))
              (setBlock c (wrapLocal x) y (wrapLocal z) t) cs) x y z = t mod 256"
proof -
  have r: "0 \<le> wrapLocal x" "wrapLocal x < 16" "0 \<le> wrapLocal z" "wrapLocal z < 16"
    using wrapLocal_range by simp_all
  have y: "0 \<le> y" "y < 80" using assms by (simp_all add: CHUNK_HEIGHT_def)
  have "getBlock (setBlock c (wrapLocal x) y (wrapLocal z) t) (wrapLocal x) y (wrapLocal z) = t mod 256"
    using getBlock_setBlock [OF assms(2) r r y, of t y] by simp
  then show ?thesis
    using assms y by (simp add: getBlockAt_def AList.update_conv' CHUNK_HEIGHT_def)
qed

lemma loaded_eq:
  "getBlockAtLoaded cs x y z \<noteq> AIR \<Longrightarrow> getBlockAt cs x y z = getBlockAtLoaded cs x y z"
  by (simp add: getBlockAt_def getBlockAtLoaded_def split: if_splits option.splits)

lemma loaded_eq':
  "map_of cs (chunkKey (x div CHUNK_SIZE) (z div CHUNK_SIZE)) = Some c
   \<Longrightarrow> getBlockAt cs x y z = getBlockAtLoaded cs x y z"
  by (simp add: getBlockAt_def getBlockAtLoaded_def)

section \<open>BEDROCK survives every destruction\<close>

lemma clearCell_other:
  assumes "p \<noteq> (qx, qy, qz)"
  shows "getBlockAtLoaded (clearCell cs p) qx qy qz = getBlockAtLoaded cs qx qy qz"
proof -
  obtain x y z where p: "p = (x, y, z)" by (cases p) auto
  show ?thesis
  proof (cases "map_of cs (chunkKey (x div CHUNK_SIZE) (z div CHUNK_SIZE))")
    case None
    then show ?thesis by (simp add: clearCell_def p)
  next
    case (Some c)
    have "\<not> (qx = x \<and> qy = y \<and> qz = z)" using assms p by auto
    then show ?thesis
      using getBlockAtLoaded_update_other [OF Some, of qx qy y qz AIR]
      by (simp add: clearCell_def p Some)
  qed
qed

lemma foldl_clearCell_other:
  "(qx, qy, qz) \<notin> set ps
   \<Longrightarrow> getBlockAtLoaded (foldl clearCell cs ps) qx qy qz = getBlockAtLoaded cs qx qy qz"
proof (induction ps arbitrary: cs)
  case Nil
  then show ?case by simp
next
  case (Cons p ps)
  then have "p \<noteq> (qx, qy, qz)" and "(qx, qy, qz) \<notin> set ps" by auto
  then show ?case using Cons.IH [of "clearCell cs p"] by (simp add: clearCell_other)
qed

lemma collapseScan_tree:
  "p \<in> set (collapseScan cs queue visited toRemove)
   \<Longrightarrow> p \<in> set toRemove \<or> isTreeBlock (case p of (x, y, z) \<Rightarrow> getBlockAtLoaded cs x y z)"
proof (induction cs queue visited toRemove rule: collapseScan.induct)
  case (1 cs queue visited toRemove)
  show ?case
  proof (cases "queue \<noteq> [] \<and> length visited < 200")
    case False
    then have "collapseScan cs queue visited toRemove = toRemove"
      by (subst collapseScan.simps) auto
    then show ?thesis using "1.prems" by simp
  next
    case go: True
    show ?thesis
    proof (cases "hd queue \<in> set visited")
      case True
      then have "collapseScan cs queue visited toRemove = collapseScan cs (tl queue) visited toRemove"
        using go by (simp add: collapseScan.simps [of cs queue] Let_def)
      then show ?thesis using "1.IH"(1) [OF go refl refl True] "1.prems" by simp
    next
      case nv: False
      let ?b = "case hd queue of (x, y, z) \<Rightarrow> getBlockAtLoaded cs x y z"
      show ?thesis
      proof (cases "isTreeBlock ?b")
        case True
        then have "collapseScan cs queue visited toRemove
                   = collapseScan cs (tl queue @ neighbours6 (hd queue)) (visited @ [hd queue])
                       (toRemove @ [hd queue])"
          using go nv by (simp add: collapseScan.simps [of cs queue] Let_def)
        then have "p \<in> set (toRemove @ [hd queue])
                   \<or> isTreeBlock (case p of (x, y, z) \<Rightarrow> getBlockAtLoaded cs x y z)"
          using "1.IH"(2) [OF go refl refl nv refl refl True] "1.prems" by simp
        then show ?thesis using True by auto
      next
        case False
        then have "collapseScan cs queue visited toRemove
                   = collapseScan cs (tl queue) (visited @ [hd queue]) toRemove"
          using go nv by (simp add: collapseScan.simps [of cs queue] Let_def)
        then show ?thesis
          using "1.IH"(3) [OF go refl refl nv refl refl False] "1.prems" by simp
      qed
    qed
  qed
qed


lemma BEDROCK_not_tree: "\<not> isTreeBlock BEDROCK"
  by (simp add: isTreeBlock_def BEDROCK_def WOOD_def LOG_BIRCH_def LEAVES_def LEAVES_BIRCH_def)

lemma collapseTree_keeps_bedrock:
  assumes "getBlockAtLoaded (chunks g) qx qy qz = BEDROCK"
  shows "getBlockAtLoaded (chunks (collapseTree g wx wy wz)) qx qy qz = BEDROCK"
proof -
  have "(qx, qy, qz) \<notin> set (collapseScan (chunks g) [(wx, wy, wz)] [] [])"
    using collapseScan_tree [of "(qx, qy, qz)" "chunks g" "[(wx, wy, wz)]" "[]" "[]"] assms
      BEDROCK_not_tree by auto
  then show ?thesis
    using assms by (simp add: collapseTree_def Let_def foldl_clearCell_other)
qed

lemma chunks_clearBreakState [simp]: "chunks (clearBreakState g) = chunks g"
  by (simp add: clearBreakState_def)

lemma getBlock_eq_loaded:
  "map_of cs (chunkKey (x div CHUNK_SIZE) (z div CHUNK_SIZE)) = Some c
   \<Longrightarrow> getBlock c (wrapLocal x) y (wrapLocal z) = getBlockAtLoaded cs x y z"
  by (simp add: getBlockAtLoaded_def getBlock_def)

lemma finishBreakingBlock_keeps_bedrock:
  assumes q: "getBlockAtLoaded (chunks g) qx qy qz = BEDROCK"
    and c: "map_of (chunks g) (chunkKey (px div CHUNK_SIZE) (pz div CHUNK_SIZE)) = Some c"
    and e: "getBlockAtLoaded (chunks g) px py pz \<noteq> BEDROCK"
  shows "getBlockAtLoaded
           (chunks (finishBreakingBlock g px py pz c (wrapLocal px) (wrapLocal pz) existing))
           qx qy qz = BEDROCK"
proof -
  let ?cs = "AList.update (chunkKey (px div CHUNK_SIZE) (pz div CHUNK_SIZE))
               (setBlock c (wrapLocal px) py (wrapLocal pz) AIR) (chunks g)"
  have ne: "\<not> (qx = px \<and> qy = py \<and> qz = pz)" using q e by auto
  have s: "getBlockAtLoaded ?cs qx qy qz = BEDROCK"
    using getBlockAtLoaded_update_other [OF c ne, of AIR] q by simp
  show ?thesis
    using s collapseTree_keeps_bedrock
    by (simp add: finishBreakingBlock_def Let_def)
qed

lemma breakBlock_keeps_bedrock:
  assumes q: "getBlockAtLoaded (chunks g) qx qy qz = BEDROCK"
  shows "getBlockAtLoaded (chunks (breakBlock now inc g)) qx qy qz = BEDROCK"
proof (cases "crosshairTarget g")
  case None
  then show ?thesis using q by (simp add: breakBlock_def)
next
  case (Some p)
  obtain px py pz where p: "p = (px, py, pz)" by (cases p) auto
  show ?thesis
  proof (cases "map_of (chunks g) (chunkKey (px div CHUNK_SIZE) (pz div CHUNK_SIZE))")
    case None
    then show ?thesis using q Some p by (simp add: breakBlock_def)
  next
    case c: (Some c)
    have ex: "getBlock c (wrapLocal px) py (wrapLocal pz) = getBlockAtLoaded (chunks g) px py pz"
      using c by (rule getBlock_eq_loaded)
    show ?thesis
    proof (cases "getBlockAtLoaded (chunks g) px py pz = AIR \<or> getBlockAtLoaded (chunks g) px py pz = BEDROCK")
      case True
      then show ?thesis using q Some p c ex by (auto simp add: breakBlock_def Let_def)
    next
      case False
      then have nb: "getBlockAtLoaded (chunks g) px py pz \<noteq> BEDROCK" by simp
      have f: "\<And>g'. chunks g' = chunks g \<Longrightarrow>
                 getBlockAtLoaded (chunks (finishBreakingBlock g' px py pz c (wrapLocal px) (wrapLocal pz)
                    (getBlockAtLoaded (chunks g) px py pz))) qx qy qz = BEDROCK"
        using finishBreakingBlock_keeps_bedrock q c nb by simp
      show ?thesis
        using False q Some p c ex f by (simp add: breakBlock_def Let_def)
    qed
  qed
qed

lemma breakBlock_bedrock_target:
  assumes "crosshairTarget g = Some (px, py, pz)"
    and "getBlockAtLoaded (chunks g) px py pz = BEDROCK"
  shows "breakBlock now inc g = g"
proof -
  obtain c where c: "map_of (chunks g) (chunkKey (px div CHUNK_SIZE) (pz div CHUNK_SIZE)) = Some c"
    using assms(2)
    by (cases "map_of (chunks g) (chunkKey (px div CHUNK_SIZE) (pz div CHUNK_SIZE))")
       (auto simp add: getBlockAtLoaded_def AIR_def BEDROCK_def split: if_splits)
  have "getBlock c (wrapLocal px) py (wrapLocal pz) = BEDROCK"
    using getBlock_eq_loaded [OF c] assms(2) by simp
  then show ?thesis
    using assms(1) c by (simp add: breakBlock_def Let_def AIR_def BEDROCK_def)
qed

lemma explodeCell_keeps_bedrock:
  assumes q: "getBlockAtLoaded (chunks g) qx qy qz = BEDROCK"
  shows "getBlockAtLoaded (chunks (explodeCell x y z g d)) qx qy qz = BEDROCK"
proof -
  obtain dx dy dz where d: "d = (dx, dy, dz)" by (cases d) auto
  let ?k = "chunkKey ((x + dx) div CHUNK_SIZE) ((z + dz) div CHUNK_SIZE)"
  show ?thesis
  proof (cases "getBlockAtLoaded (chunks g) (x + dx) (y + dy) (z + dz) \<noteq> BEDROCK \<and> map_of (chunks g) ?k \<noteq> None")
    case False
    then show ?thesis using q by (auto simp add: explodeCell_def d Let_def)
  next
    case True
    then obtain c where c: "map_of (chunks g) ?k = Some c" by auto
    have ne: "\<not> (qx = x + dx \<and> qy = y + dy \<and> qz = z + dz)" using q True by auto
    have "getBlockAtLoaded (AList.update ?k (setBlock c (wrapLocal (x + dx)) (y + dy) (wrapLocal (z + dz)) AIR) (chunks g)) qx qy qz = BEDROCK"
      using getBlockAtLoaded_update_other [OF c ne, of AIR] q by simp
    then show ?thesis using q c by (simp add: explodeCell_def d Let_def)
  qed
qed

lemma explodeTNT_keeps_bedrock:
  assumes "getBlockAtLoaded (chunks g) qx qy qz = BEDROCK"
  shows "getBlockAtLoaded (chunks (explodeTNT g x y z)) qx qy qz = BEDROCK"
proof -
  have "\<And>g. getBlockAtLoaded (chunks g) qx qy qz = BEDROCK
          \<Longrightarrow> getBlockAtLoaded (chunks (foldl (explodeCell x y z) g ds)) qx qy qz = BEDROCK" for ds
    by (induction ds) (simp_all add: explodeCell_keeps_bedrock)
  then show ?thesis using assms by (simp add: explodeTNT_def)
qed


lemma setLoadedBlockFast_other:
  assumes "\<not> (qx = x \<and> qy = y \<and> qz = z)"
  shows "getBlockAtLoaded (snd (setLoadedBlockFast cs x y z t)) qx qy qz = getBlockAtLoaded cs qx qy qz"
proof (cases "map_of cs (chunkKey (x div CHUNK_SIZE) (z div CHUNK_SIZE))")
  case None
  then show ?thesis by (simp add: setLoadedBlockFast_def Let_def)
next
  case (Some c)
  then show ?thesis
    using getBlockAtLoaded_update_other [OF Some assms, of t]
    by (simp add: setLoadedBlockFast_def Let_def)
qed

lemma setLoadedBlockFast_unchanged:
  "fst (setLoadedBlockFast cs x y z t) = None \<or> fst (setLoadedBlockFast cs x y z t) = Some t
   \<Longrightarrow> snd (setLoadedBlockFast cs x y z t) = cs"
  by (auto simp add: setLoadedBlockFast_def Let_def split: option.splits if_splits)

lemma chunks_setBlockAt_AIR:
  "chunks (setBlockAt g x y z AIR) = snd (setLoadedBlockFast (chunks g) x y z AIR)"
proof (cases "setLoadedBlockFast (chunks g) x y z AIR")
  case (Pair prev cs)
  show ?thesis
  proof (cases "prev = None \<or> prev = Some AIR")
    case True
    then have "snd (setLoadedBlockFast (chunks g) x y z AIR) = chunks g"
      using setLoadedBlockFast_unchanged [of "chunks g" x y z AIR] Pair by simp
    then show ?thesis
      using True Pair by (auto simp add: setBlockAt.simps [of g x y z AIR])
  next
    case False
    then obtain b where b: "prev = Some b" "b \<noteq> AIR" by (cases prev) auto
    then show ?thesis
      using Pair
      by (subst setBlockAt.simps)
         (simp add: Let_def shouldBlockFall_def AIR_def SAND_def GRAVEL_def ANVIL_def WATER_def)
  qed
qed

lemma blastCell_keeps_bedrock:
  assumes q: "getBlockAtLoaded (chunks g) qx qy qz = BEDROCK"
  shows "getBlockAtLoaded (chunks (blastCell x y z pwr g d)) qx qy qz = BEDROCK"
proof -
  obtain dx dy dz where d: "d = (dx, dy, dz)" by (cases d) auto
  have "getBlockAtLoaded (chunks g) qx qy qz \<noteq> AIR" using q by (simp add: AIR_def BEDROCK_def)
  then have qa: "getBlockAt (chunks g) qx qy qz = BEDROCK" using loaded_eq q by simp
  show ?thesis
  proof (cases "getBlockAt (chunks g) (x + dx) (y + dy) (z + dz) = BEDROCK")
    case True
    then show ?thesis using q by (simp add: blastCell_def d Let_def)
  next
    case False
    then have ne: "\<not> (qx = x + dx \<and> qy = y + dy \<and> qz = z + dz)" using qa by auto
    then have "getBlockAtLoaded (chunks (setBlockAt g (x + dx) (y + dy) (z + dz) AIR)) qx qy qz = BEDROCK"
      using q by (simp add: chunks_setBlockAt_AIR setLoadedBlockFast_other)
    then show ?thesis using q by (simp add: blastCell_def d Let_def)
  qed
qed

lemma createExplosion_keeps_bedrock:
  assumes "getBlockAtLoaded (chunks g) qx qy qz = BEDROCK"
  shows "getBlockAtLoaded (chunks (createExplosion g x y z pwr)) qx qy qz = BEDROCK"
proof -
  have "\<And>g. getBlockAtLoaded (chunks g) qx qy qz = BEDROCK
          \<Longrightarrow> getBlockAtLoaded (chunks (foldl (blastCell x y z pwr) g ds)) qx qy qz = BEDROCK" for ds
    by (induction ds) (simp_all add: blastCell_keeps_bedrock)
  then show ?thesis using assms by (simp add: createExplosion_def)
qed

text \<open>
  C10. No destruction operation removes BEDROCK: \<open>breakBlock\<close> returns without changing
  anything when its target is BEDROCK, and a cell that holds BEDROCK still holds it after
  \<open>breakBlock\<close>, after the TNT explosion and after the physics engine's explosion, wherever
  they are centred.
\<close>

theorem bedrock_is_indestructible:
  assumes "getBlockAtLoaded (chunks g) qx qy qz = BEDROCK"
  shows "getBlockAtLoaded (chunks (breakBlock now inc g)) qx qy qz = BEDROCK
       \<and> (crosshairTarget g = Some (qx, qy, qz) \<longrightarrow> breakBlock now inc g = g)
       \<and> getBlockAtLoaded (chunks (explodeTNT g x y z)) qx qy qz = BEDROCK
       \<and> getBlockAtLoaded (chunks (createExplosion g x y z pwr)) qx qy qz = BEDROCK"
  using assms breakBlock_keeps_bedrock [OF assms] breakBlock_bedrock_target [of g qx qy qz]
    explodeTNT_keeps_bedrock [OF assms] createExplosion_keeps_bedrock [OF assms]
  by simp

theorem bedrock_is_indestructible_witness:
  "getBlockAtLoaded (chunks (newGameRenderer\<lparr>chunks := [((0, 0), bedrockFloor)], crosshairTarget := Some (3, 0, 5)\<rparr>)) 3 0 5 = BEDROCK
   \<and> breakBlock 0 (\<lambda>b. 1) (newGameRenderer\<lparr>chunks := [((0, 0), bedrockFloor)], crosshairTarget := Some (3, 0, 5)\<rparr>)
       = newGameRenderer\<lparr>chunks := [((0, 0), bedrockFloor)], crosshairTarget := Some (3, 0, 5)\<rparr>
   \<and> getBlockAtLoaded (chunks (explodeTNT (newGameRenderer\<lparr>chunks := [((0, 0), bedrockFloor)], crosshairTarget := Some (3, 0, 5)\<rparr>) 3 1 5)) 3 0 5 = BEDROCK
   \<and> getBlockAtLoaded (chunks (createExplosion (newGameRenderer\<lparr>chunks := [((0, 0), bedrockFloor)], crosshairTarget := Some (3, 0, 5)\<rparr>) 3 1 5 4)) 3 0 5 = BEDROCK"
proof -
  let ?g = "newGameRenderer\<lparr>chunks := [((0, 0), bedrockFloor)], crosshairTarget := Some (3, 0, 5)\<rparr>"
  have h: "getBlockAtLoaded (chunks ?g) 3 0 5 = BEDROCK"
    by (simp add: getBlockAtLoaded_def getBlock_def chunkKey_def wrapLocal_mod getIndex_def
          CHUNK_SIZE_def CHUNK_HEIGHT_def bedrockFloor_def nth_append)
  have t: "crosshairTarget ?g = Some (3, 0, 5)" by simp
  show ?thesis
    using bedrock_is_indestructible [OF h, of 0 "\<lambda>b. 1" 3 1 5 4] h t by simp
qed

section \<open>Gravity-affected blocks in the edit protocol\<close>

lemma wf_chunk_setBlock [simp]: "wf_chunk (setBlock c x y z t) = wf_chunk c"
  by (simp add: wf_chunk_def setBlock_def)

lemma fallingBlocks_checkRS [simp]: "fallingBlocks (checkRS g b) = fallingBlocks g"
  by (simp add: checkRS_def)

lemma fallingBlocks_queueWaterAt [simp]: "fallingBlocks (queueWaterAt g x y z) = fallingBlocks g"
  by (simp add: queueWaterAt_def)

lemma fallingBlocks_queueWaterAround [simp]: "fallingBlocks (queueWaterAround g x y z) = fallingBlocks g"
  by (simp add: queueWaterAround_def Let_def)

lemma fallingBlocks_setBlockAt_AIR: "fallingBlocks (setBlockAt g x y z AIR) = fallingBlocks g"
proof (cases "setLoadedBlockFast (chunks g) x y z AIR")
  case (Pair prev cs)
  show ?thesis
  proof (cases "prev = None \<or> prev = Some AIR")
    case True
    then show ?thesis
      using Pair by (auto simp add: setBlockAt.simps [of g x y z AIR])
  next
    case False
    then obtain b where b: "prev = Some b" "b \<noteq> AIR" by (cases prev) auto
    then show ?thesis
      using Pair
      by (subst setBlockAt.simps)
         (simp add: Let_def shouldBlockFall_def AIR_def SAND_def GRAVEL_def ANVIL_def WATER_def)
  qed
qed

lemma setLoadedBlockFast_AIR_reads_AIR:
  assumes "\<And>c. map_of cs (chunkKey (x div CHUNK_SIZE) (z div CHUNK_SIZE)) = Some c \<Longrightarrow> wf_chunk c"
  shows "getBlockAtLoaded (snd (setLoadedBlockFast cs x y z AIR)) x y z = AIR"
proof (cases "y < 0 \<or> y \<ge> CHUNK_HEIGHT")
  case True
  then show ?thesis by (auto simp add: getBlockAtLoaded_def)
next
  case y: False
  show ?thesis
  proof (cases "map_of cs (chunkKey (x div CHUNK_SIZE) (z div CHUNK_SIZE))")
    case None
    then show ?thesis by (simp add: setLoadedBlockFast_def Let_def getBlockAtLoaded_def)
  next
    case (Some c)
    then have w: "wf_chunk c" by (rule assms)
    have yy: "0 \<le> y" "y < CHUNK_HEIGHT" using y by simp_all
    show ?thesis
    proof (cases "getBlock c (wrapLocal x) y (wrapLocal z) = AIR")
      case True
      then show ?thesis
        using Some y getBlock_eq_loaded [OF Some, of y]
        by (simp add: setLoadedBlockFast_def Let_def)
    next
      case False
      then show ?thesis
        using Some y getBlockAtLoaded_update_same [OF Some w yy, of AIR]
        by (simp add: setLoadedBlockFast_def Let_def AIR_def)
    qed
  qed
qed

lemma loaded_setLoadedBlockFast:
  "map_of (snd (setLoadedBlockFast cs x y z t)) k = None \<longleftrightarrow> map_of cs k = None"
  by (auto simp add: setLoadedBlockFast_def Let_def AList.update_conv' split: option.splits if_splits)

text \<open>
  What \<open>setBlockAt\<close> does with a gravity-affected block that changes the stored voxel: it
  spawns one falling-block entity and leaves the cell AIR. The block below is never read.
\<close>

lemma setBlockAt_gravity_block:
  assumes c: "map_of (chunks g) (chunkKey (x div CHUNK_SIZE) (z div CHUNK_SIZE)) = Some c"
    and w: "wf_chunk c" and y: "0 \<le> y" "y < CHUNK_HEIGHT"
    and f: "shouldBlockFall t" and n: "getBlockAtLoaded (chunks g) x y z \<noteq> t"
  shows "fallingBlocks (setBlockAt g x y z t)
           = fallingBlocks g @ [\<lparr>fbPosition = (of_int x + 1 / 2, of_int y + 1 / 2, of_int z + 1 / 2),
                                  fbVelocity = (0, 0, 0), fbBlockType = t, fbLifetime = 0\<rparr>]
         \<and> getBlockAt (chunks (setBlockAt g x y z t)) x y z = AIR"
proof -
  let ?k = "chunkKey (x div CHUNK_SIZE) (z div CHUNK_SIZE)"
  let ?cs = "AList.update ?k (setBlock c (wrapLocal x) y (wrapLocal z) t) (chunks g)"
  have p: "getBlock c (wrapLocal x) y (wrapLocal z) \<noteq> t"
    using getBlock_eq_loaded [OF c, of y] n by simp
  have s: "setLoadedBlockFast (chunks g) x y z t = (Some (getBlock c (wrapLocal x) y (wrapLocal z)), ?cs)"
    using c y p by (simp add: setLoadedBlockFast_def Let_def)
  have m: "\<And>c'. map_of ?cs ?k = Some c' \<Longrightarrow> wf_chunk c'"
    using w by (auto simp add: AList.update_conv')
  have a: "getBlockAtLoaded (snd (setLoadedBlockFast ?cs x y z AIR)) x y z = AIR"
    using m by (rule setLoadedBlockFast_AIR_reads_AIR)
  have "map_of (snd (setLoadedBlockFast ?cs x y z AIR)) ?k \<noteq> None"
    by (simp add: loaded_setLoadedBlockFast AList.update_conv')
  then obtain c' where "map_of (snd (setLoadedBlockFast ?cs x y z AIR)) ?k = Some c'" by auto
  then have a': "getBlockAt (snd (setLoadedBlockFast ?cs x y z AIR)) x y z = AIR"
    using a loaded_eq' by simp
  have tw: "t \<noteq> WATER"
    using f by (auto simp add: shouldBlockFall_def WATER_def SAND_def GRAVEL_def ANVIL_def)
  show ?thesis
    using s p f a' tw
    by (subst (1 2) setBlockAt.simps)
       (simp add: Let_def makeFallingBlock.simps fallingBlocks_setBlockAt_AIR chunks_setBlockAt_AIR)
qed

lemmas eval_defs = getBlockAt_def getBlockAtLoaded_def getBlock_def chunkKey_def
  wrapLocal_mod getIndex_def CHUNK_SIZE_def CHUNK_HEIGHT_def nth_append

text \<open>
  C2. The claim is that \<open>setBlockAt\<close> spawns a falling-block entity exactly when the new block
  is gravity-affected and unsupported. The code never looks at the cell below: SAND put on
  solid STONE is turned into a falling-block entity as well, and its cell is set back to AIR.
\<close>

theorem supported_sand_still_falls:
  "getBlockAt [((0, 0), stoneFloor)] 3 0 5 = STONE
   \<and> fallingBlocks (setBlockAt (newGameRenderer\<lparr>chunks := [((0, 0), stoneFloor)]\<rparr>) 3 1 5 SAND)
       = [\<lparr>fbPosition = (7 / 2, 3 / 2, 11 / 2), fbVelocity = (0, 0, 0), fbBlockType = SAND, fbLifetime = 0\<rparr>]
   \<and> getBlockAt (chunks (setBlockAt (newGameRenderer\<lparr>chunks := [((0, 0), stoneFloor)]\<rparr>) 3 1 5 SAND)) 3 1 5 = AIR"
proof -
  let ?g = "newGameRenderer\<lparr>chunks := [((0, 0), stoneFloor)]\<rparr>"
  have c: "map_of (chunks ?g) (chunkKey (3 div CHUNK_SIZE) (5 div CHUNK_SIZE)) = Some stoneFloor"
    by (simp add: chunkKey_def CHUNK_SIZE_def)
  have w: "wf_chunk stoneFloor"
    by (simp add: wf_chunk_def stoneFloor_def CHUNK_SIZE_def CHUNK_HEIGHT_def)
  have y: "(0::int) \<le> 1" "(1::int) < CHUNK_HEIGHT" by (simp_all add: CHUNK_HEIGHT_def)
  have f: "shouldBlockFall SAND" by (simp add: shouldBlockFall_def)
  have n: "getBlockAtLoaded (chunks ?g) 3 1 5 \<noteq> SAND"
    by (simp add: eval_defs stoneFloor_def AIR_def SAND_def)
  have b: "getBlockAt [((0, 0), stoneFloor)] 3 0 5 = STONE"
    by (simp add: eval_defs stoneFloor_def)
  have e: "fallingBlocks ?g = []" by (simp add: newGameRenderer_def)
  show ?thesis
    using setBlockAt_gravity_block [OF c w y f n] b e by simp
qed

section \<open>One processed water cell\<close>






lemma loaded_setLoadedBlockFast' [simp]:
  "loaded (snd (setLoadedBlockFast cs x y z t)) x' z' = loaded cs x' z'"
  by (simp add: loaded_def loaded_setLoadedBlockFast)







lemma loaded_pour [simp]: "loaded (pour cs n) x z = loaded cs x z"
  by (cases n) (simp add: pour_def)

























section \<open>The source scan of a signal refresh\<close>

lemma chunkCells_product:
  "chunkCells = List.product [0..15] (List.product [0..79] [0..15])"
  by (simp add: chunkCells_def CHUNK_SIZE_def CHUNK_HEIGHT_def product_concat_map map_concat comp_def
        del: upto.simps)

lemma set_chunkCells:
  "(x, y, z) \<in> set chunkCells \<longleftrightarrow> 0 \<le> x \<and> x < 16 \<and> 0 \<le> y \<and> y < 80 \<and> 0 \<le> z \<and> z < 16"
  unfolding chunkCells_product by auto

lemma distinct_chunkCells: "distinct chunkCells"
  unfolding chunkCells_product by (simp add: distinct_product del: upto.simps)

lemma filter_single:
  assumes "distinct xs" and "a \<in> set xs" and "\<And>x. x \<in> set xs \<Longrightarrow> P x \<longleftrightarrow> x = a"
  shows "filter P xs = [a]"
  using assms
proof (induction xs)
  case Nil
  then show ?case by simp
next
  case (Cons x xs)
  show ?case
  proof (cases "x = a")
    case True
    then have "a \<notin> set xs" using Cons.prems(1) by simp
    then have "filter P xs = []" using Cons.prems(3) by (auto simp add: filter_empty_conv)
    then show ?thesis using True Cons.prems(3) [of x] by simp
  next
    case False
    then have "a \<in> set xs" using Cons.prems(2) by simp
    moreover have "distinct xs" using Cons.prems(1) by simp
    ultimately have "filter P xs = [a]" using Cons.IH Cons.prems(3) by simp
    then show ?thesis using False Cons.prems(3) [of x] by simp
  qed
qed

lemma foldl_id: "(\<And>x. x \<in> set xs \<Longrightarrow> f st x = st) \<Longrightarrow> foldl f st xs = st"
  by (induction xs) simp_all

lemma scanSourceCell_none:
  "cellBlock c cell \<notin> emitters \<Longrightarrow> scanSourceCell oa c st cell = st"
  by (cases st; cases cell) (simp add: scanSourceCell_def cellBlock_def emitters_def Let_def)

lemma scanSourceCell_source:
  "cellBlock c cell = REDSTONE_BLOCK \<or> cellBlock c cell = REDSTONE_TORCH
   \<Longrightarrow> scanSourceCell oa c (src, act) cell = (src @ [toWorld c cell], act)"
  by (cases cell) (auto simp add: scanSourceCell_def cellBlock_def toWorld_def Let_def)

lemma scan_chunk_none:
  "(\<And>cell. cell \<in> set cells \<Longrightarrow> cellBlock c cell \<notin> emitters)
   \<Longrightarrow> foldl (scanSourceCell oa c) st cells = st"
  by (rule foldl_id) (simp add: scanSourceCell_none)

lemma scan_chunk_one:
  assumes "distinct cells" and "a \<in> set cells"
    and "cellBlock c a = REDSTONE_BLOCK \<or> cellBlock c a = REDSTONE_TORCH"
    and "\<And>cell. cell \<in> set cells \<Longrightarrow> cell \<noteq> a \<Longrightarrow> cellBlock c cell \<notin> emitters"
  shows "foldl (scanSourceCell oa c) (src, act) cells = (src @ [toWorld c a], act)"
  using assms(1,2,4)
proof (induction cells)
  case Nil
  then show ?case by simp
next
  case (Cons x xs)
  show ?case
  proof (cases "x = a")
    case True
    then have "a \<notin> set xs" using Cons.prems(1) by simp
    then have "\<And>cell. cell \<in> set xs \<Longrightarrow> cellBlock c cell \<notin> emitters"
      using Cons.prems(3) by auto
    then have "foldl (scanSourceCell oa c) (src @ [toWorld c a], act) xs = (src @ [toWorld c a], act)"
      by (rule scan_chunk_none)
    then show ?thesis using True scanSourceCell_source [OF assms(3), of oa src act] by simp
  next
    case False
    then have "cellBlock c x \<notin> emitters" using Cons.prems(3) by simp
    then have "scanSourceCell oa c (src, act) x = (src, act)" by (rule scanSourceCell_none)
    moreover have "foldl (scanSourceCell oa c) (src, act) xs = (src @ [toWorld c a], act)"
      using Cons.IH Cons.prems False by auto
    ultimately show ?thesis by simp
  qed
qed

lemma wf_chunks_entry:
  assumes "wf_chunks cs" and "(k, c) \<in> set cs"
  shows "map_of cs k = Some c" and "k = chunkKey (cx c) (cz c)" and "wf_chunk c"
proof -
  have d: "distinct (map fst cs)" using assms(1) by (simp add: wf_chunks_def)
  show "map_of cs k = Some c" using d assms(2) by (rule map_of_is_SomeI)
  show "k = chunkKey (cx c) (cz c)" and "wf_chunk c"
    using assms unfolding wf_chunks_def by blast+
qed

lemma local_div: "0 \<le> x \<Longrightarrow> x < 16 \<Longrightarrow> (a * 16 + x) div 16 = (a::int)"
  by simp

lemma local_mod: "0 \<le> x \<Longrightarrow> x < 16 \<Longrightarrow> (a * 16 + x) mod 16 = (x::int)"
  by simp

lemma cellBlock_world:
  assumes "wf_chunks cs" and "(k, c) \<in> set cs" and "cell \<in> set chunkCells"
  shows "cellBlock c cell = blockAtPos cs (toWorld c cell)"
proof -
  obtain x y z where cell: "cell = (x, y, z)" by (cases cell) auto
  have r: "0 \<le> x" "x < 16" "0 \<le> y" "y < 80" "0 \<le> z" "z < 16"
    using assms(3) by (simp_all add: cell set_chunkCells)
  have m: "map_of cs (chunkKey (cx c) (cz c)) = Some c"
    using wf_chunks_entry [OF assms(1,2)] by simp
  show ?thesis
    using m r
    by (simp add: cellBlock_def blockAtPos_def toWorld_def cell getBlockAtLoaded_def CHUNK_SIZE_def
          CHUNK_HEIGHT_def wrapLocal_mod local_div local_mod)
qed


lemma toWorld_key:
  assumes "cell \<in> set chunkCells" and "toWorld c cell = (sx, sy, sz)"
  shows "chunkKey (cx c) (cz c) = chunkKey (sx div CHUNK_SIZE) (sz div CHUNK_SIZE)"
    and "cell = (wrapLocal sx, sy, wrapLocal sz)"
proof -
  obtain x y z where cell: "cell = (x, y, z)" by (cases cell) auto
  have r: "0 \<le> x" "x < 16" "0 \<le> z" "z < 16"
    using assms(1) by (simp_all add: cell set_chunkCells)
  have e: "sx = cx c * 16 + x" "sy = y" "sz = cz c * 16 + z"
    using assms(2) by (simp_all add: toWorld_def cell CHUNK_SIZE_def)
  show "chunkKey (cx c) (cz c) = chunkKey (sx div CHUNK_SIZE) (sz div CHUNK_SIZE)"
    using r by (simp add: e CHUNK_SIZE_def local_div)
  show "cell = (wrapLocal sx, sy, wrapLocal sz)"
    using r by (simp add: e cell wrapLocal_mod local_mod)
qed

lemma emitter_not_AIR: "b \<in> emitters \<Longrightarrow> b \<noteq> AIR"
  by (auto simp add: emitters_def BlockType_defs)

lemma scan_other_chunk:
  assumes wf: "wf_chunks cs" and kc: "(k, c) \<in> set cs"
    and k: "k \<noteq> chunkKey (fst s div CHUNK_SIZE) (snd (snd s) div CHUNK_SIZE)"
    and others: "\<And>q. q \<noteq> s \<Longrightarrow> blockAtPos cs q \<notin> emitters"
  shows "foldl (scanSourceCell oa c) st chunkCells = st"
proof (rule scan_chunk_none)
  fix cell assume cell: "cell \<in> set chunkCells"
  obtain sx sy sz where s: "s = (sx, sy, sz)" by (cases s) auto
  have "toWorld c cell \<noteq> s"
  proof
    assume "toWorld c cell = s"
    then have "chunkKey (cx c) (cz c) = chunkKey (sx div CHUNK_SIZE) (sz div CHUNK_SIZE)"
      using toWorld_key(1) [OF cell] s by simp
    then show False using k wf_chunks_entry(2) [OF wf kc] s by simp
  qed
  then have "blockAtPos cs (toWorld c cell) \<notin> emitters" by (rule others)
  then show "cellBlock c cell \<notin> emitters" using cellBlock_world [OF wf kc cell] by simp
qed

lemma scan_source_chunk:
  assumes wf: "wf_chunks cs" and kc: "(k, c) \<in> set cs"
    and k: "k = chunkKey (fst s div CHUNK_SIZE) (snd (snd s) div CHUNK_SIZE)"
    and src: "blockAtPos cs s = REDSTONE_BLOCK \<or> blockAtPos cs s = REDSTONE_TORCH"
    and others: "\<And>q. q \<noteq> s \<Longrightarrow> blockAtPos cs q \<notin> emitters"
  shows "foldl (scanSourceCell oa c) (srcs, act) chunkCells = (srcs @ [s], act)"
proof -
  obtain sx sy sz where s: "s = (sx, sy, sz)" by (cases s) auto
  let ?a = "(wrapLocal sx, sy, wrapLocal sz)"
  have m: "map_of cs (chunkKey (sx div CHUNK_SIZE) (sz div CHUNK_SIZE)) = Some c"
    using wf_chunks_entry(1) [OF wf kc] k s by simp
  have cc: "cx c = sx div 16" "cz c = sz div 16"
    using wf_chunks_entry(2) [OF wf kc] k s by (simp_all add: chunkKey_def CHUNK_SIZE_def)
  have "blockAtPos cs s \<noteq> AIR" using src by (auto simp add: BlockType_defs)
  then have y: "0 \<le> sy" "sy < 80"
    by (auto simp add: blockAtPos_def s getBlockAtLoaded_def CHUNK_HEIGHT_def split: if_splits)
  have a: "?a \<in> set chunkCells" using y wrapLocal_range by (simp add: set_chunkCells)
  have tw: "toWorld c ?a = s" by (simp add: toWorld_def s cc CHUNK_SIZE_def wrapLocal_mod)
  have ba: "cellBlock c ?a = REDSTONE_BLOCK \<or> cellBlock c ?a = REDSTONE_TORCH"
    using cellBlock_world [OF wf kc a] tw src by simp
  have oth: "\<And>cell. cell \<in> set chunkCells \<Longrightarrow> cell \<noteq> ?a \<Longrightarrow> cellBlock c cell \<notin> emitters"
  proof -
    fix cell assume cell: "cell \<in> set chunkCells" and ne: "cell \<noteq> ?a"
    have "toWorld c cell \<noteq> s"
    proof
      assume "toWorld c cell = s"
      then have "cell = ?a" using toWorld_key(2) [OF cell] s by simp
      then show False using ne by simp
    qed
    then have "blockAtPos cs (toWorld c cell) \<notin> emitters" by (rule others)
    then show "cellBlock c cell \<notin> emitters" using cellBlock_world [OF wf kc cell] by simp
  qed
  show ?thesis
    using scan_chunk_one [OF distinct_chunkCells a ba oth, of oa srcs act] tw by simp
qed

lemma scan_world_gen:
  assumes wf: "wf_chunks cs"
    and src: "blockAtPos cs s = REDSTONE_BLOCK \<or> blockAtPos cs s = REDSTONE_TORCH"
    and others: "\<And>q. q \<noteq> s \<Longrightarrow> blockAtPos cs q \<notin> emitters"
    and sub: "set xs \<subseteq> set cs" and dist: "distinct (map fst xs)"
  shows "foldl (\<lambda>st kc. foldl (scanSourceCell oa (snd kc)) st chunkCells) (srcs, act) xs
         = (if chunkKey (fst s div CHUNK_SIZE) (snd (snd s) div CHUNK_SIZE) \<in> fst ` set xs
            then (srcs @ [s], act) else (srcs, act))"
  using sub dist
proof (induction xs arbitrary: srcs act)
  case Nil
  then show ?case by simp
next
  case (Cons kc xs)
  obtain k c where kc: "kc = (k, c)" by (cases kc) auto
  have mem: "(k, c) \<in> set cs" using Cons.prems(1) kc by simp
  have sub': "set xs \<subseteq> set cs" and dist': "distinct (map fst xs)" and kn: "k \<notin> fst ` set xs"
    using Cons.prems kc by auto
  let ?K = "chunkKey (fst s div CHUNK_SIZE) (snd (snd s) div CHUNK_SIZE)"
  show ?case
  proof (cases "k = ?K")
    case True
    have "foldl (scanSourceCell oa c) (srcs, act) chunkCells = (srcs @ [s], act)"
      using wf mem True src others by (rule scan_source_chunk)
    moreover have "?K \<notin> fst ` set xs" using kn True by simp
    ultimately show ?thesis
      using Cons.IH [OF sub' dist', of "srcs @ [s]" act] True by (simp add: kc)
  next
    case False
    have "foldl (scanSourceCell oa c) (srcs, act) chunkCells = (srcs, act)"
      using wf mem False others by (rule scan_other_chunk)
    then show ?thesis
      using Cons.IH [OF sub' dist', of srcs act] False by (simp add: kc)
  qed
qed

lemma scan_world:
  assumes wf: "wf_chunks cs"
    and src: "blockAtPos cs s = REDSTONE_BLOCK \<or> blockAtPos cs s = REDSTONE_TORCH"
    and others: "\<And>q. q \<noteq> s \<Longrightarrow> blockAtPos cs q \<notin> emitters"
  shows "scanSources cs oa = ([s], Map.empty)"
proof -
  obtain sx sy sz where s: "s = (sx, sy, sz)" by (cases s) auto
  have "blockAtPos cs s \<noteq> AIR" using src by (auto simp add: BlockType_defs)
  then obtain c where "map_of cs (chunkKey (sx div CHUNK_SIZE) (sz div CHUNK_SIZE)) = Some c"
    by (auto simp add: blockAtPos_def s getBlockAtLoaded_def split: if_splits option.splits)
  then have "chunkKey (fst s div CHUNK_SIZE) (snd (snd s) div CHUNK_SIZE) \<in> fst ` set cs"
    using s by (auto dest!: map_of_SomeD simp add: image_iff) force
  moreover have "distinct (map fst cs)" using wf by (simp add: wf_chunks_def)
  ultimately show ?thesis
    using scan_world_gen [OF wf src others subset_refl, of oa "[]" Map.empty]
    by (simp add: scanSources_def)
qed

section \<open>Relaxation along a straight dust line\<close>

lemma linePos_inj:
  assumes "d \<in> set dirs6" and "linePos s d i = linePos s d j"
  shows "i = j"
  using assms by (cases s) (auto simp add: dirs6_def linePos_def)

lemma linePower_on:
  assumes "d \<in> set dirs6"
  shows "linePower s d k (linePos s d i) = (if i \<le> k then Some (15 - i) else None)"
proof (induction k)
  case 0
  then show ?case using linePos_inj [OF assms, of s i 0] by auto
next
  case (Suc k)
  then show ?case using linePos_inj [OF assms, of s i "Suc k"] by (auto simp add: le_Suc_eq)
qed

lemma linePower_off:
  "(\<And>i. q \<noteq> linePos s d i) \<Longrightarrow> linePower s d k q = None"
  by (induction k) auto

lemma neighbour_cases:
  assumes "d \<in> set dirs6" and "e \<in> set dirs6" and "linePos s d k = (x, y, z)"
  shows "(e = d \<and> (x + fst e, y + fst (snd e), z + snd (snd e)) = linePos s d (Suc k))
       \<or> (e \<noteq> d \<and> 1 \<le> k \<and> (x + fst e, y + fst (snd e), z + snd (snd e)) = linePos s d (k - 1))
       \<or> (e \<noteq> d \<and> (\<forall>i. (x + fst e, y + fst (snd e), z + snd (snd e)) \<noteq> linePos s d i))"
proof -
  obtain sx sy sz where s: "s = (sx, sy, sz)" by (cases s) auto
  have d: "d = (1, 0, 0) \<or> d = (- 1, 0, 0) \<or> d = (0, 0, 1) \<or> d = (0, 0, - 1) \<or> d = (0, 1, 0) \<or> d = (0, - 1, 0)"
    using assms(1) by (simp add: dirs6_def)
  have e: "e = (1, 0, 0) \<or> e = (- 1, 0, 0) \<or> e = (0, 0, 1) \<or> e = (0, 0, - 1) \<or> e = (0, 1, 0) \<or> e = (0, - 1, 0)"
    using assms(2) by (simp add: dirs6_def)
  have p: "x = sx + int k * fst d" "y = sy + int k * fst (snd d)" "z = sz + int k * snd (snd d)"
    using assms(3) by (auto simp add: s linePos_def split: prod.splits)
  show ?thesis
  proof (cases "k = 0")
    case True
    then show ?thesis
      using d e by (elim disjE; simp add: p s linePos_def)
  next
    case False
    then obtain j where j: "k = Suc j" by (cases k) auto
    show ?thesis
      using d e by (elim disjE; simp add: p s linePos_def j)
  qed
qed


lemma relax_skip:
  assumes "blockAtPos cs (x + fst e, y + fst (snd e), z + snd (snd e)) \<noteq> REDSTONE_DUST"
    and "blockAtPos cs (x + fst e, y + fst (snd e), z + snd (snd e)) \<noteq> REDSTONE_REPEATER"
  shows "relax cs (x, y, z) cp st e = st"
  using assms by (cases st; cases e) (simp add: relax_def blockAtPos_def Let_def)

lemma DUST_not_REPEATER: "REDSTONE_DUST \<noteq> REDSTONE_REPEATER"
  by (simp add: BlockType_defs)

lemma relax_dust:
  assumes "blockAtPos cs (x + fst e, y + fst (snd e), z + snd (snd e)) = REDSTONE_DUST"
  shows "relax cs (x, y, z) cp (pw, queue) e
         = (if cp - 1 > getRedstonePower pw (x + fst e, y + fst (snd e), z + snd (snd e))
            then (setRSPower pw (x + fst e, y + fst (snd e), z + snd (snd e)) (cp - 1),
                  queue @ [(x + fst e, y + fst (snd e), z + snd (snd e))])
            else (pw, queue))"
  using assms DUST_not_REPEATER by (cases e) (simp add: relax_def blockAtPos_def Let_def)

lemma foldl_switch:
  assumes "d \<in> set xs"
    and "\<And>e. e \<in> set xs \<Longrightarrow> e \<noteq> d \<Longrightarrow> f A e = A \<and> f B e = B"
    and "f A d = B" and "f B d = B"
  shows "foldl f A xs = B"
  using assms(1,2)
proof (induction xs)
  case Nil
  then show ?case by simp
next
  case (Cons x xs)
  show ?case
  proof (cases "x = d")
    case True
    have "\<And>e. e \<in> set xs \<Longrightarrow> f B e = B"
      using Cons.prems(2) assms(4) by (metis list.set_intros(2))
    then have "foldl f B xs = B" by (rule foldl_id)
    then show ?thesis using True assms(3) by simp
  next
    case False
    then have "f A x = A" using Cons.prems(2) by simp
    moreover have "d \<in> set xs" using Cons.prems(1) False by simp
    ultimately show ?thesis using Cons.IH Cons.prems(2) by simp
  qed
qed

lemma getRedstonePower_line:
  assumes "d \<in> set dirs6"
  shows "getRedstonePower (linePower s d k) (linePos s d i) = (if i \<le> k then 15 - i else 0)"
  by (simp add: getRedstonePower_def linePower_on [OF assms])

lemma signal_members:
  "REDSTONE_DUST \<in> signalBlocks" "REDSTONE_REPEATER \<in> signalBlocks"
  "REDSTONE_BLOCK \<noteq> REDSTONE_DUST" "REDSTONE_BLOCK \<noteq> REDSTONE_REPEATER"
  "REDSTONE_TORCH \<noteq> REDSTONE_DUST" "REDSTONE_TORCH \<noteq> REDSTONE_REPEATER"
  by (simp_all add: signalBlocks_def BlockType_defs)

lemma line_step:
  assumes d: "d \<in> set dirs6" and k: "k \<le> 13"
    and src: "blockAtPos cs (linePos s d 0) = REDSTONE_BLOCK \<or> blockAtPos cs (linePos s d 0) = REDSTONE_TORCH"
    and dust: "\<And>i. 1 \<le> i \<Longrightarrow> i \<le> 16 \<Longrightarrow> blockAtPos cs (linePos s d i) = REDSTONE_DUST"
    and other: "\<And>q. (\<And>i. i \<le> 16 \<Longrightarrow> q \<noteq> linePos s d i) \<Longrightarrow> blockAtPos cs q \<notin> signalBlocks"
  shows "foldl (relax cs (linePos s d k) (15 - k)) (linePower s d k, []) dirs6
         = (linePower s d (Suc k), [linePos s d (Suc k)])"
proof -
  obtain x y z where p: "linePos s d k = (x, y, z)" by (cases "linePos s d k") auto
  let ?A = "(linePower s d k, [] :: Pos list)"
  let ?B = "(linePower s d (Suc k), [linePos s d (Suc k)])"
  let ?f = "relax cs (x, y, z) (15 - k)"
  have fwd: "(x + fst d, y + fst (snd d), z + snd (snd d)) = linePos s d (Suc k)"
    using neighbour_cases [OF d d p] by auto
  have dk: "blockAtPos cs (linePos s d (Suc k)) = REDSTONE_DUST" using dust [of "Suc k"] k by simp
  have fA: "?f ?A d = ?B"
    using k by (simp add: relax_dust fwd dk getRedstonePower_line [OF d] setRSPower_def)
  have fB: "?f ?B d = ?B"
    using k getRedstonePower_line [OF d, of s "Suc k" "Suc k"]
    by (simp add: relax_dust fwd dk del: linePower.simps)
  have others: "\<And>e. e \<in> set dirs6 \<Longrightarrow> e \<noteq> d \<Longrightarrow> ?f ?A e = ?A \<and> ?f ?B e = ?B"
  proof -
    fix e assume e: "e \<in> set dirs6" and ne: "e \<noteq> d"
    let ?n = "(x + fst e, y + fst (snd e), z + snd (snd e))"
    from neighbour_cases [OF d e p] ne
    consider (behind) "1 \<le> k" "?n = linePos s d (k - 1)" | (offline) "\<forall>i. ?n \<noteq> linePos s d i"
      by blast
    then show "?f ?A e = ?A \<and> ?f ?B e = ?B"
    proof cases
      case offline
      then have "blockAtPos cs ?n \<notin> signalBlocks" using other by blast
      then have "blockAtPos cs ?n \<noteq> REDSTONE_DUST" "blockAtPos cs ?n \<noteq> REDSTONE_REPEATER"
        using signal_members by auto
      then show ?thesis using relax_skip by blast
    next
      case behind
      show ?thesis
      proof (cases "k = 1")
        case True
        then have "blockAtPos cs ?n \<noteq> REDSTONE_DUST" "blockAtPos cs ?n \<noteq> REDSTONE_REPEATER"
          using behind(2) src signal_members by auto
        then show ?thesis using relax_skip by blast
      next
        case False
        then have "blockAtPos cs ?n = REDSTONE_DUST"
          using behind dust [of "k - 1"] k by simp
        moreover have "getRedstonePower (linePower s d k) ?n = 15 - (k - 1)"
          using behind getRedstonePower_line [OF d, of s k "k - 1"] by simp
        moreover have "getRedstonePower (linePower s d (Suc k)) ?n = 15 - (k - 1)"
          using behind getRedstonePower_line [OF d, of s "Suc k" "k - 1"] by simp
        ultimately show ?thesis by (simp add: relax_dust del: linePower.simps)
      qed
    qed
  qed
  have "foldl ?f ?A dirs6 = ?B"
    using d others fA fB by (rule foldl_switch)
  then show ?thesis by (simp add: p)
qed


lemma line_loop:
  assumes d: "d \<in> set dirs6"
    and src: "blockAtPos cs (linePos s d 0) = REDSTONE_BLOCK \<or> blockAtPos cs (linePos s d 0) = REDSTONE_TORCH"
    and dust: "\<And>i. 1 \<le> i \<Longrightarrow> i \<le> 16 \<Longrightarrow> blockAtPos cs (linePos s d i) = REDSTONE_DUST"
    and other: "\<And>q. (\<And>i. i \<le> 16 \<Longrightarrow> q \<noteq> linePos s d i) \<Longrightarrow> blockAtPos cs q \<notin> signalBlocks"
  shows "k \<le> 14 \<Longrightarrow> rsLoop cs (linePower s d k) [linePos s d k] k = (linePower s d 14, 15)"
proof (induction "14 - k" arbitrary: k)
  case 0
  then have k: "k = 14" by simp
  have "getRedstonePower (linePower s d 14) (linePos s d 14) = 1"
    using getRedstonePower_line [OF d, of s 14 14] by simp
  then have "rsLoop cs (linePower s d 14) [linePos s d 14] 14 = rsLoop cs (linePower s d 14) [] 15"
    by (subst rsLoop.simps) (simp add: Let_def del: linePower.simps)
  also have "\<dots> = (linePower s d 14, 15)" by (subst rsLoop.simps) simp
  finally show ?case using k by simp
next
  case (Suc m)
  then have k: "k \<le> 13" by simp
  have cp: "getRedstonePower (linePower s d k) (linePos s d k) = 15 - k"
    using getRedstonePower_line [OF d, of s k k] by simp
  have st: "foldl (relax cs (linePos s d k) (15 - k)) (linePower s d k, []) dirs6
            = (linePower s d (Suc k), [linePos s d (Suc k)])"
    using d k src dust other by (rule line_step)
  have big: "\<not> 15 - k \<le> Suc 0" using k by simp
  have "rsLoop cs (linePower s d k) [linePos s d k] k
        = rsLoop cs (linePower s d (Suc k)) [linePos s d (Suc k)] (Suc k)"
    using k cp st big by (subst rsLoop.simps) (simp add: Let_def del: linePower.simps)
  moreover have "rsLoop cs (linePower s d (Suc k)) [linePos s d (Suc k)] (Suc k) = (linePower s d 14, 15)"
    using Suc.hyps(1) [of "Suc k"] Suc.hyps(2) k by simp
  ultimately show ?case by simp
qed

lemma redstonePower_queueWaterAt [simp]: "redstonePower (queueWaterAt g x y z) = redstonePower g"
  by (simp add: queueWaterAt_def)

lemma redstonePower_queueWaterAround [simp]:
  "redstonePower (queueWaterAround g x y z) = redstonePower g"
  by (simp add: queueWaterAround_def Let_def)

lemma redstonePower_explodeCell [simp]:
  "redstonePower (explodeCell x y z g d) = redstonePower g"
  by (cases d) (simp add: explodeCell_def Let_def split: option.splits)

lemma redstonePower_explodeTNT [simp]: "redstonePower (explodeTNT g x y z) = redstonePower g"
proof -
  have "redstonePower (foldl (explodeCell x y z) g ds) = redstonePower g" for ds
    by (induction ds arbitrary: g) simp_all
  then show ?thesis by (simp add: explodeTNT_def)
qed

lemma redstonePower_triggerCell [simp]:
  "redstonePower (fst (triggerCell key st c)) = redstonePower (fst st)"
  by (cases st; cases c) (simp add: triggerCell_def Let_def split: option.splits)

lemma redstonePower_triggerCells [simp]:
  "redstonePower (fst (foldl (triggerCell key) st cells)) = redstonePower (fst st)"
  by (induction cells arbitrary: st) simp_all

lemma redstonePower_triggers [simp]:
  "redstonePower (fst (foldl (\<lambda>st key. foldl (triggerCell key) st chunkCells) st keys))
     = redstonePower (fst st)"
  by (induction keys arbitrary: st) simp_all

lemma redstonePower_updateRedstone:
  "redstonePower (updateRedstone g)
     = fst (rsLoop (chunks g)
             (foldl (\<lambda>pw s. setRSPower pw s 15) Map.empty (fst (scanSources (chunks g) (redstoneActive g))))
             (fst (scanSources (chunks g) (redstoneActive g))) 0)"
proof -
  obtain sources active where sa: "scanSources (chunks g) (redstoneActive g) = (sources, active)"
    by (cases "scanSources (chunks g) (redstoneActive g)") auto
  let ?pw = "fst (rsLoop (chunks g) (foldl (\<lambda>pw s. setRSPower pw s 15) Map.empty sources) sources 0)"
  let ?act = "foldl (\<lambda>a kc. foldl (lampCell ?pw (snd kc)) a chunkCells) active (chunks g)"
  let ?g1 = "g\<lparr>redstonePower := ?pw, redstoneActive := ?act\<rparr>"
  obtain g2 nx where t: "foldl (\<lambda>st key. foldl (triggerCell key) st chunkCells) (?g1, Map.empty)
                           (map fst (chunks ?g1)) = (g2, nx)"
    by (cases "foldl (\<lambda>st key. foldl (triggerCell key) st chunkCells) (?g1, Map.empty) (map fst (chunks ?g1))") auto
  have "redstonePower (fst (foldl (\<lambda>st key. foldl (triggerCell key) st chunkCells) (?g1, Map.empty)
                           (map fst (chunks ?g1)))) = redstonePower (fst (?g1, Map.empty :: Pos \<Rightarrow> bool option))"
    by (rule redstonePower_triggers)
  then have "redstonePower g2 = ?pw" unfolding t by simp
  then show ?thesis
    using t by (simp add: updateRedstone_def sa Let_def)
qed

lemma relax_only_raises:
  "fst (relax cs cur cp (pw, queue) e) q = pw q
   \<or> getRedstonePower pw q < getRedstonePower (fst (relax cs cur cp (pw, queue) e)) q"
  by (cases cur; cases e)
     (auto simp add: relax_def Let_def setRSPower_def getRedstonePower_def split: option.splits)

lemma rsLoop_bound: "iter \<le> 5000 \<Longrightarrow> snd (rsLoop cs pw queue iter) \<le> 5000"
proof (induction cs pw queue iter rule: rsLoop.induct)
  case (1 cs pw queue iter)
  show ?case
  proof (cases "queue \<noteq> [] \<and> iter < 5000")
    case False
    then have "rsLoop cs pw queue iter = (pw, iter)" by (subst rsLoop.simps) auto
    then show ?thesis using "1.prems" by simp
  next
    case go: True
    then have i: "iter + 1 \<le> 5000" by simp
    show ?thesis
    proof (cases "getRedstonePower pw (hd queue) \<le> 1")
      case True
      then have "rsLoop cs pw queue iter = rsLoop cs pw (tl queue) (iter + 1)"
        using go by (subst rsLoop.simps) (simp add: Let_def)
      then show ?thesis using "1.IH"(1) [OF go refl refl refl refl True i] by simp
    next
      case False
      obtain pw' q' where f: "foldl (relax cs (hd queue) (getRedstonePower pw (hd queue))) (pw, tl queue) dirs6 = (pw', q')"
        by (cases "foldl (relax cs (hd queue) (getRedstonePower pw (hd queue))) (pw, tl queue) dirs6") auto
      then have "rsLoop cs pw queue iter = rsLoop cs pw' q' (iter + 1)"
        using go False by (subst rsLoop.simps) (simp add: Let_def)
      then show ?thesis using "1.IH"(2) [OF go refl refl refl refl False f [symmetric] i] by simp
    qed
  qed
qed


text \<open>
  C8. A signal refresh terminates for every configuration of loaded chunks, and its
  breadth-first relaxation loop runs at most 5000 iterations whatever the power network looks
  like: the loop started by the refresh returns the power table the refresh stores together
  with an iteration count of at most 5000, and so does the loop from any other start.
\<close>

theorem refresh_iterations_bounded:
  "rsLoop (chunks g)
      (foldl (\<lambda>pw s. setRSPower pw s 15) Map.empty (fst (scanSources (chunks g) (redstoneActive g))))
      (fst (scanSources (chunks g) (redstoneActive g))) 0
     = (redstonePower (updateRedstone g), redstoneIterations g)
   \<and> redstoneIterations g \<le> 5000
   \<and> snd (rsLoop cs pw queue 0) \<le> 5000"
proof -
  have "redstoneIterations g \<le> 5000"
    using rsLoop_bound [of 0] by (simp add: redstoneIterations_def Let_def)
  moreover have "snd (rsLoop cs pw queue 0) \<le> 5000" using rsLoop_bound [of 0] by simp
  ultimately show ?thesis
    by (simp add: redstonePower_updateRedstone redstoneIterations_def Let_def)
qed

lemma line_refresh:
  assumes wf: "wf_chunks (chunks g)" and d: "d \<in> set dirs6"
    and src: "blockAtPos (chunks g) (linePos s d 0) = REDSTONE_BLOCK
              \<or> blockAtPos (chunks g) (linePos s d 0) = REDSTONE_TORCH"
    and dust: "\<And>i. 1 \<le> i \<Longrightarrow> i \<le> 16 \<Longrightarrow> blockAtPos (chunks g) (linePos s d i) = REDSTONE_DUST"
    and other: "\<And>q. (\<And>i. i \<le> 16 \<Longrightarrow> q \<noteq> linePos s d i) \<Longrightarrow> blockAtPos (chunks g) q \<notin> signalBlocks"
  shows "redstonePower (updateRedstone g) = linePower s d 14" and "redstoneIterations g = 15"
proof -
  have em: "\<And>q. q \<noteq> linePos s d 0 \<Longrightarrow> blockAtPos (chunks g) q \<notin> emitters"
  proof -
    fix q assume q: "q \<noteq> linePos s d 0"
    show "blockAtPos (chunks g) q \<notin> emitters"
    proof (cases "\<exists>i. i \<le> 16 \<and> q = linePos s d i")
      case True
      then obtain i where i: "i \<le> 16" "q = linePos s d i" by blast
      then have "1 \<le> i" using q by (cases i) auto
      then have "blockAtPos (chunks g) q = REDSTONE_DUST" using dust i by simp
      then show ?thesis by (simp add: emitters_def BlockType_defs)
    next
      case False
      then have "blockAtPos (chunks g) q \<notin> signalBlocks" using other by blast
      then show ?thesis by (auto simp add: emitters_def signalBlocks_def)
    qed
  qed
  have sc: "scanSources (chunks g) (redstoneActive g) = ([linePos s d 0], Map.empty)"
    using wf src em by (rule scan_world)
  have seed: "foldl (\<lambda>pw s. setRSPower pw s 15) Map.empty [linePos s d 0] = linePower s d 0"
    by (simp add: setRSPower_def)
  have lp: "rsLoop (chunks g) (linePower s d 0) [linePos s d 0] 0 = (linePower s d 14, 15)"
    using line_loop [OF d src dust other, of 0] by simp
  show "redstonePower (updateRedstone g) = linePower s d 14"
    unfolding redstonePower_updateRedstone sc fst_conv seed lp ..
  show "redstoneIterations g = 15"
    unfolding redstoneIterations_def Let_def sc fst_conv seed lp by simp
qed

text \<open>
  C4. One signal refresh over a straight line of dust fed by a level-15 source: the source
  reads 15 and the fifteen dust cells behind it read 14, 13, ..., 1, 0, so that the readings
  along the line are 15, 14, ..., 1, 0; a sixteenth dust cell reads 0. Power decays by exactly
  1 per hop, and a relaxation step changes a cell's power only to a strictly greater value.
  The line may run in any of the six axis directions from any position; no other signal
  block is loaded.
\<close>

theorem dust_line_decay:
  assumes "wf_chunks (chunks g)" and "d \<in> set dirs6"
    and "blockAtPos (chunks g) (linePos s d 0) = REDSTONE_BLOCK
         \<or> blockAtPos (chunks g) (linePos s d 0) = REDSTONE_TORCH"
    and "\<forall>i. 1 \<le> i \<and> i \<le> 16 \<longrightarrow> blockAtPos (chunks g) (linePos s d i) = REDSTONE_DUST"
    and "\<forall>q. (\<forall>i \<le> 16. q \<noteq> linePos s d i) \<longrightarrow> blockAtPos (chunks g) q \<notin> signalBlocks"
  shows "map (\<lambda>i. getRedstonePower (redstonePower (updateRedstone g)) (linePos s d i)) [0..<17]
           = [15, 14, 13, 12, 11, 10, 9, 8, 7, 6, 5, 4, 3, 2, 1, 0, 0]
         \<and> (\<forall>i \<le> 15. getRedstonePower (redstonePower (updateRedstone g)) (linePos s d i) = 15 - i)
         \<and> (\<forall>q. fst (relax cs cur cp (pw, queue) e) q = pw q
                \<or> getRedstonePower pw q < getRedstonePower (fst (relax cs cur cp (pw, queue) e)) q)"
proof -
  have p: "redstonePower (updateRedstone g) = linePower s d 14"
    using assms by (intro line_refresh(1)) blast+
  have r: "\<And>i. getRedstonePower (linePower s d 14) (linePos s d i) = (if i \<le> 14 then 15 - i else 0)"
    using assms(2) by (rule getRedstonePower_line)
  have "[0..<17] = [0, 1, 2, 3, 4, 5, 6, 7, 8, 9, 10, 11, 12, 13, 14, 15, 16::nat]"
    by code_simp
  then have "map (\<lambda>i. getRedstonePower (redstonePower (updateRedstone g)) (linePos s d i)) [0..<17]
           = [15, 14, 13, 12, 11, 10, 9, 8, 7, 6, 5, 4, 3, 2, 1, 0, 0]"
    by (simp add: p r del: linePower.simps)
  moreover have "\<forall>i \<le> 15. getRedstonePower (redstonePower (updateRedstone g)) (linePos s d i) = 15 - i"
    by (simp add: p r del: linePower.simps)
  ultimately show ?thesis using relax_only_raises by blast
qed

section \<open>A concrete dust line\<close>

lemma wf_dustLineWorld: "wf_chunks (chunks dustLineWorld)"
  by (simp add: dustLineWorld_def wf_chunks_def wf_chunk_def dustLineChunk_def dustTailChunk_def
        chunkKey_def CHUNK_SIZE_def CHUNK_HEIGHT_def)

lemma east_line: "linePos (0, 0, 0) (1, 0, 0) i = (int i, 0, 0)"
  by (simp add: linePos_def)

lemma dustLine_blocks:
  assumes "0 \<le> x" "x \<le> 16"
  shows "blockAtPos (chunks dustLineWorld) (x, 0, 0) = (if x = 0 then REDSTONE_BLOCK else REDSTONE_DUST)"
proof (cases "x = 16")
  case True
  then show ?thesis
    by (simp add: blockAtPos_def dustLineWorld_def eval_defs dustTailChunk_def BlockType_defs)
next
  case False
  then have x: "x < 16" using assms by simp
  then have i: "nat x < 20480" "x div 16 = 0" "x mod 16 = x" using assms by simp_all
  show ?thesis
    using assms x i
    by (auto simp add: blockAtPos_def dustLineWorld_def eval_defs dustLineChunk_def BlockType_defs)
qed

lemma dustLine_elsewhere:
  assumes "blockAtPos (chunks dustLineWorld) (qx, qy, qz) \<noteq> AIR"
  shows "0 \<le> qx \<and> qx \<le> 16 \<and> qy = 0 \<and> qz = 0"
proof -
  have y: "0 \<le> qy" "qy < 80"
    using assms by (auto simp add: blockAtPos_def getBlockAtLoaded_def CHUNK_HEIGHT_def split: if_splits)
  define lx where "lx = wrapLocal qx"
  define lz where "lz = wrapLocal qz"
  have r: "0 \<le> lx" "lx < 16" "0 \<le> lz" "lz < 16"
    using wrapLocal_range by (simp_all add: lx_def lz_def)
  have qq: "qx = 16 * (qx div 16) + lx" "qz = 16 * (qz div 16) + lz"
    by (simp_all add: lx_def lz_def wrapLocal_mod)
  define idx where "idx = getIndex lx qy lz"
  have ib: "0 \<le> idx" "idx < 20480"
    using getIndex_bounds [OF r(1,2) y r(3,4)] by (simp_all add: idx_def)
  have ie: "idx = lx + 16 * lz + 256 * qy" by (simp add: idx_def getIndex_def CHUNK_SIZE_def)
  have gb: "\<And>c. getBlock c lx qy lz = blocks c ! nat idx"
    using r y by (simp add: getBlock_def idx_def CHUNK_SIZE_def CHUNK_HEIGHT_def)
  have ld: "blockAtPos (chunks dustLineWorld) (qx, qy, qz)
            = (case map_of [((0, 0), dustLineChunk), ((1, 0), dustTailChunk)] (qx div 16, qz div 16) of
                 None \<Rightarrow> AIR | Some c \<Rightarrow> blocks c ! nat idx)"
    using y gb
    by (simp add: blockAtPos_def dustLineWorld_def getBlockAtLoaded_def chunkKey_def
          CHUNK_SIZE_def CHUNK_HEIGHT_def lx_def [symmetric] lz_def [symmetric] split: option.splits)
  consider (a) "qx div 16 = 0" "qz div 16 = 0" | (b) "qx div 16 = 1" "qz div 16 = 0"
    | (c) "(qx div 16, qz div 16) \<noteq> (0, 0)" "(qx div 16, qz div 16) \<noteq> (1, 0)"
    by auto
  then show ?thesis
  proof cases
    case c
    then have "blockAtPos (chunks dustLineWorld) (qx, qy, qz) = AIR" unfolding ld by auto
    then show ?thesis using assms by simp
  next
    case a
    have "blockAtPos (chunks dustLineWorld) (qx, qy, qz)
          = (if nat idx = 0 then REDSTONE_BLOCK else if nat idx \<le> 15 then REDSTONE_DUST else AIR)"
      unfolding ld using a ib by (simp add: dustLineChunk_def)
    then have "idx \<le> 15" using assms ib by (auto split: if_splits)
    then have "lz = 0" "qy = 0" using r y ie by simp_all
    then show ?thesis using r a qq by simp
  next
    case b
    have "blockAtPos (chunks dustLineWorld) (qx, qy, qz) = (if nat idx = 0 then REDSTONE_DUST else AIR)"
      unfolding ld using b ib by (simp add: dustTailChunk_def)
    then have "idx = 0" using assms ib by (auto split: if_splits)
    then have "lx = 0" "lz = 0" "qy = 0" using r y ie by simp_all
    then show ?thesis using b qq by simp
  qed
qed

lemma AIR_not_signal: "AIR \<notin> signalBlocks"
  by (simp add: signalBlocks_def BlockType_defs)

lemma dustLineWorld_line:
  shows "(1, 0, 0) \<in> set dirs6"
    and "blockAtPos (chunks dustLineWorld) (linePos (0, 0, 0) (1, 0, 0) 0) = REDSTONE_BLOCK
         \<or> blockAtPos (chunks dustLineWorld) (linePos (0, 0, 0) (1, 0, 0) 0) = REDSTONE_TORCH"
    and "\<forall>i. 1 \<le> i \<and> i \<le> 16
           \<longrightarrow> blockAtPos (chunks dustLineWorld) (linePos (0, 0, 0) (1, 0, 0) i) = REDSTONE_DUST"
    and "\<forall>q. (\<forall>i \<le> 16. q \<noteq> linePos (0, 0, 0) (1, 0, 0) i)
           \<longrightarrow> blockAtPos (chunks dustLineWorld) q \<notin> signalBlocks"
proof -
  show "(1, 0, 0) \<in> set dirs6" by (simp add: dirs6_def)
  show "blockAtPos (chunks dustLineWorld) (linePos (0, 0, 0) (1, 0, 0) 0) = REDSTONE_BLOCK
        \<or> blockAtPos (chunks dustLineWorld) (linePos (0, 0, 0) (1, 0, 0) 0) = REDSTONE_TORCH"
    using dustLine_blocks [of 0] by (simp add: east_line)
  show "\<forall>i. 1 \<le> i \<and> i \<le> 16
          \<longrightarrow> blockAtPos (chunks dustLineWorld) (linePos (0, 0, 0) (1, 0, 0) i) = REDSTONE_DUST"
    using dustLine_blocks by (simp add: east_line)
  show "\<forall>q. (\<forall>i \<le> 16. q \<noteq> linePos (0, 0, 0) (1, 0, 0) i)
          \<longrightarrow> blockAtPos (chunks dustLineWorld) q \<notin> signalBlocks"
  proof (intro allI impI)
    fix q :: Pos assume off: "\<forall>i \<le> 16. q \<noteq> linePos (0, 0, 0) (1, 0, 0) i"
    obtain qx qy qz where q: "q = (qx, qy, qz)" by (cases q) auto
    show "blockAtPos (chunks dustLineWorld) q \<notin> signalBlocks"
    proof (cases "blockAtPos (chunks dustLineWorld) q = AIR")
      case True
      then show ?thesis using AIR_not_signal by simp
    next
      case False
      then have "0 \<le> qx \<and> qx \<le> 16 \<and> qy = 0 \<and> qz = 0" using dustLine_elsewhere q by simp
      then have "nat qx \<le> 16" "q = linePos (0, 0, 0) (1, 0, 0) (nat qx)"
        by (auto simp add: east_line q)
      then show ?thesis using off by blast
    qed
  qed
qed

theorem dust_line_decay_witness:
  "map (\<lambda>i. getRedstonePower (redstonePower (updateRedstone dustLineWorld)) (int i, 0, 0)) [0..<17]
     = [15, 14, 13, 12, 11, 10, 9, 8, 7, 6, 5, 4, 3, 2, 1, 0, 0]"
  using dust_line_decay [OF wf_dustLineWorld dustLineWorld_line] by (simp add: east_line)

theorem refresh_iterations_bounded_witness:
  "redstoneIterations dustLineWorld = 15 \<and> redstoneIterations dustLineWorld \<le> 5000
   \<and> redstoneIterations newGameRenderer \<le> 5000"
proof -
  have "redstoneIterations dustLineWorld = 15"
    using dustLineWorld_line by (intro line_refresh(2) [OF wf_dustLineWorld]) blast+
  then show ?thesis
    using refresh_iterations_bounded [of dustLineWorld] refresh_iterations_bounded [of newGameRenderer]
    by simp
qed


section \<open>Player collision\<close>

lemma overlappedCells_product:
  "overlappedCells (tx, ty, tz)
   = List.product [\<lfloor>tx - 3 / 10\<rfloor>..\<lfloor>tx + 3 / 10 - 1 / 1000\<rfloor>]
       (List.product [\<lfloor>ty\<rfloor>..\<lfloor>ty + 17 / 10 - 1 / 1000\<rfloor>] [\<lfloor>tz - 3 / 10\<rfloor>..\<lfloor>tz + 3 / 10 - 1 / 1000\<rfloor>])"
  by (simp add: overlappedCells_def Let_def PLAYER_WIDTH_def PLAYER_HEIGHT_def product_concat_map
        map_concat comp_def)

lemma overlappedCells_mem:
  "(bx, by, bz) \<in> set (overlappedCells (tx, ty, tz))
   \<longleftrightarrow> \<lfloor>tx - 3 / 10\<rfloor> \<le> bx \<and> bx \<le> \<lfloor>tx + 3 / 10 - 1 / 1000\<rfloor>
       \<and> \<lfloor>ty\<rfloor> \<le> by \<and> by \<le> \<lfloor>ty + 17 / 10 - 1 / 1000\<rfloor>
       \<and> \<lfloor>tz - 3 / 10\<rfloor> \<le> bz \<and> bz \<le> \<lfloor>tz + 3 / 10 - 1 / 1000\<rfloor>"
  unfolding overlappedCells_product by auto

lemma overlappedCells_first:
  "\<exists>rest. overlappedCells (tx, ty, tz) = (\<lfloor>tx - 3 / 10\<rfloor>, \<lfloor>ty\<rfloor>, \<lfloor>tz - 3 / 10\<rfloor>) # rest"
proof -
  define xs where "xs = [\<lfloor>tx - 3 / 10\<rfloor>..\<lfloor>tx + 3 / 10 - 1 / 1000\<rfloor>]"
  define ys where "ys = [\<lfloor>ty\<rfloor>..\<lfloor>ty + 17 / 10 - 1 / 1000\<rfloor>]"
  define zs where "zs = [\<lfloor>tz - 3 / 10\<rfloor>..\<lfloor>tz + 3 / 10 - 1 / 1000\<rfloor>]"
  have x: "\<lfloor>tx - 3 / 10\<rfloor> \<le> \<lfloor>tx + 3 / 10 - 1 / 1000\<rfloor>" by (rule floor_mono) simp
  have y: "\<lfloor>ty\<rfloor> \<le> \<lfloor>ty + 17 / 10 - 1 / 1000\<rfloor>" by (rule floor_mono) simp
  have z: "\<lfloor>tz - 3 / 10\<rfloor> \<le> \<lfloor>tz + 3 / 10 - 1 / 1000\<rfloor>" by (rule floor_mono) simp
  obtain zr where zr: "zs = \<lfloor>tz - 3 / 10\<rfloor> # zr"
    unfolding zs_def using upto_rec1 [OF z] by blast
  obtain yr where yr: "ys = \<lfloor>ty\<rfloor> # yr"
    unfolding ys_def using upto_rec1 [OF y] by blast
  obtain xr where xr: "xs = \<lfloor>tx - 3 / 10\<rfloor> # xr"
    unfolding xs_def using upto_rec1 [OF x] by blast
  have "overlappedCells (tx, ty, tz) = List.product xs (List.product ys zs)"
    unfolding overlappedCells_product xs_def ys_def zs_def ..
  also have "\<dots> = (\<lfloor>tx - 3 / 10\<rfloor>, \<lfloor>ty\<rfloor>, \<lfloor>tz - 3 / 10\<rfloor>)
                  # (map (Pair \<lfloor>tx - 3 / 10\<rfloor>) (map (Pair \<lfloor>ty\<rfloor>) zr @ List.product yr zs)
                     @ List.product xr (List.product ys zs))"
    by (simp add: xr yr zr)
  finally show ?thesis by blast
qed

lemma collideAxis_free:
  assumes "playerPos p = (px, py, pz)" and "playerVelocity p = (vx, vy, vz)"
    and "tp = (case axis of AxisX \<Rightarrow> (px + vx * dt, py, pz) | AxisY \<Rightarrow> (px, py + vy * dt, pz)
                          | AxisZ \<Rightarrow> (px, py, pz + vz * dt))"
    and "\<And>bx by bz. (bx, by, bz) \<in> set (overlappedCells tp) \<Longrightarrow> \<not> isBlockSolid cs bx by bz"
  shows "collideAxis cs p axis dt = (p\<lparr>playerPos := tp\<rparr>, False)"
proof -
  have "find (\<lambda>c. case c of (bx, by, bz) \<Rightarrow> isBlockSolid cs bx by bz) (overlappedCells tp) = None"
    using assms(4) by (auto simp add: find_None_iff)
  then show ?thesis
    using assms(1,2) by (simp add: collideAxis_def Let_def assms(3) [symmetric])
qed

lemma collideAxis_first:
  assumes "playerPos p = (px, py, pz)" and "playerVelocity p = (vx, vy, vz)"
    and "tp = (case axis of AxisX \<Rightarrow> (px + vx * dt, py, pz) | AxisY \<Rightarrow> (px, py + vy * dt, pz)
                          | AxisZ \<Rightarrow> (px, py, pz + vz * dt))"
    and "tp = (tx, ty, tz)"
    and "isBlockSolid cs \<lfloor>tx - 3 / 10\<rfloor> \<lfloor>ty\<rfloor> \<lfloor>tz - 3 / 10\<rfloor>"
  shows "collideAxis cs p axis dt
         = (case axis of
              AxisY \<Rightarrow> (if vy < 0
                         then p\<lparr>playerPos := (px, of_int \<lfloor>ty\<rfloor> + 1, pz), playerVelocity := (vx, 0, vz),
                                onGround := True\<rparr>
                         else p\<lparr>playerPos := (px, of_int \<lfloor>ty\<rfloor> - PLAYER_HEIGHT, pz),
                                playerVelocity := (vx, 0, vz)\<rparr>)
            | AxisX \<Rightarrow> p\<lparr>playerPos := ((if vx > 0 then of_int \<lfloor>tx - 3 / 10\<rfloor> - PLAYER_WIDTH / 2
                                         else of_int \<lfloor>tx - 3 / 10\<rfloor> + 1 + PLAYER_WIDTH / 2), py, pz),
                          playerVelocity := (0, vy, vz)\<rparr>
            | AxisZ \<Rightarrow> p\<lparr>playerPos := (px, py, (if vz > 0 then of_int \<lfloor>tz - 3 / 10\<rfloor> - PLAYER_WIDTH / 2
                                                 else of_int \<lfloor>tz - 3 / 10\<rfloor> + 1 + PLAYER_WIDTH / 2)),
                          playerVelocity := (vx, vy, 0)\<rparr>,
            True)"
proof -
  obtain rest where r: "overlappedCells tp = (\<lfloor>tx - 3 / 10\<rfloor>, \<lfloor>ty\<rfloor>, \<lfloor>tz - 3 / 10\<rfloor>) # rest"
    using overlappedCells_first assms(4) by blast
  have "find (\<lambda>c. case c of (bx, by, bz) \<Rightarrow> isBlockSolid cs bx by bz) (overlappedCells tp)
        = Some (\<lfloor>tx - 3 / 10\<rfloor>, \<lfloor>ty\<rfloor>, \<lfloor>tz - 3 / 10\<rfloor>)"
    using assms(5) by (simp add: r)
  then show ?thesis
    using assms(1,2) by (simp add: collideAxis_def Let_def assms(3) [symmetric])
qed

lemma flat_air_above:
  assumes "31 \<le> by"
  shows "\<not> isBlockSolid [((0, 0), flatChunk)] 8 by 8"
proof (cases "by < 80")
  case False
  then show ?thesis by (simp add: isBlockSolid_def getBlockAt_def CHUNK_HEIGHT_def isCollidable_def)
next
  case True
  define i where "i = nat (getIndex 8 by 8)"
  have i: "7936 \<le> i" "i < 20480"
    using assms True by (simp_all add: i_def getIndex_def CHUNK_SIZE_def)
  have "blocks flatChunk ! i = AIR"
    using i by (auto simp add: flatChunk_def nth_append)
  then have "getBlockAt [((0, 0), flatChunk)] 8 by 8 = AIR"
    using assms True
    by (simp add: getBlockAt_def getBlock_def chunkKey_def wrapLocal_mod CHUNK_SIZE_def
          CHUNK_HEIGHT_def i_def)
  then show ?thesis by (simp add: isBlockSolid_def isCollidable_def)
qed

lemma flat_ground_solid:
  assumes "by = 29 \<or> by = 30"
  shows "isBlockSolid [((0, 0), flatChunk)] bx by bz"
proof (cases "bx div 16 = 0 \<and> bz div 16 = 0")
  case False
  then have "getBlockAt [((0, 0), flatChunk)] bx by bz = STONE"
    using assms by (auto simp add: getBlockAt_def chunkKey_def CHUNK_SIZE_def CHUNK_HEIGHT_def)
  then show ?thesis
    by (simp add: isBlockSolid_def isCollidable_def DECORATIVE_BLOCKS_def BlockType_defs)
next
  case True
  define i where "i = nat (getIndex (bx mod 16) by (bz mod 16))"
  have r: "0 \<le> bx mod 16" "bx mod 16 < 16" "0 \<le> bz mod 16" "bz mod 16 < 16" by simp_all
  have i: "by = 29 \<Longrightarrow> 7424 \<le> i \<and> i < 7680" "by = 30 \<Longrightarrow> 7680 \<le> i \<and> i < 7936"
    using r unfolding i_def getIndex_def CHUNK_SIZE_def by linarith+
  have "blocks flatChunk ! i = DIRT \<or> blocks flatChunk ! i = GRASS"
    using i assms by (auto simp add: flatChunk_def nth_append)
  moreover have "getBlockAt [((0, 0), flatChunk)] bx by bz = blocks flatChunk ! i"
    using assms True r
    by (auto simp add: getBlockAt_def getBlock_def chunkKey_def wrapLocal_mod CHUNK_SIZE_def
          CHUNK_HEIGHT_def i_def)
  ultimately show ?thesis
    by (auto simp add: isBlockSolid_def isCollidable_def DECORATIVE_BLOCKS_def BlockType_defs)
qed

lemma updatePlayer_airborne:
  assumes "gameMode g = Survival" and "\<not> jumping (player g)"
    and "playerVelocity (player g) = (vx, vy, vz)"
    and "collideAxis (chunks g)
           ((player g)\<lparr>playerVelocity := (mx, vy - GRAVITY * dt, mz), onGround := False\<rparr>) AxisY dt
         = (p1, h1)"
    and "collideAxis (chunks g) p1 AxisX dt = (p2, h2)"
    and "collideAxis (chunks g) p2 AxisZ dt = (p3, h3)"
    and "\<not> onGround p3" and "playerPos p3 = (px, py, pz)"
  shows "updatePlayer g (mx, my, mz) dt
         = g\<lparr>player := p3\<lparr>wasFalling := True, playerPos := (px, max 0 py, pz)\<rparr>\<rparr>"
  using assms by (simp add: updatePlayer_def Let_def)

lemma updatePlayer_grounded:
  assumes "gameMode g = Survival" and "\<not> jumping (player g)"
    and "playerVelocity (player g) = (vx, vy, vz)"
    and "collideAxis (chunks g)
           ((player g)\<lparr>playerVelocity := (mx, vy - GRAVITY * dt, mz), onGround := False\<rparr>) AxisY dt
         = (p1, h1)"
    and "collideAxis (chunks g) p1 AxisX dt = (p2, h2)"
    and "collideAxis (chunks g) p2 AxisZ dt = (p3, h3)"
    and "onGround p3" and "playerPos p3 = (px, py, pz)"
    and "\<not> (wasFalling p3 \<and> lastGroundY p3 - py > 3)"
  shows "updatePlayer g (mx, my, mz) dt
         = g\<lparr>player := p3\<lparr>lastGroundY := py, wasFalling := False, playerPos := (px, max 0 py, pz)\<rparr>\<rparr>"
  using assms by (auto simp add: updatePlayer_def Let_def)

lemma floor_rat_numeral: "\<lfloor>numeral a / numeral b :: rat\<rfloor> = numeral a div numeral b"
  by (metis floor_divide_of_int_eq of_int_numeral)

lemma column_cells:
  assumes "(bx, by, bz) \<in> set (overlappedCells (17 / 2, y, 17 / 2))" and "31 \<le> y"
  shows "bx = 8 \<and> bz = 8 \<and> 31 \<le> by"
proof -
  have f: "(31::int) \<le> \<lfloor>y\<rfloor>" using assms(2) by (simp add: le_floor_iff)
  have c: "bx = 8 \<and> bz = 8 \<and> \<lfloor>y\<rfloor> \<le> by"
    using assms(1) by (simp add: overlappedCells_mem floor_rat_numeral)
  from c f have "31 \<le> by" by (elim conjE) (rule order_trans)
  with c show ?thesis by blast
qed

lemma fall_frame:
  assumes g: "gameMode g = Survival" "chunks g = [((0, 0), flatChunk)]"
    and p: "player g = \<lparr>playerPos = (17 / 2, y, 17 / 2), playerVelocity = (0, vy, 0), onGround = og,
                         jumping = False, health = h, lastGroundY = l, wasFalling = w\<rparr>"
    and y: "31 \<le> y + (vy - 5 / 4) / 16"
  shows "idleFrame g
         = g\<lparr>player := \<lparr>playerPos = (17 / 2, y + (vy - 5 / 4) / 16, 17 / 2),
                          playerVelocity = (0, vy - 5 / 4, 0), onGround = False, jumping = False,
                          health = h, lastGroundY = l, wasFalling = True\<rparr>\<rparr>"
proof -
  define p0 where "p0 = \<lparr>playerPos = (17 / 2, y, 17 / 2), playerVelocity = (0, vy - 5 / 4, 0),
                          onGround = False, jumping = False, health = h, lastGroundY = l, wasFalling = w\<rparr>"
  define p1 where "p1 = p0\<lparr>playerPos := (17 / 2, y + (vy - 5 / 4) / 16, 17 / 2)\<rparr>"
  have free: "\<And>bx by bz. (bx, by, bz) \<in> set (overlappedCells (17 / 2, y + (vy - 5 / 4) / 16, 17 / 2))
                \<Longrightarrow> \<not> isBlockSolid (chunks g) bx by bz"
  proof -
    fix bx "by" bz
    assume "(bx, by, bz) \<in> set (overlappedCells (17 / 2, y + (vy - 5 / 4) / 16, 17 / 2))"
    then have "bx = 8 \<and> bz = 8 \<and> 31 \<le> by" using y by (rule column_cells)
    then show "\<not> isBlockSolid (chunks g) bx by bz"
      unfolding g using flat_air_above [of "by"] by blast
  qed
  have s0: "(player g)\<lparr>playerVelocity := (0, vy - GRAVITY * (1 / 16), 0), onGround := False\<rparr> = p0"
    by (simp add: p p0_def GRAVITY_def)
  have cy: "collideAxis (chunks g) p0 AxisY (1 / 16) = (p1, False)"
    unfolding p1_def
    by (rule collideAxis_free [where px = "17 / 2" and py = y and pz = "17 / 2"
                                 and vx = 0 and vy = "vy - 5 / 4" and vz = 0])
       (simp_all add: p0_def free)
  have same: "p1\<lparr>playerPos := (17 / 2, y + (vy - 5 / 4) / 16, 17 / 2)\<rparr> = p1"
    by (simp add: p1_def)
  have "collideAxis (chunks g) p1 AxisX (1 / 16)
        = (p1\<lparr>playerPos := (17 / 2, y + (vy - 5 / 4) / 16, 17 / 2)\<rparr>, False)"
    by (rule collideAxis_free [where px = "17 / 2" and py = "y + (vy - 5 / 4) / 16" and pz = "17 / 2"
                                 and vx = 0 and vy = "vy - 5 / 4" and vz = 0])
       (simp_all add: p0_def p1_def free)
  then have cx: "collideAxis (chunks g) p1 AxisX (1 / 16) = (p1, False)"
    unfolding same .
  have "collideAxis (chunks g) p1 AxisZ (1 / 16)
        = (p1\<lparr>playerPos := (17 / 2, y + (vy - 5 / 4) / 16, 17 / 2)\<rparr>, False)"
    by (rule collideAxis_free [where px = "17 / 2" and py = "y + (vy - 5 / 4) / 16" and pz = "17 / 2"
                                 and vx = 0 and vy = "vy - 5 / 4" and vz = 0])
       (simp_all add: p0_def p1_def free)
  then have cz: "collideAxis (chunks g) p1 AxisZ (1 / 16) = (p1, False)"
    unfolding same .
  have cy': "collideAxis (chunks g)
                ((player g)\<lparr>playerVelocity := (0, vy - GRAVITY * (1 / 16), 0), onGround := False\<rparr>)
                AxisY (1 / 16) = (p1, False)"
    unfolding s0 by (rule cy)
  have "updatePlayer g (0, 0, 0) (1 / 16)
        = g\<lparr>player := p1\<lparr>wasFalling := True,
                            playerPos := (17 / 2, max 0 (y + (vy - 5 / 4) / 16), 17 / 2)\<rparr>\<rparr>"
    by (rule updatePlayer_airborne [where vx = 0 and vy = vy and vz = 0, OF g(1) _ _ cy' cx cz])
       (simp_all add: p p1_def p0_def)
  moreover have "max 0 (y + (vy - 5 / 4) / 16) = y + (vy - 5 / 4) / 16"
  proof (rule max_absorb2)
    have "(0::rat) \<le> 31" by simp
    then show "0 \<le> y + (vy - 5 / 4) / 16" using y by (rule order_trans)
  qed
  ultimately show ?thesis by (simp add: idleFrame_def p1_def p0_def)
qed

lemma ground_frame:
  assumes g: "gameMode g = Survival" "chunks g = [((0, 0), flatChunk)]"
    and p: "player g = \<lparr>playerPos = (x, y, z), playerVelocity = (0, vy, 0), onGround = og,
                         jumping = False, health = h, lastGroundY = l, wasFalling = w\<rparr>"
    and f: "\<lfloor>y + (vy - 5 / 4) / 16\<rfloor> = 29"
    and v: "vy < 5 / 4"
    and d: "l \<le> 33"
  shows "idleFrame g
         = g\<lparr>player := \<lparr>playerPos = (of_int \<lfloor>x - 3 / 10\<rfloor> + 13 / 10, 30, of_int \<lfloor>z - 3 / 10\<rfloor> + 13 / 10),
                          playerVelocity = (0, 0, 0), onGround = True, jumping = False,
                          health = h, lastGroundY = 30, wasFalling = False\<rparr>\<rparr>"
proof -
  define x' where "x' = (of_int \<lfloor>x - 3 / 10\<rfloor> + 13 / 10 :: rat)"
  define z' where "z' = (of_int \<lfloor>z - 3 / 10\<rfloor> + 13 / 10 :: rat)"
  define p0 where "p0 = \<lparr>playerPos = (x, y, z), playerVelocity = (0, vy - 5 / 4, 0),
                          onGround = False, jumping = False, health = h, lastGroundY = l, wasFalling = w\<rparr>"
  define p1 where "p1 = \<lparr>playerPos = (x, 30, z), playerVelocity = (0, 0, 0),
                          onGround = True, jumping = False, health = h, lastGroundY = l, wasFalling = w\<rparr>"
  define p2 where "p2 = p1\<lparr>playerPos := (x', 30, z)\<rparr>"
  define p3 where "p3 = p1\<lparr>playerPos := (x', 30, z')\<rparr>"
  have solid: "\<And>bx bz. isBlockSolid (chunks g) bx 29 bz" "\<And>bx bz. isBlockSolid (chunks g) bx 30 bz"
    unfolding g by (simp_all add: flat_ground_solid)
  have s0: "(player g)\<lparr>playerVelocity := (0, vy - GRAVITY * (1 / 16), 0), onGround := False\<rparr> = p0"
    by (simp add: p p0_def GRAVITY_def)
  have "collideAxis (chunks g) p0 AxisY (1 / 16)
        = (case AxisY of
              AxisY \<Rightarrow> (if vy - 5 / 4 < 0
                         then p0\<lparr>playerPos := (x, of_int \<lfloor>y + (vy - 5 / 4) / 16\<rfloor> + 1, z),
                                 playerVelocity := (0, 0, 0), onGround := True\<rparr>
                         else p0\<lparr>playerPos := (x, of_int \<lfloor>y + (vy - 5 / 4) / 16\<rfloor> - PLAYER_HEIGHT, z),
                                 playerVelocity := (0, 0, 0)\<rparr>)
            | AxisX \<Rightarrow> p0\<lparr>playerPos := ((if (0::rat) > 0 then of_int \<lfloor>x - 3 / 10\<rfloor> - PLAYER_WIDTH / 2
                                         else of_int \<lfloor>x - 3 / 10\<rfloor> + 1 + PLAYER_WIDTH / 2), y, z),
                          playerVelocity := (0, vy - 5 / 4, 0)\<rparr>
            | AxisZ \<Rightarrow> p0\<lparr>playerPos := (x, y, (if (0::rat) > 0 then of_int \<lfloor>z - 3 / 10\<rfloor> - PLAYER_WIDTH / 2
                                                 else of_int \<lfloor>z - 3 / 10\<rfloor> + 1 + PLAYER_WIDTH / 2)),
                          playerVelocity := (0, vy - 5 / 4, 0)\<rparr>,
            True)"
    by (rule collideAxis_first [where tp = "(x, y + (vy - 5 / 4) / 16, z)"])
       (simp_all add: p0_def f solid)
  then have cy: "collideAxis (chunks g) p0 AxisY (1 / 16) = (p1, True)"
    using v by (simp add: p0_def p1_def f)
  have cy': "collideAxis (chunks g)
                ((player g)\<lparr>playerVelocity := (0, vy - GRAVITY * (1 / 16), 0), onGround := False\<rparr>)
                AxisY (1 / 16) = (p1, True)"
    unfolding s0 by (rule cy)
  have "collideAxis (chunks g) p1 AxisX (1 / 16)
        = (case AxisX of
              AxisY \<Rightarrow> (if (0::rat) < 0
                         then p1\<lparr>playerPos := (x, of_int \<lfloor>30 :: rat\<rfloor> + 1, z),
                                 playerVelocity := (0, 0, 0), onGround := True\<rparr>
                         else p1\<lparr>playerPos := (x, of_int \<lfloor>30 :: rat\<rfloor> - PLAYER_HEIGHT, z),
                                 playerVelocity := (0, 0, 0)\<rparr>)
            | AxisX \<Rightarrow> p1\<lparr>playerPos := ((if (0::rat) > 0 then of_int \<lfloor>x - 3 / 10\<rfloor> - PLAYER_WIDTH / 2
                                         else of_int \<lfloor>x - 3 / 10\<rfloor> + 1 + PLAYER_WIDTH / 2), 30, z),
                          playerVelocity := (0, 0, 0)\<rparr>
            | AxisZ \<Rightarrow> p1\<lparr>playerPos := (x, 30, (if (0::rat) > 0 then of_int \<lfloor>z - 3 / 10\<rfloor> - PLAYER_WIDTH / 2
                                                 else of_int \<lfloor>z - 3 / 10\<rfloor> + 1 + PLAYER_WIDTH / 2)),
                          playerVelocity := (0, 0, 0)\<rparr>,
            True)"
    by (rule collideAxis_first [where tp = "(x, 30, z)"]) (simp_all add: p1_def solid)
  then have cx: "collideAxis (chunks g) p1 AxisX (1 / 16) = (p2, True)"
    by (simp add: p1_def p2_def x'_def PLAYER_WIDTH_def)
  have "collideAxis (chunks g) p2 AxisZ (1 / 16)
        = (case AxisZ of
              AxisY \<Rightarrow> (if (0::rat) < 0
                         then p2\<lparr>playerPos := (x', of_int \<lfloor>30 :: rat\<rfloor> + 1, z),
                                 playerVelocity := (0, 0, 0), onGround := True\<rparr>
                         else p2\<lparr>playerPos := (x', of_int \<lfloor>30 :: rat\<rfloor> - PLAYER_HEIGHT, z),
                                 playerVelocity := (0, 0, 0)\<rparr>)
            | AxisX \<Rightarrow> p2\<lparr>playerPos := ((if (0::rat) > 0 then of_int \<lfloor>x' - 3 / 10\<rfloor> - PLAYER_WIDTH / 2
                                         else of_int \<lfloor>x' - 3 / 10\<rfloor> + 1 + PLAYER_WIDTH / 2), 30, z),
                          playerVelocity := (0, 0, 0)\<rparr>
            | AxisZ \<Rightarrow> p2\<lparr>playerPos := (x', 30, (if (0::rat) > 0 then of_int \<lfloor>z - 3 / 10\<rfloor> - PLAYER_WIDTH / 2
                                                 else of_int \<lfloor>z - 3 / 10\<rfloor> + 1 + PLAYER_WIDTH / 2)),
                          playerVelocity := (0, 0, 0)\<rparr>,
            True)"
    by (rule collideAxis_first [where tp = "(x', 30, z)"]) (simp_all add: p1_def p2_def solid)
  then have cz: "collideAxis (chunks g) p2 AxisZ (1 / 16) = (p3, True)"
    by (simp add: p1_def p2_def p3_def z'_def PLAYER_WIDTH_def)
  have "updatePlayer g (0, 0, 0) (1 / 16)
        = g\<lparr>player := p3\<lparr>lastGroundY := 30, wasFalling := False, playerPos := (x', max 0 30, z')\<rparr>\<rparr>"
    using d
    by (intro updatePlayer_grounded [where vx = 0 and vy = vy and vz = 0, OF g(1) _ _ cy' cx cz])
       (simp_all add: p p1_def p3_def)
  then show ?thesis by (simp add: idleFrame_def p1_def p3_def x'_def z'_def)
qed

lemma dropWorld_fields:
  "gameMode (dropWorld\<lparr>player := b\<rparr>) = Survival"
  "chunks (dropWorld\<lparr>player := b\<rparr>) = [((0, 0), flatChunk)]"
  "player (dropWorld\<lparr>player := b\<rparr>) = b"
  "dropWorld\<lparr>player := b, player := b'\<rparr> = dropWorld\<lparr>player := b'\<rparr>"
  by (simp_all add: dropWorld_def)

lemma dropFrames_Suc: "dropFrames (Suc n) = idleFrame (dropFrames n)"
  by (simp add: dropFrames_def)

lemma fall_height: "81 / 2 - 5 / 128 * of_nat (n * (n + 1)) + (- (5 / 4) * of_nat n - 5 / 4) / 16
                    = (81 / 2 - 5 / 128 * of_nat (Suc n * (Suc n + 1)) :: rat)"
  by (simp add: field_simps)

lemma fall_clearance:
  assumes "n \<le> 15"
  shows "(31::rat) \<le> 81 / 2 - 5 / 128 * of_nat (n * (n + 1))"
proof -
  define k where "k = (of_nat (n * (n + 1)) :: rat)"
  have "n * (n + 1) \<le> 15 * 16" using assms by (intro mult_mono) simp_all
  then have "(of_nat (n * (n + 1)) :: rat) \<le> of_nat (15 * 16)" by (rule of_nat_mono)
  then have "k \<le> 240" by (simp add: k_def)
  then have "(31::rat) \<le> 81 / 2 - 5 / 128 * k" by simp
  then show ?thesis unfolding k_def .
qed

lemma fall_phase:
  "n \<le> 15 \<Longrightarrow>
   dropFrames n
   = dropWorld\<lparr>player := \<lparr>playerPos = (17 / 2, 81 / 2 - 5 / 128 * of_nat (n * (n + 1)), 17 / 2),
                             playerVelocity = (0, - (5 / 4) * of_nat n, 0), onGround = False,
                             jumping = False, health = 20, lastGroundY = 0, wasFalling = (0 < n)\<rparr>\<rparr>"
proof (induction n)
  case 0
  show ?case by (simp add: dropFrames_def dropWorld_def newGameRenderer_def)
next
  case (Suc n)
  define b where "b = \<lparr>playerPos = (17 / 2, 81 / 2 - 5 / 128 * of_nat (n * (n + 1)), 17 / 2),
                        playerVelocity = (0, - (5 / 4) * of_nat n, 0), onGround = False,
                        jumping = False, health = 20 :: int, lastGroundY = 0, wasFalling = (0 < n)\<rparr>"
  have s: "dropFrames n = dropWorld\<lparr>player := b\<rparr>" using Suc by (simp add: b_def)
  have c: "(31::rat) \<le> 81 / 2 - 5 / 128 * of_nat (n * (n + 1)) + (- (5 / 4) * of_nat n - 5 / 4) / 16"
    unfolding fall_height using Suc.prems by (rule fall_clearance)
  have step: "idleFrame (dropWorld\<lparr>player := b\<rparr>)
        = dropWorld\<lparr>player := b,
            player := \<lparr>playerPos = (17 / 2, 81 / 2 - 5 / 128 * of_nat (n * (n + 1))
                                             + (- (5 / 4) * of_nat n - 5 / 4) / 16, 17 / 2),
                        playerVelocity = (0, - (5 / 4) * of_nat n - 5 / 4, 0), onGround = False,
                        jumping = False, health = 20, lastGroundY = 0, wasFalling = True\<rparr>\<rparr>"
    by (rule fall_frame [where og = False and w = "0 < n", OF dropWorld_fields(1) dropWorld_fields(2) _ c])
       (simp add: dropWorld_fields(3) b_def)
  show ?case
    unfolding dropFrames_Suc s step dropWorld_fields(4) by (simp add: field_simps)
qed

lemma impact_frame:
  "dropFrames 16
   = dropWorld\<lparr>player := \<lparr>playerPos = (93 / 10, 30, 93 / 10), playerVelocity = (0, 0, 0),
                             onGround = True, jumping = False, health = 20, lastGroundY = 30,
                             wasFalling = False\<rparr>\<rparr>"
proof -
  have f: "\<lfloor>249 / 8 + (- (75 / 4) - 5 / 4) / 16 :: rat\<rfloor> = 29"
    by (rule floor_unique) simp_all
  have x: "\<lfloor>17 / 2 - 3 / 10 :: rat\<rfloor> = 8"
    by (rule floor_unique) simp_all
  define b where "b = \<lparr>playerPos = (17 / 2, 249 / 8, 17 / 2),
                        playerVelocity = (0, - (75 / 4), 0), onGround = False,
                        jumping = False, health = 20 :: int, lastGroundY = 0, wasFalling = True\<rparr>"
  have s: "dropFrames 15 = dropWorld\<lparr>player := b\<rparr>"
    using fall_phase [of 15] by (simp add: b_def)
  have "idleFrame (dropWorld\<lparr>player := b\<rparr>)
        = dropWorld\<lparr>player := b,
            player := \<lparr>playerPos = (of_int \<lfloor>17 / 2 - 3 / 10 :: rat\<rfloor> + 13 / 10, 30,
                                    of_int \<lfloor>17 / 2 - 3 / 10 :: rat\<rfloor> + 13 / 10),
                        playerVelocity = (0, 0, 0), onGround = True, jumping = False,
                        health = 20, lastGroundY = 30, wasFalling = False\<rparr>\<rparr>"
    by (rule ground_frame [where og = False and w = True and l = 0,
                           OF dropWorld_fields(1) dropWorld_fields(2) _ f])
       (simp_all add: dropWorld_fields(3) b_def)
  then have "idleFrame (dropFrames 15)
        = dropWorld\<lparr>player := \<lparr>playerPos = (93 / 10, 30, 93 / 10),
                        playerVelocity = (0, 0, 0), onGround = True, jumping = False,
                        health = 20, lastGroundY = 30, wasFalling = False\<rparr>\<rparr>"
    unfolding s x dropWorld_fields(4) by simp
  moreover have "dropFrames 16 = idleFrame (dropFrames 15)"
    using dropFrames_Suc [of 15] by simp
  ultimately show ?thesis by simp
qed

text \<open>
  A body at rest with its bottom at height 30, inside the surface layer: wherever it is
  horizontally, the next frame leaves its bottom at height 30. The Y sweep finds the cell of
  layer 29 under the body first, which is solid in every column, loaded or not.
\<close>

lemma inside_frame:
  "\<exists>x' z'. idleFrame (dropWorld\<lparr>player := \<lparr>playerPos = (x, 30, z), playerVelocity = (0, 0, 0),
                                                 onGround = True, jumping = False, health = 20,
                                                 lastGroundY = 30, wasFalling = False\<rparr>\<rparr>)
            = dropWorld\<lparr>player := \<lparr>playerPos = (x', 30, z'), playerVelocity = (0, 0, 0),
                                      onGround = True, jumping = False, health = 20,
                                      lastGroundY = 30, wasFalling = False\<rparr>\<rparr>"
proof -
  have f: "\<lfloor>30 + (0 - 5 / 4) / 16 :: rat\<rfloor> = 29"
    by (rule floor_unique) simp_all
  define b where "b = \<lparr>playerPos = (x, 30, z), playerVelocity = (0, 0, 0), onGround = True,
                        jumping = False, health = 20 :: int, lastGroundY = 30, wasFalling = False\<rparr>"
  have "idleFrame (dropWorld\<lparr>player := b\<rparr>)
        = dropWorld\<lparr>player := b,
            player := \<lparr>playerPos = (of_int \<lfloor>x - 3 / 10\<rfloor> + 13 / 10, 30, of_int \<lfloor>z - 3 / 10\<rfloor> + 13 / 10),
                        playerVelocity = (0, 0, 0), onGround = True, jumping = False,
                        health = 20, lastGroundY = 30, wasFalling = False\<rparr>\<rparr>"
    by (rule ground_frame [where og = True and w = False and l = 30,
                           OF dropWorld_fields(1) dropWorld_fields(2) _ f])
       (simp_all add: dropWorld_fields(3) b_def)
  then show ?thesis unfolding dropWorld_fields(4) b_def by blast
qed

lemma inside_forever:
  "\<exists>x z. dropFrames (16 + m)
          = dropWorld\<lparr>player := \<lparr>playerPos = (x, 30, z), playerVelocity = (0, 0, 0),
                                    onGround = True, jumping = False, health = 20,
                                    lastGroundY = 30, wasFalling = False\<rparr>\<rparr>"
proof (induction m)
  case 0
  show ?case using impact_frame by auto
next
  case (Suc m)
  then obtain x z where s: "dropFrames (16 + m)
          = dropWorld\<lparr>player := \<lparr>playerPos = (x, 30, z), playerVelocity = (0, 0, 0),
                                    onGround = True, jumping = False, health = 20,
                                    lastGroundY = 30, wasFalling = False\<rparr>\<rparr>"
    by blast
  have "dropFrames (16 + Suc m) = idleFrame (dropFrames (16 + m))"
    using dropFrames_Suc [of "16 + m"] by simp
  then show ?case unfolding s using inside_frame [of x z] by simp
qed

lemma fall_above:
  assumes "n \<le> 15"
  shows "(31::rat) < 81 / 2 - 5 / 128 * of_nat (n * (n + 1))"
proof -
  define k where "k = (of_nat (n * (n + 1)) :: rat)"
  have "n * (n + 1) \<le> 15 * 16" using assms by (intro mult_mono) simp_all
  then have "(of_nat (n * (n + 1)) :: rat) \<le> of_nat (15 * 16)" by (rule of_nat_mono)
  then have "k \<le> 240" by (simp add: k_def)
  then have "(31::rat) < 81 / 2 - 5 / 128 * k" by simp
  then show ?thesis unfolding k_def .
qed

lemma never_on_surface: "fst (snd (playerPos (player (dropFrames n)))) \<noteq> 31"
proof (cases "n \<le> 15")
  case True
  then show ?thesis using fall_above [OF True] by (simp add: fall_phase dropWorld_fields)
next
  case False
  then obtain m where n: "n = 16 + m" using le_Suc_ex [of 16 n] by auto
  obtain x z where "dropFrames (16 + m)
          = dropWorld\<lparr>player := \<lparr>playerPos = (x, 30, z), playerVelocity = (0, 0, 0),
                                    onGround = True, jumping = False, health = 20,
                                    lastGroundY = 30, wasFalling = False\<rparr>\<rparr>"
    using inside_forever by blast
  then show ?thesis by (simp add: n dropWorld_fields)
qed

text \<open>
  C6. The claim is that the sweep resolves the axes in the order Y, X, Z, each against the
  first solid cell, and that a body dropped onto a flat solid surface therefore comes to
  rest with its bottom on the surface. The scan of the Y axis starts at the lowest cell the
  candidate box overlaps, and the body is put on top of that cell: a body that moves more
  than one block in a frame is put inside the ground. In the flat world, whose surface layer
  is y = 30 with its top face at height 31, a player released at height 40.5 is after 15
  frames at height 31.125, falling at 18.75 blocks per second, and after the 16th frame at
  height 30, inside the surface layer, with its vertical velocity zeroed and its ground flag
  set. From a position inside the surface layer the next frame leaves the bottom at height
  30 whatever the horizontal position is, so the bottom is at height 30 on every later
  frame, and at no frame is it at height 31.
\<close>

theorem dropped_player_sinks_into_ground:
  "isBlockSolid (chunks dropWorld) 8 30 8 \<and> \<not> isBlockSolid (chunks dropWorld) 8 31 8
   \<and> player (dropFrames 15)
       = \<lparr>playerPos = (17 / 2, 249 / 8, 17 / 2), playerVelocity = (0, - (75 / 4), 0),
           onGround = False, jumping = False, health = 20, lastGroundY = 0, wasFalling = True\<rparr>
   \<and> player (dropFrames 16)
       = \<lparr>playerPos = (93 / 10, 30, 93 / 10), playerVelocity = (0, 0, 0), onGround = True,
           jumping = False, health = 20, lastGroundY = 30, wasFalling = False\<rparr>
   \<and> (\<forall>x z. fst (snd (playerPos (player (idleFrame
                 (dropWorld\<lparr>player := \<lparr>playerPos = (x, 30, z), playerVelocity = (0, 0, 0),
                                           onGround = True, jumping = False, health = 20,
                                           lastGroundY = 30, wasFalling = False\<rparr>\<rparr>))))) = 30)
   \<and> (\<forall>n. fst (snd (playerPos (player (dropFrames (16 + n))))) = 30
            \<and> playerVelocity (player (dropFrames (16 + n))) = (0, 0, 0)
            \<and> onGround (player (dropFrames (16 + n))))
   \<and> (\<forall>n. fst (snd (playerPos (player (dropFrames n)))) \<noteq> 31)"
proof -
  have a: "isBlockSolid (chunks dropWorld) 8 30 8"
    by (simp add: dropWorld_def flat_ground_solid)
  have b: "\<not> isBlockSolid (chunks dropWorld) 8 31 8"
    by (simp add: dropWorld_def flat_air_above)
  have c: "player (dropFrames 15)
       = \<lparr>playerPos = (17 / 2, 249 / 8, 17 / 2), playerVelocity = (0, - (75 / 4), 0),
           onGround = False, jumping = False, health = 20, lastGroundY = 0, wasFalling = True\<rparr>"
    using fall_phase [of 15] by (simp add: dropWorld_fields)
  have d: "player (dropFrames 16)
       = \<lparr>playerPos = (93 / 10, 30, 93 / 10), playerVelocity = (0, 0, 0), onGround = True,
           jumping = False, health = 20, lastGroundY = 30, wasFalling = False\<rparr>"
    by (simp add: impact_frame dropWorld_fields)
  have e: "fst (snd (playerPos (player (idleFrame
                 (dropWorld\<lparr>player := \<lparr>playerPos = (x, 30, z), playerVelocity = (0, 0, 0),
                                           onGround = True, jumping = False, health = 20,
                                           lastGroundY = 30, wasFalling = False\<rparr>\<rparr>))))) = 30" for x z
  proof -
    obtain x' z' where "idleFrame (dropWorld\<lparr>player := \<lparr>playerPos = (x, 30, z), playerVelocity = (0, 0, 0),
                                                 onGround = True, jumping = False, health = 20,
                                                 lastGroundY = 30, wasFalling = False\<rparr>\<rparr>)
            = dropWorld\<lparr>player := \<lparr>playerPos = (x', 30, z'), playerVelocity = (0, 0, 0),
                                      onGround = True, jumping = False, health = 20,
                                      lastGroundY = 30, wasFalling = False\<rparr>\<rparr>"
      using inside_frame by blast
    then show ?thesis by (simp add: dropWorld_fields)
  qed
  have f: "fst (snd (playerPos (player (dropFrames (16 + n))))) = 30
            \<and> playerVelocity (player (dropFrames (16 + n))) = (0, 0, 0)
            \<and> onGround (player (dropFrames (16 + n)))" for n
  proof -
    obtain x z where "dropFrames (16 + n)
          = dropWorld\<lparr>player := \<lparr>playerPos = (x, 30, z), playerVelocity = (0, 0, 0),
                                    onGround = True, jumping = False, health = 20,
                                    lastGroundY = 30, wasFalling = False\<rparr>\<rparr>"
      using inside_forever by blast
    then show ?thesis by (simp add: dropWorld_fields)
  qed
  show ?thesis using a b c d e f never_on_surface by blast
qed

section \<open>Chunk generation and the random source\<close>

lemma getBlock_write:
  assumes "wf_chunk c" and "0 \<le> x'" "x' < 16" "0 \<le> z'" "z' < 16"
  shows "getBlock (setBlock c x y z t) x' y' z'
         = (if x' = x \<and> y' = y \<and> z' = z \<and> 0 \<le> y \<and> y < 80 then t mod 256 else getBlock c x' y' z')"
proof (cases "0 \<le> x \<and> x < 16 \<and> 0 \<le> z \<and> z < 16 \<and> 0 \<le> y \<and> y < 80")
  case True
  then show ?thesis using getBlock_setBlock [OF assms(1), of x z x' z' y t y'] assms by auto
next
  case False
  then have "setBlock c x y z t = c"
    by (auto simp add: setBlock_def CHUNK_SIZE_def CHUNK_HEIGHT_def)
  then show ?thesis using False assms by auto
qed

lemma foldl_inv:
  assumes "P s" and "\<And>s a. P s \<Longrightarrow> a \<in> set xs \<Longrightarrow> P (f s a)"
  shows "P (foldl f s xs)"
  using assms by (induction xs arbitrary: s) simp_all

lemma trunk_cell:
  assumes "wf_chunk c" and "0 \<le> qx" "qx < 16" "0 \<le> qz" "qz < 16"
  shows "wf_chunk (foldl (\<lambda>c y. setBlock c tx (ty + y) tz t) c ys)
         \<and> getBlock (foldl (\<lambda>c y. setBlock c tx (ty + y) tz t) c ys) qx qy qz
           = (if qx = tx \<and> qz = tz \<and> qy - ty \<in> set ys \<and> 0 \<le> qy \<and> qy < 80 then t mod 256
              else getBlock c qx qy qz)"
  using assms(1)
proof (induction ys arbitrary: c)
  case Nil
  then show ?case by simp
next
  case (Cons y ys)
  have w: "wf_chunk (setBlock c tx (ty + y) tz t)" using Cons.prems by simp
  have "getBlock (setBlock c tx (ty + y) tz t) qx qy qz
        = (if qx = tx \<and> qy = ty + y \<and> qz = tz \<and> 0 \<le> ty + y \<and> ty + y < 80 then t mod 256
           else getBlock c qx qy qz)"
    using getBlock_write [OF Cons.prems assms(2-5)] .
  then show ?case using Cons.IH [OF w] by auto
qed

lemma leafPut_keeps:
  assumes "keeps v (leaf mod 256) qx qy qz c" and "leaf mod 256 \<noteq> AIR"
    and "0 \<le> qx" "qx < 16" "0 \<le> qz" "qz < 16"
  shows "keeps v (leaf mod 256) qx qy qz (leafPut c lx y lz leaf)"
proof -
  have w: "wf_chunk c" using assms(1) by (simp add: keeps_def)
  show ?thesis
    using assms(1,2) getBlock_write [OF w assms(3-6), of lx y lz leaf qy]
    by (auto simp add: keeps_def leafPut_def)
qed

lemma leafCell_keeps:
  assumes "keeps v (leaf mod 256) qx qy qz (fst st)" and "leaf mod 256 \<noteq> AIR"
    and "0 \<le> qx" "qx < 16" "0 \<le> qz" "qz < 16"
  shows "keeps v (leaf mod 256) qx qy qz (fst (leafCell rnd skip leaf tx tz leafEnd y radius dx st dz))"
  using assms leafPut_keeps [of v leaf qx qy qz "fst st"]
  by (cases st) (simp add: leafCell_def)

lemma leafLayer_keeps:
  assumes "keeps v (leaf mod 256) qx qy qz (fst st)" and "leaf mod 256 \<noteq> AIR"
    and "0 \<le> qx" "qx < 16" "0 \<le> qz" "qz < 16"
  shows "keeps v (leaf mod 256) qx qy qz (fst (leafLayer rnd skip leaf tx tz leafEnd wide st y))"
  unfolding leafLayer_def Let_def
  by (rule foldl_inv [where P = "\<lambda>st. keeps v (leaf mod 256) qx qy qz (fst st)"], rule assms(1),
      rule foldl_inv [where P = "\<lambda>st. keeps v (leaf mod 256) qx qy qz (fst st)"], assumption,
      rule leafCell_keeps [OF _ assms(2-6)])

lemma canopy_keeps:
  assumes "keeps v (leaf mod 256) qx qy qz (fst st)" and "leaf mod 256 \<noteq> AIR"
    and "0 \<le> qx" "qx < 16" "0 \<le> qz" "qz < 16"
  shows "keeps v (leaf mod 256) qx qy qz
           (fst (foldl (leafLayer rnd skip leaf tx tz leafEnd wide) st ys))"
  by (rule foldl_inv [where P = "\<lambda>st. keeps v (leaf mod 256) qx qy qz (fst st)"], rule assms(1),
      rule leafLayer_keeps [OF _ assms(2-6)])

lemma placeTree_cell:
  assumes "wf_chunk c" and "0 \<le> qx" "qx < 16" "0 \<le> qz" "qz < 16"
  shows "keeps (if qx = tx \<and> qz = tz \<and> ty \<le> qy \<and> qy < ty + (4 + \<lfloor>rnd k * 3\<rfloor>) \<and> 0 \<le> qy \<and> qy < 80
                then WOOD else getBlock c qx qy qz)
           LEAVES qx qy qz (fst (placeTree rnd (c, k) tx ty tz))"
proof -
  define n where "n = 4 + \<lfloor>rnd k * 3\<rfloor>"
  define c1 where "c1 = foldl (\<lambda>c y. setBlock c tx (ty + y) tz WOOD) c [0..n - 1]"
  define v where "v = (if qx = tx \<and> qz = tz \<and> ty \<le> qy \<and> qy < ty + n \<and> 0 \<le> qy \<and> qy < 80
                       then WOOD else getBlock c qx qy qz)"
  have m: "qy - ty \<in> set [0..n - 1] \<longleftrightarrow> ty \<le> qy \<and> qy < ty + n" by auto
  have "wf_chunk c1 \<and> getBlock c1 qx qy qz = v"
    using trunk_cell [OF assms, of tx ty tz WOOD "[0..n - 1]" qy]
    unfolding c1_def v_def m by (simp add: WOOD_def)
  then have k: "keeps v (LEAVES mod 256) qx qy qz (fst (c1, k + 1))"
    by (simp add: keeps_def)
  have l: "LEAVES mod 256 \<noteq> AIR" by (simp add: LEAVES_def AIR_def)
  have "keeps v (LEAVES mod 256) qx qy qz
          (fst (foldl (leafLayer rnd (5 / 10) LEAVES tx tz (ty + n + 2) (ty + n + 2 - 1)) (c1, k + 1)
                  [ty + n - 2..ty + n + 2]))"
    using k l assms(2-5) by (rule canopy_keeps)
  moreover have "LEAVES mod 256 = LEAVES" by (simp add: LEAVES_def)
  ultimately show ?thesis
    unfolding v_def n_def c1_def by (simp add: placeTree_def Let_def)
qed

lemma placeBirchTree_cell:
  assumes "wf_chunk c" and "0 \<le> qx" "qx < 16" "0 \<le> qz" "qz < 16"
  shows "keeps (if qx = tx \<and> qz = tz \<and> ty \<le> qy \<and> qy < ty + (5 + \<lfloor>rnd k * 2\<rfloor>) \<and> 0 \<le> qy \<and> qy < 80
                then LOG_BIRCH else getBlock c qx qy qz)
           LEAVES_BIRCH qx qy qz (fst (placeBirchTree rnd (c, k) tx ty tz))"
proof -
  define n where "n = 5 + \<lfloor>rnd k * 2\<rfloor>"
  define c1 where "c1 = foldl (\<lambda>c y. setBlock c tx (ty + y) tz LOG_BIRCH) c [0..n - 1]"
  define v where "v = (if qx = tx \<and> qz = tz \<and> ty \<le> qy \<and> qy < ty + n \<and> 0 \<le> qy \<and> qy < 80
                       then LOG_BIRCH else getBlock c qx qy qz)"
  have m: "qy - ty \<in> set [0..n - 1] \<longleftrightarrow> ty \<le> qy \<and> qy < ty + n" by auto
  have "wf_chunk c1 \<and> getBlock c1 qx qy qz = v"
    using trunk_cell [OF assms, of tx ty tz LOG_BIRCH "[0..n - 1]" qy]
    unfolding c1_def v_def m by (simp add: LOG_BIRCH_def)
  then have k: "keeps v (LEAVES_BIRCH mod 256) qx qy qz (fst (c1, k + 1))"
    by (simp add: keeps_def)
  have l: "LEAVES_BIRCH mod 256 \<noteq> AIR" by (simp add: LEAVES_BIRCH_def AIR_def)
  have "keeps v (LEAVES_BIRCH mod 256) qx qy qz
          (fst (foldl (leafLayer rnd (4 / 10) LEAVES_BIRCH tx tz (ty + n + 1) (ty + n + 1)) (c1, k + 1)
                  [ty + n - 2..ty + n + 1]))"
    using k l assms(2-5) by (rule canopy_keeps)
  moreover have "LEAVES_BIRCH mod 256 = LEAVES_BIRCH" by (simp add: LEAVES_BIRCH_def)
  ultimately show ?thesis
    unfolding v_def n_def c1_def by (simp add: placeBirchTree_def Let_def)
qed

lemma keepsD:
  "keeps v l qx qy qz c \<Longrightarrow> wf_chunk c"
  "keeps v l qx qy qz c \<Longrightarrow> v \<noteq> AIR \<Longrightarrow> getBlock c qx qy qz = v"
  "keeps v l qx qy qz c \<Longrightarrow> getBlock c qx qy qz = v \<or> getBlock c qx qy qz = l"
  by (auto simp add: keeps_def)

lemma treeSite_wf:
  assumes "wf_chunk (fst st)"
  shows "wf_chunk (fst (treeSite gen rnd ox oz st xz))"
proof -
  obtain c k where st: "st = (c, k)" by (cases st)
  obtain x z where xz: "xz = (x, z)" by (cases xz)
  have w: "wf_chunk c" using assms st by simp
  have a: "wf_chunk (fst (placeTree rnd (c, k) x ty z))" for ty
    using keepsD(1) [OF placeTree_cell [where qx = 0 and qz = 0 and qy = 0, OF w]] by simp
  have b: "wf_chunk (fst (placeBirchTree rnd (c, k) x ty z))" for ty
    using keepsD(1) [OF placeBirchTree_cell [where qx = 0 and qz = 0 and qy = 0, OF w]] by simp
  show ?thesis
    using a b w by (simp add: treeSite_def st xz Let_def)
qed

lemma treeSite_other:
  assumes "wf_chunk (fst st)" and "0 \<le> x0" "x0 < 16" "0 \<le> z0" "z0 < 16"
    and "(x, z) \<noteq> (x0, z0)" and "getBlock (fst st) x0 qy z0 \<noteq> AIR"
  shows "getBlock (fst (treeSite gen rnd ox oz st (x, z))) x0 qy z0 = getBlock (fst st) x0 qy z0"
proof -
  obtain c k where st: "st = (c, k)" by (cases st)
  have w: "wf_chunk c" using assms st by simp
  have n: "getBlock c x0 qy z0 \<noteq> AIR" "\<not> (x0 = x \<and> z0 = z)" using assms st by auto
  have a: "getBlock (fst (placeTree rnd (c, k) x ty z)) x0 qy z0 = getBlock c x0 qy z0" for ty
    using keepsD(2) [OF placeTree_cell [where tx = x and tz = z and ty = ty and qy = qy and rnd = rnd and k = k, OF w assms(2-5)]] n by auto
  have b: "getBlock (fst (placeBirchTree rnd (c, k) x ty z)) x0 qy z0 = getBlock c x0 qy z0" for ty
    using keepsD(2) [OF placeBirchTree_cell [where tx = x and tz = z and ty = ty and qy = qy and rnd = rnd and k = k, OF w assms(2-5)]] n by auto
  show ?thesis by (simp add: treeSite_def st Let_def a b)
qed

lemma treeSite_no_wood:
  assumes "wf_chunk (fst st)" and "0 \<le> x0" "x0 < 16" "0 \<le> z0" "z0 < 16"
    and "getBlock (fst st) x0 (getTerrainHeight gen (ox + x0) (oz + z0) + 5) z0 \<noteq> WOOD"
    and lo: "\<And>k. 0 \<le> lo k \<and> lo k < 1 / 3"
  shows "getBlock (fst (treeSite gen lo ox oz st xz)) x0 (getTerrainHeight gen (ox + x0) (oz + z0) + 5) z0
         \<noteq> WOOD"
proof -
  obtain c k where st: "st = (c, k)" by (cases st)
  obtain x z where xz: "xz = (x, z)" by (cases xz)
  define h0 where "h0 = getTerrainHeight gen (ox + x0) (oz + z0)"
  define h where "h = getTerrainHeight gen (ox + x) (oz + z)"
  have w: "wf_chunk c" using assms st by simp
  have n: "getBlock c x0 (h0 + 5) z0 \<noteq> WOOD" using assms st h0_def by simp
  have e: "x0 = x \<and> z0 = z \<Longrightarrow> h = h0" by (simp add: h_def h0_def)
  have l: "LEAVES \<noteq> WOOD" "LEAVES_BIRCH \<noteq> WOOD" "LOG_BIRCH \<noteq> WOOD"
    by (simp_all add: BlockType_defs)
  have "\<lfloor>lo k * 3\<rfloor> = 0" using lo [of k] by (intro floor_unique) simp_all
  then have f: "4 + \<lfloor>lo k * 3\<rfloor> = 4" by simp
  have a: "getBlock (fst (placeTree lo (c, k) x (h + 1) z)) x0 (h0 + 5) z0 \<noteq> WOOD"
    using keepsD(3) [OF placeTree_cell [where tx = x and tz = z and ty = "h + 1" and qy = "h0 + 5"
                                          and rnd = lo and k = k, OF w assms(2-5)]] n e l
    unfolding f by (auto split: if_splits)
  have b: "getBlock (fst (placeBirchTree lo (c, k) x (h + 1) z)) x0 (h0 + 5) z0 \<noteq> WOOD"
    using keepsD(3) [OF placeBirchTree_cell [where tx = x and tz = z and ty = "h + 1" and qy = "h0 + 5"
                                               and rnd = lo and k = k, OF w assms(2-5)]] n l
    by (auto split: if_splits)
  show ?thesis
    using a b n unfolding h_def h0_def by (simp add: treeSite_def st xz Let_def)
qed

lemma treeSite_grows:
  assumes "wf_chunk (fst st)" and "oakSite gen chunkX chunkZ x0 z0"
    and "getBlock (fst st) x0 (getTerrainHeight gen (chunkX * CHUNK_SIZE + x0) (chunkZ * CHUNK_SIZE + z0)) z0
         = GRASS"
    and hi: "\<And>k. 2 / 3 \<le> hi k \<and> hi k < 1"
  shows "getBlock (fst (treeSite gen hi (chunkX * CHUNK_SIZE) (chunkZ * CHUNK_SIZE) st (x0, z0)))
           x0 (getTerrainHeight gen (chunkX * CHUNK_SIZE + x0) (chunkZ * CHUNK_SIZE + z0) + 5) z0
         = WOOD"
proof -
  obtain c k where st: "st = (c, k)" by (cases st)
  define h0 where "h0 = getTerrainHeight gen (chunkX * CHUNK_SIZE + x0) (chunkZ * CHUNK_SIZE + z0)"
  have w: "wf_chunk c" using assms st by simp
  have s: "0 \<le> x0" "x0 < 16" "0 \<le> z0" "z0 < 16" "WATER_LEVEL + 1 < h0" "h0 + 5 < 80"
    using assms(2) by (simp_all add: oakSite_def Let_def h0_def CHUNK_SIZE_def CHUNK_HEIGHT_def)
  have f: "\<lfloor>hi k * 3\<rfloor> = 2" using hi [of k] by (intro floor_unique) simp_all
  have p: "0 \<le> h0" using s(5) by (simp add: WATER_LEVEL_def)
  have "getBlock (fst (placeTree hi (c, k) x0 (h0 + 1) z0)) x0 (h0 + 5) z0 = WOOD"
    using keepsD(2) [OF placeTree_cell [where tx = x0 and tz = z0 and ty = "h0 + 1" and qy = "h0 + 5"
                                          and rnd = hi and k = k, OF w s(1-4)]] s(6) p
    by (simp add: f WOOD_def AIR_def)
  then show ?thesis
    using assms(2,3) s(5) unfolding h0_def
    by (simp add: treeSite_def st Let_def oakSite_def)
qed

lemma treePass_no_wood:
  assumes "wf_chunk (fst st)" and "0 \<le> x0" "x0 < 16" "0 \<le> z0" "z0 < 16"
    and "getBlock (fst st) x0 (getTerrainHeight gen (ox + x0) (oz + z0) + 5) z0 \<noteq> WOOD"
    and lo: "\<And>k. 0 \<le> lo k \<and> lo k < 1 / 3"
  shows "wf_chunk (fst (foldl (treeSite gen lo ox oz) st xs))
         \<and> getBlock (fst (foldl (treeSite gen lo ox oz) st xs))
              x0 (getTerrainHeight gen (ox + x0) (oz + z0) + 5) z0 \<noteq> WOOD"
proof (rule foldl_inv [where P = "\<lambda>st. wf_chunk (fst st)
         \<and> getBlock (fst st) x0 (getTerrainHeight gen (ox + x0) (oz + z0) + 5) z0 \<noteq> WOOD"])
  show "wf_chunk (fst st) \<and> getBlock (fst st) x0 (getTerrainHeight gen (ox + x0) (oz + z0) + 5) z0 \<noteq> WOOD"
    using assms by simp
next
  fix s :: "ChunkData \<times> nat" and a :: "int \<times> int"
  assume "wf_chunk (fst s) \<and> getBlock (fst s) x0 (getTerrainHeight gen (ox + x0) (oz + z0) + 5) z0 \<noteq> WOOD"
  then show "wf_chunk (fst (treeSite gen lo ox oz s a))
         \<and> getBlock (fst (treeSite gen lo ox oz s a))
              x0 (getTerrainHeight gen (ox + x0) (oz + z0) + 5) z0 \<noteq> WOOD"
    using treeSite_wf [of s gen lo ox oz a]
      treeSite_no_wood [where st = s and gen = gen and ox = ox and oz = oz and xz = a and lo = lo,
                        OF _ assms(2-5) _ lo]
    by blast
qed

lemma treePass_grows:
  assumes o: "oakSite gen chunkX chunkZ x0 z0" and "distinct xs" and "wf_chunk (fst st)"
    and "if (x0, z0) \<in> set xs
         then getBlock (fst st) x0 (getTerrainHeight gen (chunkX * CHUNK_SIZE + x0) (chunkZ * CHUNK_SIZE + z0)) z0
              = GRASS
         else getBlock (fst st) x0 (getTerrainHeight gen (chunkX * CHUNK_SIZE + x0) (chunkZ * CHUNK_SIZE + z0) + 5) z0
              = WOOD"
    and hi: "\<And>k. 2 / 3 \<le> hi k \<and> hi k < 1"
  shows "wf_chunk (fst (foldl (treeSite gen hi (chunkX * CHUNK_SIZE) (chunkZ * CHUNK_SIZE)) st xs))
         \<and> getBlock (fst (foldl (treeSite gen hi (chunkX * CHUNK_SIZE) (chunkZ * CHUNK_SIZE)) st xs))
              x0 (getTerrainHeight gen (chunkX * CHUNK_SIZE + x0) (chunkZ * CHUNK_SIZE + z0) + 5) z0 = WOOD"
  using assms(2-4)
proof (induction xs arbitrary: st)
  case Nil
  then show ?case by simp
next
  case (Cons a xs)
  define h0 where "h0 = getTerrainHeight gen (chunkX * CHUNK_SIZE + x0) (chunkZ * CHUNK_SIZE + z0)"
  define st' where "st' = treeSite gen hi (chunkX * CHUNK_SIZE) (chunkZ * CHUNK_SIZE) st a"
  have s: "0 \<le> x0" "x0 < 16" "0 \<le> z0" "z0 < 16"
    using o by (simp_all add: oakSite_def Let_def CHUNK_SIZE_def)
  have w: "wf_chunk (fst st')" unfolding st'_def using Cons.prems(2) by (rule treeSite_wf)
  have d: "distinct xs" "a \<notin> set xs" using Cons.prems(1) by simp_all
  have "if (x0, z0) \<in> set xs then getBlock (fst st') x0 h0 z0 = GRASS
        else getBlock (fst st') x0 (h0 + 5) z0 = WOOD"
  proof (cases "a = (x0, z0)")
    case True
    then have g: "getBlock (fst st) x0 h0 z0 = GRASS" using Cons.prems(3) by (simp add: h0_def)
    have "getBlock (fst st') x0 (h0 + 5) z0 = WOOD"
      unfolding st'_def h0_def True
      using Cons.prems(2) o g [unfolded h0_def] hi by (rule treeSite_grows)
    then show ?thesis using d(2) True by simp
  next
    case False
    obtain x z where a: "a = (x, z)" by (cases a)
    have ne: "(x, z) \<noteq> (x0, z0)" using False a by simp
    show ?thesis
    proof (cases "(x0, z0) \<in> set xs")
      case True
      then have g: "getBlock (fst st) x0 h0 z0 = GRASS" using Cons.prems(3) by (simp add: h0_def)
      then have "getBlock (fst st) x0 h0 z0 \<noteq> AIR" by (simp add: GRASS_def AIR_def)
      then have "getBlock (fst st') x0 h0 z0 = getBlock (fst st) x0 h0 z0"
        unfolding st'_def a using treeSite_other [OF Cons.prems(2) s ne] by blast
      then show ?thesis using True g by simp
    next
      case n: False
      then have g: "getBlock (fst st) x0 (h0 + 5) z0 = WOOD"
        using Cons.prems(3) False by (simp add: h0_def)
      then have "getBlock (fst st) x0 (h0 + 5) z0 \<noteq> AIR" by (simp add: WOOD_def AIR_def)
      then have "getBlock (fst st') x0 (h0 + 5) z0 = getBlock (fst st) x0 (h0 + 5) z0"
        unfolding st'_def a using treeSite_other [OF Cons.prems(2) s ne] by blast
      then show ?thesis using n g by simp
    qed
  qed
  then show ?case
    using Cons.IH [OF d(1) w] unfolding h0_def st'_def by simp
qed

lemma stalk_height:
  assumes "0 \<le> r" "r < 1"
  shows "1 + \<lfloor>r * 3 :: rat\<rfloor> \<le> 3"
proof -
  have "r * 3 < 3" using assms by simp
  then have "\<lfloor>r * 3\<rfloor> < 3" by (simp add: floor_less_iff)
  then show ?thesis by simp
qed

lemma flowerAt_cell:
  assumes "wf_chunk c" and "0 \<le> qx" "qx < 16" "0 \<le> qz" "qz < 16"
    and "\<not> (qx = x \<and> qy = height + 1 \<and> qz = z)"
  shows "wf_chunk (flowerAt gen c worldX worldZ x height z)
         \<and> getBlock (flowerAt gen c worldX worldZ x height z) qx qy qz = getBlock c qx qy qz"
proof -
  have "getBlock (setBlock c x (height + 1) z t) qx qy qz = getBlock c qx qy qz" for t
    using getBlock_write [OF assms(1-5), of x "height + 1" z t qy] assms(6) by auto
  then show ?thesis using assms(1) by (simp add: flowerAt_def Let_def)
qed

lemma vegetationColumn_above:
  assumes "wf_chunk (fst st)" and "0 \<le> x0" "x0 < 16" "0 \<le> z0" "z0 < 16"
    and "WATER_LEVEL + 1 < getTerrainHeight gen (ox + x0) (oz + z0)"
    and "\<And>k. 0 \<le> rnd k \<and> rnd k < 1"
  shows "wf_chunk (fst (vegetationColumn gen rnd ox oz st xz))
         \<and> getBlock (fst (vegetationColumn gen rnd ox oz st xz))
              x0 (getTerrainHeight gen (ox + x0) (oz + z0) + 5) z0
           = getBlock (fst st) x0 (getTerrainHeight gen (ox + x0) (oz + z0) + 5) z0"
proof -
  obtain c k where st: "st = (c, k)" by (cases st)
  obtain x z where xz: "xz = (x, z)" by (cases xz)
  let ?site = "getTerrainHeight gen (ox + x0) (oz + z0)"
  let ?col = "getTerrainHeight gen (ox + x) (oz + z)"
  let ?lily = "setBlock c x (WATER_LEVEL + 1) z LILY_PAD"
  have w: "wf_chunk c" using assms st by simp
  have hh: "WATER_LEVEL + 1 < ?site" using assms(6) by simp
  have e: "x0 = x \<and> z0 = z \<Longrightarrow> ?col = ?site" by simp
  have w1: "wf_chunk ?lily" using w by simp
  have r1: "getBlock ?lily x0 (?site + 5) z0 = getBlock c x0 (?site + 5) z0"
    using getBlock_write [OF w assms(2-5), of x "WATER_LEVEL + 1" z LILY_PAD "?site + 5"] hh
    by auto
  have n: "1 + \<lfloor>rnd k * 3\<rfloor> \<le> 3" using assms(7) [of k] stalk_height by blast
  have stalk: "wf_chunk (foldl (\<lambda>c cy. setBlock c x (?col + cy) z t) d [1..1 + \<lfloor>rnd k * 3\<rfloor>])
               \<and> getBlock (foldl (\<lambda>c cy. setBlock c x (?col + cy) z t) d [1..1 + \<lfloor>rnd k * 3\<rfloor>]) x0 (?site + 5) z0
                 = getBlock d x0 (?site + 5) z0" if "wf_chunk d" for d t
    using trunk_cell [OF that assms(2-5), of x ?col z t "[1..1 + \<lfloor>rnd k * 3\<rfloor>]" "?site + 5"] n e
    by auto
  have ne: "\<not> (x0 = x \<and> ?site + 5 = ?col + 1 \<and> z0 = z)" using e by auto
  have fl: "wf_chunk (flowerAt gen d (ox + x) (oz + z) x ?col z)
            \<and> getBlock (flowerAt gen d (ox + x) (oz + z) x ?col z) x0 (?site + 5) z0 = getBlock d x0 (?site + 5) z0"
    if "wf_chunk d" for d
    using that assms(2-5) ne by (rule flowerAt_cell)
  show ?thesis
    unfolding st xz vegetationColumn_def Let_def
    using w w1 r1 stalk [OF w] stalk [OF w1] fl [OF w] fl [OF w1]
    by (simp split: if_splits)
qed

lemma vegetationPass_above:
  assumes "wf_chunk (fst st)" and "0 \<le> x0" "x0 < 16" "0 \<le> z0" "z0 < 16"
    and "WATER_LEVEL + 1 < getTerrainHeight gen (ox + x0) (oz + z0)"
    and "\<And>k. 0 \<le> rnd k \<and> rnd k < 1"
  shows "getBlock (fst (foldl (vegetationColumn gen rnd ox oz) st xs))
              x0 (getTerrainHeight gen (ox + x0) (oz + z0) + 5) z0
           = getBlock (fst st) x0 (getTerrainHeight gen (ox + x0) (oz + z0) + 5) z0"
proof -
  have "wf_chunk (fst (foldl (vegetationColumn gen rnd ox oz) st xs))
        \<and> getBlock (fst (foldl (vegetationColumn gen rnd ox oz) st xs))
              x0 (getTerrainHeight gen (ox + x0) (oz + z0) + 5) z0
           = getBlock (fst st) x0 (getTerrainHeight gen (ox + x0) (oz + z0) + 5) z0"
  proof (rule foldl_inv [where P = "\<lambda>s. wf_chunk (fst s)
           \<and> getBlock (fst s) x0 (getTerrainHeight gen (ox + x0) (oz + z0) + 5) z0
             = getBlock (fst st) x0 (getTerrainHeight gen (ox + x0) (oz + z0) + 5) z0"])
    show "wf_chunk (fst st) \<and> getBlock (fst st) x0 (getTerrainHeight gen (ox + x0) (oz + z0) + 5) z0
             = getBlock (fst st) x0 (getTerrainHeight gen (ox + x0) (oz + z0) + 5) z0"
      using assms(1) by simp
  next
    fix s :: "ChunkData \<times> nat" and a :: "int \<times> int"
    assume "wf_chunk (fst s) \<and> getBlock (fst s) x0 (getTerrainHeight gen (ox + x0) (oz + z0) + 5) z0
             = getBlock (fst st) x0 (getTerrainHeight gen (ox + x0) (oz + z0) + 5) z0"
    then show "wf_chunk (fst (vegetationColumn gen rnd ox oz s a))
           \<and> getBlock (fst (vegetationColumn gen rnd ox oz s a)) x0 (getTerrainHeight gen (ox + x0) (oz + z0) + 5) z0
             = getBlock (fst st) x0 (getTerrainHeight gen (ox + x0) (oz + z0) + 5) z0"
      using vegetationColumn_above [where st = s and xz = a, OF _ assms(2-7)] by simp
  qed
  then show ?thesis by simp
qed

lemma write_below:
  assumes "wf_chunk d" and "0 \<le> qx" "qx < 16" "0 \<le> qz" "qz < 16" and "y' < qy"
  shows "getBlock (setBlock d x' y' z' t) qx qy qz = getBlock d qx qy qz"
  using getBlock_write [OF assms(1-5), of x' y' z' t qy] assms(6) by auto

lemma caveCell_high:
  assumes "wf_chunk c" and "0 \<le> qx" "qx < 16" "0 \<le> qz" "qz < 16" and "WATER_LEVEL \<le> qy"
  shows "wf_chunk (caveCell gen worldX worldZ caveTop x z c y)
         \<and> getBlock (caveCell gen worldX worldZ caveTop x z c y) qx qy qz = getBlock c qx qy qz"
proof (cases "y < WATER_LEVEL - 1")
  case False
  then show ?thesis using assms(1) by (simp add: caveCell_def Let_def)
next
  case True
  have b: "y < qy" "y + 1 < qy" "y - 1 < qy" using True assms(6) by simp_all
  have r: "wf_chunk d \<Longrightarrow> y' = y \<or> y' = y + 1 \<or> y' = y - 1
           \<Longrightarrow> getBlock (setBlock d x' y' z' t) qx qy qz = getBlock d qx qy qz" for d x' y' z' t
    using write_below [OF _ assms(2-5)] b by blast
  show ?thesis using assms(1) by (simp add: caveCell_def Let_def r)
qed

lemma expandCell_high:
  assumes "wf_chunk c" and "0 \<le> qx" "qx < 16" "0 \<le> qz" "qz < 16" and "WATER_LEVEL \<le> qy"
  shows "wf_chunk (expandCell x z c y)
         \<and> getBlock (expandCell x z c y) qx qy qz = getBlock c qx qy qz"
proof (cases "y < WATER_LEVEL - 1")
  case False
  then show ?thesis using assms(1) by (simp add: expandCell_def Let_def)
next
  case True
  have "y < qy" using True assms(6) by simp
  then have "getBlock (setBlock c x y z AIR) qx qy qz = getBlock c qx qy qz"
    using write_below [OF assms(1-5)] by blast
  then show ?thesis using assms(1) by (simp add: expandCell_def Let_def)
qed

lemma carveCaves_high:
  assumes "wf_chunk c" and "0 \<le> qx" "qx < 16" "0 \<le> qz" "qz < 16" and "WATER_LEVEL \<le> qy"
  shows "wf_chunk (carveCaves gen c ox oz)
         \<and> getBlock (carveCaves gen c ox oz) qx qy qz = getBlock c qx qy qz"
proof -
  let ?P = "\<lambda>d. wf_chunk d \<and> getBlock d qx qy qz = getBlock c qx qy qz"
  have cell: "?P d \<Longrightarrow> ?P (caveCell gen worldX worldZ caveTop x z d y)" for d worldX worldZ caveTop x z y
    using caveCell_high [OF _ assms(2-6)] by simp
  have col: "?P d \<Longrightarrow> ?P (caveColumn gen ox oz d xz)" for d xz
    unfolding caveColumn_def Let_def
    by (cases xz) (simp, rule foldl_inv [where P = ?P], assumption, rule cell)
  have ecell: "?P d \<Longrightarrow> ?P (expandCell x z d y)" for d x z y
    using expandCell_high [OF _ assms(2-6)] by simp
  have ecol: "?P d \<Longrightarrow> ?P (expandColumn gen ox oz d xz)" for d xz
    unfolding expandColumn_def Let_def
    by (cases xz) (simp, rule foldl_inv [where P = ?P], assumption, rule ecell)
  have "?P c" using assms(1) by simp
  then have "?P (foldl (caveColumn gen ox oz) c (List.product [0..CHUNK_SIZE - 1] [0..CHUNK_SIZE - 1]))"
    by (rule foldl_inv [where P = ?P]) (rule col)
  then have "?P (foldl (expandColumn gen ox oz)
                  (foldl (caveColumn gen ox oz) c (List.product [0..CHUNK_SIZE - 1] [0..CHUNK_SIZE - 1]))
                  (List.product [1..CHUNK_SIZE - 2] [1..CHUNK_SIZE - 2]))"
    by (rule foldl_inv [where P = ?P]) (rule ecol)
  then show ?thesis using assms(1) by (simp add: carveCaves_def Let_def)
qed

lemma if_both: "P a \<Longrightarrow> P b \<Longrightarrow> P (if c then a else b)"
  by simp

lemma terrainCell_frame:
  assumes "wf_chunk c" and "0 \<le> qx" "qx < 16" "0 \<le> qz" "qz < 16"
    and "\<not> (qx = x \<and> qy = y \<and> qz = z)"
  shows "wf_chunk (terrainCell gen worldX worldZ height x z c y)
         \<and> getBlock (terrainCell gen worldX worldZ height x z c y) qx qy qz = getBlock c qx qy qz"
proof -
  let ?P = "\<lambda>d. wf_chunk d \<and> getBlock d qx qy qz = getBlock c qx qy qz"
  have r: "?P d \<Longrightarrow> ?P (setBlock d x y z t)" for d t
    using getBlock_write [OF _ assms(2-5), of d x y z t qy] assms(6) by auto
  have c: "?P c" using assms(1) by simp
  show ?thesis
    unfolding terrainCell_def Let_def
    by (intro if_both [where P = ?P] r c)
qed

lemma terrainCell_surface:
  assumes "wf_chunk c" and "0 \<le> x" "x < 16" "0 \<le> z" "z < 16"
    and "WATER_LEVEL + 1 < height" "height < 80" and "\<not> biomeAt gen worldX worldZ < - (3 / 10)"
  shows "getBlock (terrainCell gen worldX worldZ height x z c height) x height z = GRASS"
proof -
  have "0 \<le> height" using assms(6) by (simp add: WATER_LEVEL_def)
  then have "getBlock (setBlock c x height z GRASS) x height z = GRASS"
    using getBlock_write [OF assms(1-5), of x height z GRASS height] assms(7) by (simp add: GRASS_def)
  then show ?thesis
    using assms(6,8) by (simp add: terrainCell_def Let_def WATER_LEVEL_def BEDROCK_LEVEL_def)
qed

lemma terrainColumn_frame:
  assumes "wf_chunk c" and "0 \<le> qx" "qx < 16" "0 \<le> qz" "qz < 16"
    and "(qx, qz) \<noteq> xz
         \<or> (qy > getTerrainHeight gen (ox + qx) (oz + qz) \<and> qy > WATER_LEVEL)"
  shows "wf_chunk (terrainColumn gen ox oz c xz)
         \<and> getBlock (terrainColumn gen ox oz c xz) qx qy qz = getBlock c qx qy qz"
proof -
  obtain x z where xz: "xz = (x, z)" by (cases xz)
  let ?col = "getTerrainHeight gen (ox + x) (oz + z)"
  let ?P = "\<lambda>d. wf_chunk d \<and> getBlock d qx qy qz = getBlock c qx qy qz"
  have out: "\<not> (qx = x \<and> qy = y \<and> qz = z)" if "y \<in> set [0..max ?col WATER_LEVEL]" for y
    using assms(6) that xz by auto
  have f: "?P (foldl (terrainCell gen (ox + x) (oz + z) ?col x z) c [0..max ?col WATER_LEVEL])"
  proof (rule foldl_inv [where P = ?P])
    show "?P c" using assms(1) by simp
  next
    fix s a assume "?P s" and "a \<in> set [0..max ?col WATER_LEVEL]"
    then show "?P (terrainCell gen (ox + x) (oz + z) ?col x z s a)"
      using terrainCell_frame [OF _ assms(2-5) out, of s a gen "ox + x" "oz + z" ?col] by simp
  qed
  have g: "?P (setBlock (foldl (terrainCell gen (ox + x) (oz + z) ?col x z) c [0..max ?col WATER_LEVEL])
                x ?col z CLAY)"
    using f getBlock_write [OF _ assms(2-5), of _ x ?col z CLAY qy] assms(6) xz by auto
  show ?thesis
    unfolding terrainColumn_def xz prod.case Let_def
    by (rule if_both [where P = ?P]) (rule g, rule f)
qed

lemma terrainColumn_surface:
  assumes "wf_chunk c" and "0 \<le> x" "x < 16" "0 \<le> z" "z < 16"
    and "WATER_LEVEL + 1 < getTerrainHeight gen (ox + x) (oz + z)"
    and "getTerrainHeight gen (ox + x) (oz + z) < 80"
    and "\<not> biomeAt gen (ox + x) (oz + z) < - (3 / 10)"
  shows "getBlock (terrainColumn gen ox oz c (x, z)) x (getTerrainHeight gen (ox + x) (oz + z)) z = GRASS"
proof -
  let ?col = "getTerrainHeight gen (ox + x) (oz + z)"
  let ?f = "terrainCell gen (ox + x) (oz + z) ?col x z"
  have m: "max ?col WATER_LEVEL = ?col" using assms(6) by simp
  have p: "0 \<le> ?col" using assms(6) by (simp add: WATER_LEVEL_def)
  have u: "[0..?col] = [0..?col - 1] @ [?col]" using p by (rule upto_rec2)
  have w: "wf_chunk (foldl ?f c [0..?col - 1])"
  proof (rule foldl_inv [where P = wf_chunk])
    show "wf_chunk c" by (rule assms(1))
  next
    fix s a assume "wf_chunk s"
    then show "wf_chunk (?f s a)" by (simp add: terrainCell_def Let_def)
  qed
  have "getBlock (?f (foldl ?f c [0..?col - 1]) ?col) x ?col z = GRASS"
    using w assms(2-8) by (rule terrainCell_surface)
  then have "getBlock (foldl ?f c [0..max ?col WATER_LEVEL]) x ?col z = GRASS"
    unfolding m by (subst u) simp
  moreover have "\<not> ?col < WATER_LEVEL - 2" using assms(6) by simp
  ultimately show ?thesis
    by (simp add: terrainColumn_def Let_def)
qed

lemma terrainPass_above:
  assumes "wf_chunk c" and "0 \<le> qx" "qx < 16" "0 \<le> qz" "qz < 16"
    and "qy > getTerrainHeight gen (ox + qx) (oz + qz)" "qy > WATER_LEVEL"
  shows "wf_chunk (foldl (terrainColumn gen ox oz) c xs)
         \<and> getBlock (foldl (terrainColumn gen ox oz) c xs) qx qy qz = getBlock c qx qy qz"
proof (rule foldl_inv [where P = "\<lambda>d. wf_chunk d \<and> getBlock d qx qy qz = getBlock c qx qy qz"])
  show "wf_chunk c \<and> getBlock c qx qy qz = getBlock c qx qy qz" using assms(1) by simp
next
  fix s a assume "wf_chunk s \<and> getBlock s qx qy qz = getBlock c qx qy qz"
  then show "wf_chunk (terrainColumn gen ox oz s a)
             \<and> getBlock (terrainColumn gen ox oz s a) qx qy qz = getBlock c qx qy qz"
    using terrainColumn_frame [where c = s and xz = a and qy = qy and gen = gen and ox = ox and oz = oz, OF _ assms(2-5)] assms(6,7) by simp
qed

lemma terrainPass_surface:
  assumes s: "0 \<le> x" "x < 16" "0 \<le> z" "z < 16"
    and h: "WATER_LEVEL + 1 < getTerrainHeight gen (ox + x) (oz + z)"
      "getTerrainHeight gen (ox + x) (oz + z) < 80"
      "\<not> biomeAt gen (ox + x) (oz + z) < - (3 / 10)"
    and "distinct xs" and "wf_chunk c"
    and "(x, z) \<in> set xs \<or> getBlock c x (getTerrainHeight gen (ox + x) (oz + z)) z = GRASS"
  shows "wf_chunk (foldl (terrainColumn gen ox oz) c xs)
         \<and> getBlock (foldl (terrainColumn gen ox oz) c xs) x (getTerrainHeight gen (ox + x) (oz + z)) z
           = GRASS"
  using assms(8-10)
proof (induction xs arbitrary: c)
  case Nil
  then show ?case by simp
next
  case (Cons a xs)
  let ?col = "getTerrainHeight gen (ox + x) (oz + z)"
  have d: "distinct xs" "a \<notin> set xs" using Cons.prems(1) by simp_all
  show ?case
  proof (cases "a = (x, z)")
    case True
    have w: "wf_chunk (terrainColumn gen ox oz c a)"
      using terrainColumn_frame [where xz = a and qy = "?col + 100" and gen = gen and ox = ox and oz = oz, OF Cons.prems(2) s] h(1) True by simp
    have "getBlock (terrainColumn gen ox oz c a) x ?col z = GRASS"
      unfolding True using Cons.prems(2) s h by (rule terrainColumn_surface)
    then show ?thesis using Cons.IH [OF d(1) w] by simp
  next
    case False
    have f: "wf_chunk (terrainColumn gen ox oz c a)
             \<and> getBlock (terrainColumn gen ox oz c a) x ?col z = getBlock c x ?col z"
      using terrainColumn_frame [where xz = a and qy = ?col and gen = gen and ox = ox and oz = oz, OF Cons.prems(2) s] False by auto
    have "(x, z) \<in> set xs \<or> getBlock (terrainColumn gen ox oz c a) x ?col z = GRASS"
      using Cons.prems(3) False f by auto
    then show ?thesis using Cons.IH [OF d(1)] f by simp
  qed
qed

lemma columns_distinct: "distinct (List.product [a..b] [c..d])"
  by (simp add: distinct_product)

lemma fresh_chunk:
  "wf_chunk \<lparr>blocks = replicate (nat (CHUNK_SIZE * CHUNK_SIZE * CHUNK_HEIGHT)) 0, cx = chunkX, cz = chunkZ\<rparr>"
  "getBlock \<lparr>blocks = replicate (nat (CHUNK_SIZE * CHUNK_SIZE * CHUNK_HEIGHT)) 0, cx = chunkX, cz = chunkZ\<rparr>
     qx qy qz = AIR"
proof -
  show "wf_chunk \<lparr>blocks = replicate (nat (CHUNK_SIZE * CHUNK_SIZE * CHUNK_HEIGHT)) 0, cx = chunkX, cz = chunkZ\<rparr>"
    by (simp add: wf_chunk_def)
  have "0 \<le> qx \<Longrightarrow> qx < 16 \<Longrightarrow> 0 \<le> qy \<Longrightarrow> qy < 80 \<Longrightarrow> 0 \<le> qz \<Longrightarrow> qz < 16
        \<Longrightarrow> nat (getIndex qx qy qz) < 20480"
    using getIndex_bounds [of qx qy qz] by linarith
  then show "getBlock \<lparr>blocks = replicate (nat (CHUNK_SIZE * CHUNK_SIZE * CHUNK_HEIGHT)) 0, cx = chunkX, cz = chunkZ\<rparr>
     qx qy qz = AIR"
    by (auto simp add: getBlock_def CHUNK_SIZE_def CHUNK_HEIGHT_def AIR_def)
qed

lemma product_mem:
  "(x, z) \<in> set (List.product [a..b] [c..d]) \<longleftrightarrow> a \<le> x \<and> x \<le> b \<and> c \<le> z \<and> z \<le> d"
  by auto

lemma before_trees:
  assumes o: "oakSite gen chunkX chunkZ x z"
  defines "h \<equiv> getTerrainHeight gen (chunkX * CHUNK_SIZE + x) (chunkZ * CHUNK_SIZE + z)"
  defines "c2 \<equiv> carveCaves gen
                   (foldl (terrainColumn gen (chunkX * CHUNK_SIZE) (chunkZ * CHUNK_SIZE))
                      \<lparr>blocks = replicate (nat (CHUNK_SIZE * CHUNK_SIZE * CHUNK_HEIGHT)) 0,
                         cx = chunkX, cz = chunkZ\<rparr>
                      (List.product [0..CHUNK_SIZE - 1] [0..CHUNK_SIZE - 1]))
                   (chunkX * CHUNK_SIZE) (chunkZ * CHUNK_SIZE)"
  shows "wf_chunk c2" and "getBlock c2 x h z = GRASS" and "getBlock c2 x (h + 5) z = AIR"
proof -
  let ?c0 = "\<lparr>blocks = replicate (nat (CHUNK_SIZE * CHUNK_SIZE * CHUNK_HEIGHT)) 0,
               cx = chunkX, cz = chunkZ\<rparr>"
  let ?cols = "List.product [0..CHUNK_SIZE - 1] [0..CHUNK_SIZE - 1]"
  let ?c1 = "foldl (terrainColumn gen (chunkX * CHUNK_SIZE) (chunkZ * CHUNK_SIZE)) ?c0 ?cols"
  have s: "0 \<le> x" "x < 16" "0 \<le> z" "z < 16"
    using o by (simp_all add: oakSite_def Let_def CHUNK_SIZE_def)
  have hs: "WATER_LEVEL + 1 < h" "h < 80"
      "\<not> biomeAt gen (chunkX * CHUNK_SIZE + x) (chunkZ * CHUNK_SIZE + z) < - (3 / 10)"
    using o by (simp_all add: oakSite_def Let_def h_def CHUNK_HEIGHT_def)
  have m: "(x, z) \<in> set ?cols" unfolding product_mem using s by (simp add: CHUNK_SIZE_def)
  have g1: "wf_chunk ?c1 \<and> getBlock ?c1 x h z = GRASS"
    unfolding h_def
    by (rule terrainPass_surface [OF s hs [unfolded h_def] columns_distinct fresh_chunk(1)])
       (use m in blast)
  have a1: "getBlock ?c1 x (h + 5) z = AIR"
    using terrainPass_above [where qy = "h + 5" and gen = gen and ox = "chunkX * CHUNK_SIZE"
            and oz = "chunkZ * CHUNK_SIZE" and xs = ?cols, OF fresh_chunk(1) s] hs(1)
    by (simp add: h_def fresh_chunk(2))
  have hi: "WATER_LEVEL \<le> h" "WATER_LEVEL \<le> h + 5" using hs(1) by simp_all
  show "wf_chunk c2"
    unfolding c2_def using carveCaves_high [OF _ s hi(1)] g1 by blast
  show "getBlock c2 x h z = GRASS"
    unfolding c2_def using carveCaves_high [OF _ s hi(1)] g1 by simp
  show "getBlock c2 x (h + 5) z = AIR"
    unfolding c2_def using carveCaves_high [OF _ s hi(2)] g1 a1 by simp
qed

lemma houseAt_none: "noHouse gen chunkX chunkZ \<Longrightarrow> houseAt gen c chunkX chunkZ = c"
  by (simp add: houseAt_def noHouse_def Let_def)

lemma generateChunk_short_oak:
  assumes o: "oakSite gen chunkX chunkZ x z" and n: "noHouse gen chunkX chunkZ"
    and lo: "\<And>k. 0 \<le> lo k \<and> lo k < 1 / 3"
  shows "getBlock (generateChunk gen lo chunkX chunkZ) x
           (getTerrainHeight gen (chunkX * CHUNK_SIZE + x) (chunkZ * CHUNK_SIZE + z) + 5) z \<noteq> WOOD"
proof -
  let ?h = "getTerrainHeight gen (chunkX * CHUNK_SIZE + x) (chunkZ * CHUNK_SIZE + z)"
  let ?ox = "chunkX * CHUNK_SIZE" and ?oz = "chunkZ * CHUNK_SIZE"
  let ?c2 = "carveCaves gen
               (foldl (terrainColumn gen ?ox ?oz)
                  \<lparr>blocks = replicate (nat (CHUNK_SIZE * CHUNK_SIZE * CHUNK_HEIGHT)) 0,
                     cx = chunkX, cz = chunkZ\<rparr>
                  (List.product [0..CHUNK_SIZE - 1] [0..CHUNK_SIZE - 1]))
               ?ox ?oz"
  let ?st = "foldl (treeSite gen lo ?ox ?oz) (?c2, 0) (List.product [2..CHUNK_SIZE - 3] [2..CHUNK_SIZE - 3])"
  have s: "0 \<le> x" "x < 16" "0 \<le> z" "z < 16" "WATER_LEVEL + 1 < ?h"
      "worldType (worldGenConfig gen) \<noteq> Flat"
    using o by (simp_all add: oakSite_def Let_def CHUNK_SIZE_def)
  have w: "wf_chunk (fst (?c2, 0::nat))" using before_trees(1) [OF o] by simp
  have a: "getBlock (fst (?c2, 0::nat)) x (?h + 5) z \<noteq> WOOD"
    using before_trees(3) [OF o] by (simp add: AIR_def WOOD_def)
  have t: "wf_chunk (fst ?st) \<and> getBlock (fst ?st) x (?h + 5) z \<noteq> WOOD"
    using w s(1-4) a lo by (rule treePass_no_wood)
  have r: "\<And>k. 0 \<le> lo k \<and> lo k < 1"
  proof -
    fix k
    have "lo k < 1 / 3" using lo by blast
    then have "lo k < 1" by simp
    then show "0 \<le> lo k \<and> lo k < 1" using lo by blast
  qed
  have v: "getBlock (fst (foldl (vegetationColumn gen lo ?ox ?oz) ?st
                            (List.product [0..CHUNK_SIZE - 1] [0..CHUNK_SIZE - 1]))) x (?h + 5) z
           = getBlock (fst ?st) x (?h + 5) z"
    using t s(1-5) r by (intro vegetationPass_above) simp_all
  show ?thesis
    using v t s(6) by (simp add: generateChunk_def Let_def houseAt_none [OF n])
qed

lemma generateChunk_tall_oak:
  assumes o: "oakSite gen chunkX chunkZ x z" and n: "noHouse gen chunkX chunkZ"
    and hi: "\<And>k. 2 / 3 \<le> hi k \<and> hi k < 1"
  shows "getBlock (generateChunk gen hi chunkX chunkZ) x
           (getTerrainHeight gen (chunkX * CHUNK_SIZE + x) (chunkZ * CHUNK_SIZE + z) + 5) z = WOOD"
proof -
  let ?h = "getTerrainHeight gen (chunkX * CHUNK_SIZE + x) (chunkZ * CHUNK_SIZE + z)"
  let ?ox = "chunkX * CHUNK_SIZE" and ?oz = "chunkZ * CHUNK_SIZE"
  let ?c2 = "carveCaves gen
               (foldl (terrainColumn gen ?ox ?oz)
                  \<lparr>blocks = replicate (nat (CHUNK_SIZE * CHUNK_SIZE * CHUNK_HEIGHT)) 0,
                     cx = chunkX, cz = chunkZ\<rparr>
                  (List.product [0..CHUNK_SIZE - 1] [0..CHUNK_SIZE - 1]))
               ?ox ?oz"
  let ?sites = "List.product [2..CHUNK_SIZE - 3] [2..CHUNK_SIZE - 3]"
  let ?st = "foldl (treeSite gen hi ?ox ?oz) (?c2, 0) ?sites"
  have s: "0 \<le> x" "x < 16" "0 \<le> z" "z < 16" "WATER_LEVEL + 1 < ?h"
      "worldType (worldGenConfig gen) \<noteq> Flat"
    using o by (simp_all add: oakSite_def Let_def CHUNK_SIZE_def)
  have m: "(x, z) \<in> set ?sites"
    unfolding product_mem using o by (simp add: oakSite_def Let_def CHUNK_SIZE_def)
  have w: "wf_chunk (fst (?c2, 0::nat))" using before_trees(1) [OF o] by simp
  have g: "if (x, z) \<in> set ?sites then getBlock (fst (?c2, 0::nat)) x ?h z = GRASS
           else getBlock (fst (?c2, 0::nat)) x (?h + 5) z = WOOD"
    using before_trees(2) [OF o] m by simp
  have t: "wf_chunk (fst ?st) \<and> getBlock (fst ?st) x (?h + 5) z = WOOD"
    using o columns_distinct w g hi by (rule treePass_grows)
  have r: "\<And>k. 0 \<le> hi k \<and> hi k < 1"
  proof -
    fix k
    have "2 / 3 \<le> hi k" using hi by blast
    then have "0 \<le> hi k" by simp
    then show "0 \<le> hi k \<and> hi k < 1" using hi by blast
  qed
  have v: "getBlock (fst (foldl (vegetationColumn gen hi ?ox ?oz) ?st
                            (List.product [0..CHUNK_SIZE - 1] [0..CHUNK_SIZE - 1]))) x (?h + 5) z
           = getBlock (fst ?st) x (?h + 5) z"
    using t s(1-5) r by (intro vegetationPass_above) simp_all
  show ?thesis
    using v t s(6) by (simp add: generateChunk_def Let_def houseAt_none [OF n])
qed

lemma world12345_fields:
  "worldType (worldGenConfig world12345) = Normal"
  "noise world12345 = shuffled12356 @ shuffled12356"
  "treeNoise world12345 = shuffled12374 @ shuffled12374"
  "biomeNoise world12345 = shuffled12416 @ shuffled12416"
  "houseNoise world12345 = shuffled12434 @ shuffled12434"
  by (simp_all add: world12345_def)

lemma world12345_base:
  "fbm (shuffled12356 @ shuffled12356) (1 / 5) (9 / 25) 6 2 (1 / 2) = 15265608206 / 76904296875"
  by code_simp

lemma world12345_detail:
  "fbm (shuffled12356 @ shuffled12356) (3 / 4) (27 / 20) 3 2 (1 / 2) = 645651399 / 3584000000"
  by code_simp

lemma world12345_micro:
  "noise2D (shuffled12356 @ shuffled12356) 2 (18 / 5) = 258 / 3125"
  by code_simp

lemma world12345_biome:
  "fbm (shuffled12416 @ shuffled12416) (3 / 40) (27 / 200) 3 2 (1 / 2)
   = 62509414761002776293 / 286720000000000000000"
  by code_simp

lemma world12345_tree: "noise2D (shuffled12374 @ shuffled12374) (25 / 2) (45 / 2) = 3 / 4"
  by code_simp

lemma world12345_birch: "noise2D (shuffled12374 @ shuffled12374) 505 509 = 0"
  by code_simp

lemma world12345_house: "noise2D (shuffled12434 @ shuffled12434) (3 / 10) (3 / 5) = - (75051 / 125000)"
  by code_simp

lemma world12345_height: "getTerrainHeight world12345 25 45 = 35"
  by (simp add: getTerrainHeight_def biomeAt_def Let_def world12345_fields world12345_base
        world12345_detail world12345_micro world12345_biome SEA_LEVEL_def BEDROCK_LEVEL_def
        CHUNK_HEIGHT_def floor_rat_numeral)

lemma world12345_oak: "oakSite world12345 1 2 9 13"
  by (simp add: oakSite_def Let_def CHUNK_SIZE_def CHUNK_HEIGHT_def WATER_LEVEL_def world12345_height
        biomeAt_def world12345_fields world12345_biome world12345_tree world12345_birch)

lemma world12345_noHouse: "noHouse world12345 1 2"
  by (simp add: noHouse_def world12345_fields world12345_house)

text \<open>
  C1. The claim is that two calls of \<open>generateChunk\<close> for the same chunk coordinates under
  the same configuration return byte-identical block arrays. The terrain and cave passes
  depend on the seeded noise only, but the tree pass draws the trunk height and the corner
  leaves of every tree from \<open>Math.random\<close>, and the vegetation pass draws the height of sugar
  cane and cactus from it. In a chunk that has an oak site and no house, a run in which
  every draw is below 1/3 and a run in which every draw is at least 2/3 return different
  arrays: the oak has a trunk of four blocks in the first and of six in the second, so the
  cell five above the surface of the site is WOOD in the second run only.
\<close>

theorem generateChunk_depends_on_random:
  assumes "oakSite gen chunkX chunkZ x z" and "noHouse gen chunkX chunkZ"
    and "\<And>k. 0 \<le> lo k \<and> lo k < 1 / 3" and "\<And>k. 2 / 3 \<le> hi k \<and> hi k < 1"
  shows "getBlock (generateChunk gen lo chunkX chunkZ) x
           (getTerrainHeight gen (chunkX * CHUNK_SIZE + x) (chunkZ * CHUNK_SIZE + z) + 5) z \<noteq> WOOD
         \<and> getBlock (generateChunk gen hi chunkX chunkZ) x
             (getTerrainHeight gen (chunkX * CHUNK_SIZE + x) (chunkZ * CHUNK_SIZE + z) + 5) z = WOOD
         \<and> blocks (generateChunk gen lo chunkX chunkZ) \<noteq> blocks (generateChunk gen hi chunkX chunkZ)"
proof -
  let ?h = "getTerrainHeight gen (chunkX * CHUNK_SIZE + x) (chunkZ * CHUNK_SIZE + z)"
  have a: "getBlock (generateChunk gen lo chunkX chunkZ) x (?h + 5) z \<noteq> WOOD"
    using assms(1,2,3) by (rule generateChunk_short_oak)
  have b: "getBlock (generateChunk gen hi chunkX chunkZ) x (?h + 5) z = WOOD"
    using assms(1,2,4) by (rule generateChunk_tall_oak)
  have "blocks c = blocks d \<Longrightarrow> getBlock c x (?h + 5) z = getBlock d x (?h + 5) z" for c d
    by (simp add: getBlock_def)
  then have "blocks (generateChunk gen lo chunkX chunkZ) \<noteq> blocks (generateChunk gen hi chunkX chunkZ)"
    using a b by metis
  then show ?thesis using a b by simp
qed

text \<open>
  The chunk (1, 2) of the normal world with seed 12345: its column (9, 13), world column
  (25, 45), has terrain height 35 and carries an oak.
\<close>

theorem generateChunk_depends_on_random_witness:
  "oakSite world12345 1 2 9 13 \<and> noHouse world12345 1 2
   \<and> getBlock (generateChunk world12345 (\<lambda>_. 1 / 4) 1 2) 9 40 13 \<noteq> WOOD
   \<and> getBlock (generateChunk world12345 (\<lambda>_. 3 / 4) 1 2) 9 40 13 = WOOD
   \<and> blocks (generateChunk world12345 (\<lambda>_. 1 / 4) 1 2)
       \<noteq> blocks (generateChunk world12345 (\<lambda>_. 3 / 4) 1 2)"
  using generateChunk_depends_on_random [OF world12345_oak world12345_noHouse,
          of "\<lambda>_. 1 / 4" "\<lambda>_. 3 / 4"] world12345_oak world12345_noHouse
  by (simp add: CHUNK_SIZE_def world12345_height)

end
